(* ===== verification/Go_Prelude.thy ===== *)
theory Go_Prelude
  imports Main "HOL-Library.Word" "HOL-Library.Sublist"
begin

text \<open>
  The part of Go that every component of the model uses: bytes and fixed-width
  integers, results that may be an error or a run-time panic, slicing with Go's bounds
  check, \<open>copy\<close>, the big-endian accessors of \<open>encoding/binary\<close>, and \<open>io.ReadFull\<close>
  on a byte stream. The lemmas here are generic; the components use them through the
  collections \<open>go_simps\<close> (evaluation of the result monad), \<open>byte_simps\<close> (lengths and
  round trips of the accessors) and \<open>slice_simps\<close>.
\<close>

unbundle bit_operations_syntax

named_theorems go_simps
named_theorems byte_simps
named_theorems slice_simps

section \<open>Types\<close>

type_synonym byte = "8 word"
type_synonym u16 = "16 word"
type_synonym u32 = "32 word"
type_synonym u64 = "64 word"
type_synonym bytes = "byte list"

text \<open>
  Values of Go's \<open>error\<close>: the three sentinels of package \<open>io\<close> the code meets, and
  \<open>Error msg\<close> for what \<open>errors.New\<close> and \<open>fmt.Errorf\<close> build (the message without the
  formatted arguments).
\<close>

datatype error = EOF | UnexpectedEOF | ShortBuffer | Error string

text \<open>
  A call returns a value, returns a non-nil error, or panics (index or slice bounds out
  of range, nil map, division by zero).
\<close>

datatype 'a go = Return 'a | Fail error | Panic

fun go_bind :: "'a go \<Rightarrow> ('a \<Rightarrow> 'b go) \<Rightarrow> 'b go" where
  "go_bind (Return x) f = f x"
| "go_bind (Fail e) f = Fail e"
| "go_bind Panic f = Panic"

fun go_map :: "('a \<Rightarrow> 'b) \<Rightarrow> 'a go \<Rightarrow> 'b go" where
  "go_map f (Return x) = Return (f x)"
| "go_map f (Fail e) = Fail e"
| "go_map f Panic = Panic"

declare go_bind.simps [go_simps] go_map.simps [go_simps]

fun_cases go_bind_ReturnE: "go_bind m f = Return y"

lemma go_bind_Return_iff:
  "go_bind m f = Return y \<longleftrightarrow> (\<exists>x. m = Return x \<and> f x = Return y)"
  by (cases m) auto

lemma go_bind_Fail_iff:
  "go_bind m f = Fail e \<longleftrightarrow> m = Fail e \<or> (\<exists>x. m = Return x \<and> f x = Fail e)"
  by (cases m) auto

lemma go_bind_Panic_iff:
  "go_bind m f = Panic \<longleftrightarrow> m = Panic \<or> (\<exists>x. m = Return x \<and> f x = Panic)"
  by (cases m) auto

lemma go_map_Return_iff: "go_map f m = Return y \<longleftrightarrow> (\<exists>x. m = Return x \<and> f x = y)"
  by (cases m) auto

lemma go_map_Fail_iff [simp]: "go_map f m = Fail e \<longleftrightarrow> m = Fail e"
  by (cases m) auto

lemma go_map_Panic_iff [simp]: "go_map f m = Panic \<longleftrightarrow> m = Panic"
  by (cases m) auto

lemma go_map_map [simp]: "go_map f (go_map g m) = go_map (\<lambda>x. f (g x)) m"
  by (cases m) auto

lemma go_bind_assoc: "go_bind (go_bind m f) g = go_bind m (\<lambda>x. go_bind (f x) g)"
  by (cases m) auto

section \<open>Slices and copies\<close>

lemma nat_int_diff [simp]: "nat (int a - int b) = a - b"
  by arith

text \<open>
  \<open>xs[lo:hi]\<close> of a slice whose capacity is its length: the bounds are checked, and a
  violation panics. The bounds are Go \<open>int\<close>s, so they may be negative.
\<close>

definition go_slice :: "'a list \<Rightarrow> int \<Rightarrow> int \<Rightarrow> 'a list go" where
  "go_slice xs lo hi =
     (if 0 \<le> lo \<and> lo \<le> hi \<and> hi \<le> int (length xs)
      then Return (take (nat (hi - lo)) (drop (nat lo) xs)) else Panic)"

definition go_index :: "'a list \<Rightarrow> int \<Rightarrow> 'a go" where
  "go_index xs i = (if 0 \<le> i \<and> i < int (length xs) then Return (xs ! nat i) else Panic)"

text \<open>
  \<open>blit dst i src\<close> is \<open>dst\<close> after \<open>copy(dst[i:], src)\<close>: as much of \<open>src\<close> as fits is
  written from position \<open>i\<close> on. \<open>copied\<close> is the number of elements written.
\<close>

definition copied :: "'a list \<Rightarrow> nat \<Rightarrow> 'a list \<Rightarrow> nat" where
  "copied dst i src = min (length dst - i) (length src)"

definition blit :: "'a list \<Rightarrow> nat \<Rightarrow> 'a list \<Rightarrow> 'a list" where
  "blit dst i src =
     take i dst @ take (copied dst i src) src @ drop (i + copied dst i src) dst"

lemma slice_Return_iff [slice_simps]:
  "go_slice xs lo hi = Return ys \<longleftrightarrow>
     0 \<le> lo \<and> lo \<le> hi \<and> hi \<le> int (length xs) \<and> ys = take (nat (hi - lo)) (drop (nat lo) xs)"
  by (auto simp: go_slice_def)

lemma slice_Panic_iff [slice_simps]:
  "go_slice xs lo hi = Panic \<longleftrightarrow> \<not> (0 \<le> lo \<and> lo \<le> hi \<and> hi \<le> int (length xs))"
  by (auto simp: go_slice_def)

lemma slice_not_Fail [simp]: "go_slice xs lo hi \<noteq> Fail e"
  by (simp add: go_slice_def)

lemma slice_of_nat [slice_simps]:
  "go_slice xs (int a) (int b) =
     (if a \<le> b \<and> b \<le> length xs then Return (take (b - a) (drop a xs)) else Panic)"
  by (auto simp: go_slice_def nat_diff_distrib)

lemma index_of_nat [slice_simps]:
  "go_index xs (int i) = (if i < length xs then Return (xs ! i) else Panic)"
  by (simp add: go_index_def)

lemma length_blit [simp]: "i \<le> length dst \<Longrightarrow> length (blit dst i src) = length dst"
  by (simp add: blit_def copied_def)

lemma take_blit [simp]: "i \<le> length dst \<Longrightarrow> take i (blit dst i src) = take i dst"
  by (simp add: blit_def)

lemma blit_fits:
  "i + length src \<le> length dst \<Longrightarrow> blit dst i src = take i dst @ src @ drop (i + length src) dst"
  by (simp add: blit_def copied_def min.absorb2)

lemma drop_blit [simp]:
  "i \<le> length dst \<Longrightarrow>
     drop i (blit dst i src) = take (copied dst i src) src @ drop (i + copied dst i src) dst"
  by (simp add: blit_def)

lemma blit_Nil [simp]: "i \<le> length dst \<Longrightarrow> blit dst i [] = dst"
  by (simp add: blit_def copied_def)

lemma blit_middle:
  "length ys' = length ys \<Longrightarrow> n = length xs \<Longrightarrow> blit (xs @ ys @ zs) n ys' = xs @ ys' @ zs"
  by (simp add: blit_fits)

lemma list_update_middle: "n = length xs \<Longrightarrow> (xs @ y # ys)[n := z] = xs @ z # ys"
  by simp

lemma blit_whole: "length src = length dst \<Longrightarrow> blit dst 0 src = src"
  by (simp add: blit_def copied_def)

section \<open>Big-endian integers\<close>

lemma unat_bound: "unat (w :: 'a::len word) < 2 ^ LENGTH('a)"
  by (fact unsigned_less)

lemma byte_le_1_cases: "(w :: byte) \<le> 1 \<Longrightarrow> w = 0 \<or> w = 1"
  by (auto simp: word_le_nat_alt word_eq_iff_unsigned [where ?'a = nat])

lemma unat_ucast_up:
  assumes "LENGTH('a) \<le> LENGTH('b)"
  shows "unat (ucast (w :: 'a::len word) :: 'b::len word) = unat w"
proof -
  have "(2 :: nat) ^ LENGTH('a) \<le> 2 ^ LENGTH('b)"
    using assms by simp
  with unat_bound [of w] have "unat w < 2 ^ LENGTH('b)"
    by linarith
  then show ?thesis
    by (simp add: unsigned_ucast_eq take_bit_nat_eq_self)
qed

text \<open>
  \<open>be_put n w\<close> is the \<open>n\<close> bytes that \<open>PutUint16\<close>, \<open>PutUint32\<close> and \<open>PutUint64\<close> write (most
  significant byte first); \<open>be_get\<close> is what \<open>Uint16\<close>, \<open>Uint32\<close> and \<open>Uint64\<close> read.
\<close>

primrec be_put :: "nat \<Rightarrow> 'a::len word \<Rightarrow> bytes" where
  "be_put 0 w = []"
| "be_put (Suc n) w = ucast (drop_bit (8 * n) w) # be_put n w"

definition be_get :: "bytes \<Rightarrow> 'a::len word" where
  "be_get bs = foldl (\<lambda>acc b. push_bit 8 acc OR ucast b) 0 bs"

abbreviation put16 :: "u16 \<Rightarrow> bytes" where "put16 \<equiv> be_put 2"
abbreviation put32 :: "u32 \<Rightarrow> bytes" where "put32 \<equiv> be_put 4"
abbreviation put64 :: "u64 \<Rightarrow> bytes" where "put64 \<equiv> be_put 8"
abbreviation get16 :: "bytes \<Rightarrow> u16" where "get16 \<equiv> be_get"
abbreviation get32 :: "bytes \<Rightarrow> u32" where "get32 \<equiv> be_get"
abbreviation get64 :: "bytes \<Rightarrow> u64" where "get64 \<equiv> be_get"

lemma length_be_put [simp, byte_simps]: "length (be_put n w) = n"
  by (induction n) auto

lemma be_put_eq_Nil [simp]: "be_put n w = [] \<longleftrightarrow> n = 0"
  by (cases n) auto

lemma put16_bytes: "put16 w = [ucast (drop_bit 8 w), ucast w]"
  by (simp add: eval_nat_numeral)

text \<open>The two accessors are inverse to each other at the full width.\<close>

lemma be_get_Nil [simp]: "be_get [] = 0"
  by (simp add: be_get_def)

lemma be_get_snoc: "be_get (bs @ [b]) = push_bit 8 (be_get bs) OR ucast b"
  by (simp add: be_get_def)

lemma be_put_shift: "be_put (Suc n) w = be_put n (drop_bit 8 w) @ [ucast w]"
  by (induction n) (simp_all add: add.commute)

lemma bit_take_drop_join:
  fixes w :: "'a::len word"
  shows "push_bit 8 (take_bit n (drop_bit 8 w)) OR ucast (ucast w :: byte) = take_bit (n + 8) w"
  by (rule bit_word_eqI) (auto simp: bit_simps)

lemma be_get_put: "be_get (be_put n w) = take_bit (8 * n) (w :: 'a::len word)"
proof (induction n arbitrary: w)
  case 0
  show ?case by simp
next
  case (Suc n)
  show ?case
    by (simp only: be_put_shift be_get_snoc Suc.IH bit_take_drop_join) (simp add: add.commute)
qed

lemma get16_put16 [simp, byte_simps]: "get16 (put16 w) = w"
  by (simp add: be_get_put take_bit_word_eq_self)

lemma get32_put32 [simp, byte_simps]: "get32 (put32 w) = w"
  by (simp add: be_get_put take_bit_word_eq_self)

lemma get64_put64 [simp, byte_simps]: "get64 (put64 w) = w"
  by (simp add: be_get_put take_bit_word_eq_self)

lemma be_put_cong:
  "(\<And>i. i < 8 * n \<Longrightarrow> bit w i = bit v i) \<Longrightarrow> be_put n w = be_put n v"
proof (induction n)
  case 0
  show ?case by simp
next
  case (Suc n)
  have "(ucast (drop_bit (8 * n) w) :: byte) = ucast (drop_bit (8 * n) v)"
    using Suc.prems by (intro bit_word_eqI) (auto simp: bit_simps)
  with Suc show ?case by simp
qed

lemma be_put_get:
  "length bs = n \<Longrightarrow> 8 * n \<le> LENGTH('a) \<Longrightarrow> be_put n (be_get bs :: 'a::len word) = bs"
proof (induction n arbitrary: bs)
  case 0
  then show ?case by simp
next
  case (Suc n)
  then obtain cs b where bs: "bs = cs @ [b]" and len: "length cs = n"
    by (metis length_Suc_conv_rev)
  have w: "8 \<le> LENGTH('a)" and n: "8 * n + 8 \<le> LENGTH('a)"
    using Suc.prems by simp_all
  have lo: "(ucast (push_bit 8 (be_get cs) OR ucast b :: 'a word) :: byte) = b"
    using w by (intro bit_word_eqI) (auto simp: bit_simps)
  have cs_get: "be_put n (drop_bit 8 (push_bit 8 (be_get cs) OR ucast b :: 'a word))
      = be_put n (be_get cs :: 'a word)"
    using n by (intro be_put_cong) (auto simp: bit_simps dest: bit_imp_le_length)
  show ?case
    using Suc.IH [of cs] len n by (simp only: bs be_get_snoc be_put_shift lo cs_get)
qed

section \<open>Streams\<close>

text \<open>
  A byte stream (the read side of a connection) is the list of bytes still to be
  delivered before the peer closes it. \<open>read_full n s\<close> is \<open>io.ReadFull\<close> with a buffer of
  \<open>n\<close> bytes: it consumes exactly \<open>n\<close> bytes, or fails with \<open>EOF\<close> when none was left and
  with \<open>ErrUnexpectedEOF\<close> when some but not enough were. \<open>read_pad n s\<close> is the same call
  with its error ignored: the fresh buffer keeps its zeros where nothing was read.
\<close>

type_synonym stream = bytes

definition read_full :: "nat \<Rightarrow> stream \<Rightarrow> (bytes \<times> stream) go" where
  "read_full n s =
     (if n \<le> length s then Return (take n s, drop n s)
      else if s = [] then Fail EOF else Fail UnexpectedEOF)"

definition read_pad :: "nat \<Rightarrow> stream \<Rightarrow> bytes \<times> stream" where
  "read_pad n s = (take n s @ replicate (n - length s) 0, drop n s)"

lemma read_full_append [simp, go_simps]:
  "length xs = n \<Longrightarrow> read_full n (xs @ rest) = Return (xs, rest)"
  by (simp add: read_full_def)

lemma read_full_Return_iff:
  "read_full n s = Return (xs, rest) \<longleftrightarrow> s = xs @ rest \<and> length xs = n"
  by (auto simp: read_full_def)

lemma read_full_not_Panic [simp]: "read_full n s \<noteq> Panic"
  by (simp add: read_full_def)

lemma read_full_short: "length s < n \<Longrightarrow> \<exists>e. read_full n s = Fail e"
  by (simp add: read_full_def)

lemma read_pad_append [simp, go_simps]:
  "length xs = n \<Longrightarrow> read_pad n (xs @ rest) = (xs, rest)"
  by (simp add: read_pad_def)

lemma length_read_pad [simp]: "length (fst (read_pad n s)) = n"
  by (simp add: read_pad_def)

section \<open>Connections\<close>

text \<open>
  A \<open>net.Conn\<close>: the stream still to be read, the bytes written so far, and the outcome of
  each coming write (the peer and the network decide it; no entry means success).
\<close>

record conn =
  c_in :: stream
  c_out :: bytes
  c_werr :: "error option list"

definition conn_write :: "bytes \<Rightarrow> conn \<Rightarrow> conn \<times> error option" where
  "conn_write p c =
     (case c_werr c of
        Some e # es \<Rightarrow> (c\<lparr>c_werr := es\<rparr>, Some e)
      | es \<Rightarrow> (c\<lparr>c_out := c_out c @ p, c_werr := tl es\<rparr>, None))"

lemma conn_write_None:
  "conn_write p c = (c', None) \<Longrightarrow> c_out c' = c_out c @ p \<and> c_in c' = c_in c"
  by (auto simp: conn_write_def split: list.splits option.splits)

section \<open>Framing\<close>

text \<open>
  The interface of a frame format on a stream: decoding an encoded frame gives it back and
  leaves the rest, and every decoded frame consumes some input. \<open>decode_frames\<close> is the
  reader's loop for a known number of frames.
\<close>

fun decode_frames :: "(stream \<Rightarrow> ('a \<times> stream) go) \<Rightarrow> nat \<Rightarrow> stream \<Rightarrow> ('a list \<times> stream) go" where
  "decode_frames dec 0 s = Return ([], s)"
| "decode_frames dec (Suc n) s =
     go_bind (dec s) (\<lambda>(x, s'). go_map (apfst (Cons x)) (decode_frames dec n s'))"

locale framing =
  fixes enc :: "'a \<Rightarrow> bytes"
    and dec :: "stream \<Rightarrow> ('a \<times> stream) go"
    and valid :: "'a \<Rightarrow> bool"
  assumes dec_enc: "valid x \<Longrightarrow> dec (enc x @ rest) = Return (x, rest)"
    and dec_progress: "dec s = Return (x, s') \<Longrightarrow> length s' < length s"
begin

lemma decode_all:
  "list_all valid xs \<Longrightarrow>
     decode_frames dec (length xs) (concat (map enc xs) @ rest) = Return (xs, rest)"
  by (induction xs) (simp_all add: dec_enc)

text \<open>Frames are self-delimiting: two streams of valid frames with a common prefix agree on it.\<close>

lemma enc_prefix_free:
  "valid x \<Longrightarrow> valid y \<Longrightarrow> enc x @ r = enc y @ r' \<Longrightarrow> x = y \<and> r = r'"
  by (metis dec_enc go.inject(1) prod.inject)

lemma enc_nonempty: "valid x \<Longrightarrow> enc x \<noteq> []"
  using dec_enc [of x "[]"] dec_progress [of "enc x @ []" x "[]"] by auto

lemma frames_unique:
  "list_all valid xs \<Longrightarrow> list_all valid ys \<Longrightarrow> concat (map enc xs) = concat (map enc ys) \<Longrightarrow> xs = ys"
proof (induction xs arbitrary: ys)
  case Nil
  then show ?case
    by (cases ys) (auto dest: enc_nonempty)
next
  case (Cons x xs)
  have "enc x \<noteq> []"
    using Cons.prems(1) enc_nonempty by simp
  then obtain y ys' where ys: "ys = y # ys'"
    using Cons.prems(3) by (cases ys) auto
  have "x = y \<and> concat (map enc xs) = concat (map enc ys')"
    by (rule enc_prefix_free) (use Cons.prems ys in simp_all)
  moreover from this have "xs = ys'"
    using Cons.prems ys by (intro Cons.IH) simp_all
  ultimately show ?case
    by (simp add: ys)
qed

end

text \<open>
  A reader of framed messages that keeps what did not fit into the caller's buffer: a read
  hands out pending bytes first, then decodes the next frame. \<open>reads\<close> is a client that calls
  it with buffers of the given sizes until the end of the stream.
\<close>

fun reads :: "(nat \<Rightarrow> 'r \<Rightarrow> 'r \<times> bytes go) \<Rightarrow> nat list \<Rightarrow> 'r \<Rightarrow> bytes go" where
  "reads rd [] r = Return []"
| "reads rd (k # ks) r =
     (case rd k r of
        (r', Return out) \<Rightarrow> go_map ((@) out) (reads rd ks r')
      | (r', Fail e) \<Rightarrow> (if e = EOF then Return [] else Fail e)
      | (r', Panic) \<Rightarrow> Panic)"

locale framed_reader = framing enc dec valid
  for enc :: "'a \<Rightarrow> bytes" and dec :: "stream \<Rightarrow> ('a \<times> stream) go" and valid :: "'a \<Rightarrow> bool" +
  fixes payload :: "'a \<Rightarrow> bytes"
    and rd :: "nat \<Rightarrow> 'r \<Rightarrow> 'r \<times> bytes go"
    and pend :: "'r \<Rightarrow> bytes"
    and input :: "'r \<Rightarrow> stream"
    and rinv :: "'r \<Rightarrow> bool"
  assumes rd_pend: "rinv r \<Longrightarrow> pend r \<noteq> [] \<Longrightarrow>
      \<exists>r'. rd k r = (r', Return (take k (pend r))) \<and> rinv r' \<and> pend r' = drop k (pend r) \<and> input r' = input r"
    and rd_frame: "rinv r \<Longrightarrow> pend r = [] \<Longrightarrow> input r = enc x @ rest \<Longrightarrow> valid x \<Longrightarrow>
      \<exists>r'. rd k r = (r', Return (take k (payload x))) \<and> rinv r' \<and> pend r' = drop k (payload x) \<and> input r' = rest"
    and rd_end: "rinv r \<Longrightarrow> pend r = [] \<Longrightarrow> input r = [] \<Longrightarrow> snd (rd k r) = Fail EOF"
begin

lemma reads_prefix:
  assumes "rinv r" and "input r = concat (map enc xs)" and "list_all valid xs"
  shows "\<exists>out. reads rd ks r = Return out \<and> prefix out (pend r @ concat (map payload xs)) \<and>
    (list_all (\<lambda>k. k > 0) ks \<and> length (pend r @ concat (map payload xs)) + length xs \<le> length ks \<longrightarrow>
       out = pend r @ concat (map payload xs))"
  using assms
proof (induction ks arbitrary: r xs)
  case (Cons k ks)
  show ?case
  proof (cases "pend r = []")
    case False
    from rd_pend [OF Cons.prems(1) this] obtain r' where r':
      "rd k r = (r', Return (take k (pend r)))" "rinv r'" "pend r' = drop k (pend r)" "input r' = input r"
      by blast
    have split: "pend r @ concat (map payload xs) = take k (pend r) @ pend r' @ concat (map payload xs)"
      by (simp add: r'(3))
    have "length (pend r') < length (pend r)" if "k > 0"
      using that False by (simp add: r'(3))
    with Cons.IH [OF r'(2) _ Cons.prems(3)] Cons.prems(2) r'(1,4) show ?thesis
      unfolding split by fastforce
  next
    case pend: True
    show ?thesis
    proof (cases xs)
      case Nil
      then have "snd (rd k r) = Fail EOF"
        using Cons.prems(1,2) pend by (intro rd_end) simp_all
      then show ?thesis
        using Nil pend by (auto split: prod.split)
    next
      case (Cons x xs')
      with Cons.prems(2,3) have x: "input r = enc x @ concat (map enc xs')" "valid x" "list_all valid xs'"
        by simp_all
      from rd_frame [OF Cons.prems(1) pend x(1,2)] obtain r' where r':
        "rd k r = (r', Return (take k (payload x)))" "rinv r'" "pend r' = drop k (payload x)"
        "input r' = concat (map enc xs')"
        by blast
      have split: "pend r @ concat (map payload xs) = take k (payload x) @ pend r' @ concat (map payload xs')"
        by (simp add: r'(3) pend Cons)
      from Cons.IH [OF r'(2,4) x(3)] r'(1,3) show ?thesis
        unfolding split by (fastforce simp: Cons)
    qed
  qed
qed simp

end

end
