(* ===== verification/Buf.thy ===== *)
theory Buf
  imports Go_Prelude
begin

text \<open>
  \<open>app/common/buf/buffer.go\<close>: the tiered pools of byte arrays and the cursor buffer built
  on them. The pools are an explicit state passed through the operations that take from
  or return to them. \<open>sync.Pool.Get\<close> may return any array that was put, or call its
  \<open>New\<close>: the argument \<open>c\<close> chooses, and every lemma holds for all choices. An array is a
  value here, so a \<open>Slice\<close> is a snapshot of its parent's array (later writes through the
  one are not seen through the other), and use of a buffer after \<open>Release\<close> is not modelled.
  At the end the buffer is shown to be a bounded byte queue (locale \<open>byte_queue\<close>).
\<close>

section \<open>Pools\<close>

definition Size :: nat where "Size = 32 * 1024"

record pools =
  pool32K :: "bytes list"
  pool16K :: "bytes list"
  pool8K :: "bytes list"
  pool4K :: "bytes list"

definition pool_take :: "nat \<Rightarrow> nat \<Rightarrow> bytes list \<Rightarrow> bytes \<times> bytes list" where
  "pool_take n c p =
     (if c < length p then (p ! c, take c p @ drop (Suc c) p) else (replicate n 0, p))"

definition getBuffer :: "int \<Rightarrow> nat \<Rightarrow> pools \<Rightarrow> (bytes \<times> bool) \<times> pools" where
  "getBuffer sz c ps =
     (if sz \<ge> 24 * 1024 then
        (case pool_take (32 * 1024) c (pool32K ps) of (b, p) \<Rightarrow> ((b, True), ps\<lparr>pool32K := p\<rparr>))
      else if sz \<ge> 12 * 1024 then
        (case pool_take (16 * 1024) c (pool16K ps) of (b, p) \<Rightarrow> ((b, True), ps\<lparr>pool16K := p\<rparr>))
      else if sz \<ge> 6 * 1024 then
        (case pool_take (8 * 1024) c (pool8K ps) of (b, p) \<Rightarrow> ((b, True), ps\<lparr>pool8K := p\<rparr>))
      else if sz \<ge> 3 * 1024 then
        (case pool_take (4 * 1024) c (pool4K ps) of (b, p) \<Rightarrow> ((b, True), ps\<lparr>pool4K := p\<rparr>))
      else
        (case pool_take (4 * 1024) c (pool4K ps) of (b, p) \<Rightarrow> ((b, True), ps\<lparr>pool4K := p\<rparr>)))"

definition putBuffer :: "bytes \<Rightarrow> pools \<Rightarrow> pools" where
  "putBuffer b ps =
     (if length b = 32 * 1024 then ps\<lparr>pool32K := b # pool32K ps\<rparr>
      else if length b = 16 * 1024 then ps\<lparr>pool16K := b # pool16K ps\<rparr>
      else if length b = 8 * 1024 then ps\<lparr>pool8K := b # pool8K ps\<rparr>
      else if length b = 4 * 1024 then ps\<lparr>pool4K := b # pool4K ps\<rparr>
      else ps)"

section \<open>The buffer\<close>

record buffer =
  b_buf :: bytes
  b_start :: int
  b_end :: int
  b_pooled :: bool

definition buffer_New :: "nat \<Rightarrow> pools \<Rightarrow> (buffer \<times> pools) go" where
  "buffer_New c ps =
     (case getBuffer (int Size) c ps of ((b, pld), ps') \<Rightarrow>
        go_bind (go_slice b 0 (int Size)) (\<lambda>arr.
          Return (\<lparr>b_buf = arr, b_start = 0, b_end = 0, b_pooled = pld\<rparr>, ps')))"

definition buffer_NewWithSize :: "int \<Rightarrow> nat \<Rightarrow> pools \<Rightarrow> (buffer \<times> pools) go" where
  "buffer_NewWithSize sz c ps =
     (if sz \<le> int Size then buffer_New c ps
      else (case getBuffer sz c ps of ((b, pld), ps') \<Rightarrow>
        go_bind (go_slice b 0 sz) (\<lambda>arr.
          Return (\<lparr>b_buf = arr, b_start = 0, b_end = 0, b_pooled = pld\<rparr>, ps'))))"

definition buffer_StackNew :: buffer where
  "buffer_StackNew = \<lparr>b_buf = replicate Size 0, b_start = 0, b_end = 0, b_pooled = False\<rparr>"

definition buffer_Byte :: "buffer \<Rightarrow> int \<Rightarrow> byte go" where
  "buffer_Byte b idx = go_index (b_buf b) (b_start b + idx)"

definition buffer_Bytes :: "buffer \<Rightarrow> bytes go" where
  "buffer_Bytes b = go_slice (b_buf b) (b_start b) (b_end b)"

definition buffer_BytesFrom :: "buffer \<Rightarrow> int \<Rightarrow> bytes go" where
  "buffer_BytesFrom b idx = go_slice (b_buf b) (b_start b + idx) (b_end b)"

definition buffer_BytesRange :: "buffer \<Rightarrow> int \<Rightarrow> int \<Rightarrow> bytes go" where
  "buffer_BytesRange b from to = go_slice (b_buf b) (b_start b + from) (b_start b + to)"

definition buffer_Len :: "buffer \<Rightarrow> int" where
  "buffer_Len b = b_end b - b_start b"

definition buffer_IsEmpty :: "buffer \<Rightarrow> bool" where
  "buffer_IsEmpty b \<longleftrightarrow> b_start b = b_end b"

definition buffer_IsFull :: "buffer \<Rightarrow> bool" where
  "buffer_IsFull b \<longleftrightarrow> b_end b = int (length (b_buf b))"

definition buffer_Cap :: "buffer \<Rightarrow> int" where
  "buffer_Cap b = int (length (b_buf b))"

definition buffer_Clear :: "buffer \<Rightarrow> buffer" where
  "buffer_Clear b = b\<lparr>b_start := 0, b_end := 0\<rparr>"

text \<open>The callback of \<open>Reset\<close> may write the array it is given; it returns the new end.\<close>

definition buffer_Reset :: "(bytes \<Rightarrow> bytes \<times> int) \<Rightarrow> buffer \<Rightarrow> buffer \<times> int" where
  "buffer_Reset fn b =
     (case fn (b_buf b) of (arr, idx) \<Rightarrow> (b\<lparr>b_buf := arr, b_start := 0, b_end := idx\<rparr>, idx))"

definition buffer_Advance :: "buffer \<Rightarrow> int \<Rightarrow> buffer" where
  "buffer_Advance b from = b\<lparr>b_start := b_start b + from\<rparr>"

definition buffer_Extend :: "buffer \<Rightarrow> int \<Rightarrow> (buffer \<times> nat) go" where
  "buffer_Extend b to =
     go_bind (go_slice (b_buf b) (b_end b) (int (length (b_buf b)))) (\<lambda>dst.
     go_bind (go_slice (b_buf b) (b_start b) (b_start b + to)) (\<lambda>src.
       let n = min (length dst) (length src)
       in Return (b\<lparr>b_buf := blit (b_buf b) (nat (b_end b)) src, b_end := b_end b + int n\<rparr>, n)))"

definition buffer_Write :: "buffer \<Rightarrow> bytes \<Rightarrow> (buffer \<times> nat \<times> error option) go" where
  "buffer_Write b data =
     go_bind (go_slice (b_buf b) (b_end b) (int (length (b_buf b)))) (\<lambda>dst.
       let n = min (length dst) (length data);
           b' = b\<lparr>b_buf := blit (b_buf b) (nat (b_end b)) data, b_end := b_end b + int n\<rparr>
       in if n < length data then Return (b', n, Some ShortBuffer) else Return (b', n, None))"

definition buffer_WriteByte :: "buffer \<Rightarrow> byte \<Rightarrow> (buffer \<times> error option) go" where
  "buffer_WriteByte b d =
     (if buffer_IsFull b then Return (b, Some ShortBuffer)
      else if 0 \<le> b_end b \<and> b_end b < int (length (b_buf b)) then
        Return (b\<lparr>b_buf := (b_buf b)[nat (b_end b) := d], b_end := b_end b + 1\<rparr>, None)
      else Panic)"

definition buffer_WriteBytes :: "buffer \<Rightarrow> bytes \<Rightarrow> (buffer \<times> nat \<times> error option) go" where
  "buffer_WriteBytes b d = buffer_Write b d"

text \<open>\<open>Read\<close> into a destination of length \<open>n\<close>: the bytes copied out, and the error.\<close>

definition buffer_Read :: "buffer \<Rightarrow> nat \<Rightarrow> (buffer \<times> bytes \<times> error option) go" where
  "buffer_Read b n =
     (if buffer_IsEmpty b then Return (b, [], Some EOF)
      else go_bind (go_slice (b_buf b) (b_start b) (b_end b)) (\<lambda>src.
        let k = min n (length src)
        in Return (b\<lparr>b_start := b_start b + int k\<rparr>, take k src, None)))"

definition buffer_ReadByte :: "buffer \<Rightarrow> (buffer \<times> byte \<times> error option) go" where
  "buffer_ReadByte b =
     (if buffer_IsEmpty b then Return (b, 0, Some EOF)
      else go_bind (go_index (b_buf b) (b_start b)) (\<lambda>v.
        Return (b\<lparr>b_start := b_start b + 1\<rparr>, v, None)))"

text \<open>
  \<open>ReadFullFrom\<close> grows the array when the request does not fit; the live bytes move to its
  front, and the end is set to \<open>end - size\<close>, the old end. A short stream leaves the bytes
  it delivered and the error of \<open>io.ReadFull\<close>.
\<close>

definition buffer_grow :: "buffer \<Rightarrow> int \<Rightarrow> int \<Rightarrow> buffer go" where
  "buffer_grow b sz e =
     (if e > int (length (b_buf b)) then
        go_bind (go_slice (b_buf b) (b_start b) (b_end b)) (\<lambda>live.
          Return (b\<lparr>b_buf := blit (replicate (nat e) 0) 0 live, b_start := 0, b_end := e - sz,
                    b_pooled := False\<rparr>))
      else Return b)"

definition buffer_ReadFullFrom ::
  "buffer \<Rightarrow> stream \<Rightarrow> int \<Rightarrow> (buffer \<times> stream \<times> nat \<times> error option) go" where
  "buffer_ReadFullFrom b s sz =
     (let e = b_end b + sz in
      go_bind (buffer_grow b sz e) (\<lambda>b1.
      go_bind (go_slice (b_buf b1) (b_end b1) e) (\<lambda>dst.
        let n = min (length dst) (length s);
            b2 = b1\<lparr>b_buf := blit (b_buf b1) (nat (b_end b1)) (take n s), b_end := b_end b1 + int n\<rparr>;
            err = (if n = length dst then None
                   else if n = 0 then Some EOF else Some UnexpectedEOF)
        in Return (b2, drop n s, n, err))))"

definition buffer_Release :: "buffer option \<Rightarrow> pools \<Rightarrow> buffer option \<times> pools" where
  "buffer_Release mb ps =
     (case mb of
        None \<Rightarrow> (None, ps)
      | Some b \<Rightarrow>
          if \<not> b_pooled b then (Some b, ps)
          else (Some (b\<lparr>b_start := 0, b_end := 0, b_pooled := False\<rparr>), putBuffer (b_buf b) ps))"

definition buffer_Slice :: "buffer \<Rightarrow> int \<Rightarrow> int \<Rightarrow> buffer" where
  "buffer_Slice b from to =
     \<lparr>b_buf = b_buf b, b_start = b_start b + from, b_end = b_start b + to, b_pooled = False\<rparr>"

definition buffer_Clone :: "buffer \<Rightarrow> nat \<Rightarrow> pools \<Rightarrow> (buffer \<times> pools) go" where
  "buffer_Clone b c ps =
     go_bind (buffer_NewWithSize (buffer_Len b) c ps) (\<lambda>(nb, ps').
     go_bind (buffer_Bytes b) (\<lambda>bs.
       Return (nb\<lparr>b_buf := blit (b_buf nb) 0 bs, b_end := int (min (length (b_buf nb)) (length bs))\<rparr>, ps')))"

definition buffer_Resize :: "buffer \<Rightarrow> int \<Rightarrow> int \<Rightarrow> buffer" where
  "buffer_Resize b s e = b\<lparr>b_start := b_start b + s, b_end := b_start b + s + e\<rparr>"

section \<open>Invariants\<close>

definition buf_inv :: "buffer \<Rightarrow> bool" where
  "buf_inv b \<longleftrightarrow> 0 \<le> b_start b \<and> b_start b \<le> b_end b \<and> b_end b \<le> int (length (b_buf b))"

definition content :: "buffer \<Rightarrow> bytes" where
  "content b = take (nat (b_end b - b_start b)) (drop (nat (b_start b)) (b_buf b))"

definition room :: "buffer \<Rightarrow> nat" where
  "room b = length (b_buf b) - nat (b_end b)"

text \<open>Every pooled array has the length of its tier.\<close>

definition pools_inv :: "pools \<Rightarrow> bool" where
  "pools_inv ps \<longleftrightarrow>
     (\<forall>a \<in> set (pool32K ps). length a = 32 * 1024) \<and> (\<forall>a \<in> set (pool16K ps). length a = 16 * 1024) \<and>
     (\<forall>a \<in> set (pool8K ps). length a = 8 * 1024) \<and> (\<forall>a \<in> set (pool4K ps). length a = 4 * 1024)"

lemma buf_inv_nat:
  assumes "buf_inv b"
  obtains s e where "b_start b = int s" "b_end b = int e" "s \<le> e" "e \<le> length (b_buf b)"
proof
  show "b_start b = int (nat (b_start b))" "b_end b = int (nat (b_end b))"
    using assms by (simp_all add: buf_inv_def)
  show "nat (b_start b) \<le> nat (b_end b)" "nat (b_end b) \<le> length (b_buf b)"
    using assms by (auto simp: buf_inv_def)
qed

lemma content_nat:
  "b_start b = int s \<Longrightarrow> b_end b = int e \<Longrightarrow> content b = take (e - s) (drop s (b_buf b))"
  by (simp add: content_def)

lemma length_content: "buf_inv b \<Longrightarrow> length (content b) = nat (buffer_Len b)"
  by (erule buf_inv_nat) (simp add: content_def buffer_Len_def)

lemma content_Nil_iff: "buf_inv b \<Longrightarrow> content b = [] \<longleftrightarrow> buffer_IsEmpty b"
  by (erule buf_inv_nat) (auto simp: content_def buffer_IsEmpty_def)

lemma buffer_Bytes_content: "buf_inv b \<Longrightarrow> buffer_Bytes b = Return (content b)"
  by (erule buf_inv_nat) (simp add: buffer_Bytes_def content_def slice_simps)

section \<open>Allocation\<close>

lemma pool_take_inv:
  assumes all: "\<forall>a \<in> set p. length a = n" and "pool_take n c p = (b, p')"
  shows "length b = n \<and> (\<forall>a \<in> set p'. length a = n)"
proof (cases "c < length p")
  case True
  with assms(2) have "b = p ! c" "p' = take c p @ drop (Suc c) p"
    by (simp_all add: pool_take_def)
  then have "b \<in> set p" "set p' \<subseteq> set p"
    using True set_take_subset [of c p] set_drop_subset [of "Suc c" p] by auto
  with all show ?thesis by blast
next
  case False
  with assms show ?thesis by (auto simp: pool_take_def)
qed

lemma pool_take_pair:
  "\<forall>a \<in> set p. length a = n \<Longrightarrow>
     length (fst (pool_take n c p)) = n \<and> (\<forall>a \<in> set (snd (pool_take n c p)). length a = n)"
  by (metis pool_take_inv prod.collapse)

lemma getBuffer_inv:
  assumes "pools_inv ps" and g: "getBuffer sz c ps = ((b, pld), ps')"
  shows "pools_inv ps' \<and> pld \<and>
    length b = (if sz \<ge> 24 * 1024 then 32 * 1024 else if sz \<ge> 12 * 1024 then 16 * 1024
                else if sz \<ge> 6 * 1024 then 8 * 1024 else 4 * 1024)"
proof -
  have p: "pools_inv ps" by fact
  note T = pool_take_pair [of _ _ c]
  from p have
    "length (fst (pool_take (32 * 1024) c (pool32K ps))) = 32 * 1024"
    "\<forall>a \<in> set (snd (pool_take (32 * 1024) c (pool32K ps))). length a = 32 * 1024"
    "length (fst (pool_take (16 * 1024) c (pool16K ps))) = 16 * 1024"
    "\<forall>a \<in> set (snd (pool_take (16 * 1024) c (pool16K ps))). length a = 16 * 1024"
    "length (fst (pool_take (8 * 1024) c (pool8K ps))) = 8 * 1024"
    "\<forall>a \<in> set (snd (pool_take (8 * 1024) c (pool8K ps))). length a = 8 * 1024"
    "length (fst (pool_take (4 * 1024) c (pool4K ps))) = 4 * 1024"
    "\<forall>a \<in> set (snd (pool_take (4 * 1024) c (pool4K ps))). length a = 4 * 1024"
    unfolding pools_inv_def by (blast dest: T)+
  with p g show ?thesis
    by (simp add: getBuffer_def pools_inv_def case_prod_unfold split: if_splits)
       (auto simp del: nth_mem)
qed

lemma buffer_New_ok:
  assumes "pools_inv ps"
  shows "\<exists>b ps'. buffer_New c ps = Return (b, ps') \<and> pools_inv ps' \<and> buf_inv b \<and>
           content b = [] \<and> room b = Size \<and> length (b_buf b) = Size \<and> b_pooled b"
proof -
  obtain a pld ps' where g: "getBuffer (int Size) c ps = ((a, pld), ps')"
    by (metis surj_pair)
  from getBuffer_inv [OF assms this] have "pools_inv ps'" "pld" "length a = Size"
    by (simp_all add: Size_def)
  then show ?thesis
    by (simp add: buffer_New_def g go_slice_def buf_inv_def content_def room_def)
qed

lemma buffer_NewWithSize_big:
  assumes "pools_inv ps" and "int Size < sz"
  shows "buffer_NewWithSize sz c ps = Panic"
proof -
  obtain a pld ps' where g: "getBuffer sz c ps = ((a, pld), ps')"
    by (metis surj_pair)
  from getBuffer_inv [OF assms(1) this] assms(2) have "length a = Size"
    by (simp add: Size_def)
  with assms(2) show ?thesis
    by (simp add: buffer_NewWithSize_def g go_slice_def)
qed

lemma putBuffer_inv: "pools_inv ps \<Longrightarrow> pools_inv (putBuffer b ps)"
  by (auto simp: putBuffer_def pools_inv_def)

lemma buffer_Release_inv:
  "pools_inv ps \<Longrightarrow> buffer_Release mb ps = (mb', ps') \<Longrightarrow> pools_inv ps'"
  by (auto simp: buffer_Release_def putBuffer_inv split: option.splits if_splits)

section \<open>Writing and reading\<close>

lemma buffer_Write_eq:
  assumes "b_end b = int e" and "e \<le> length (b_buf b)"
  shows "buffer_Write b d =
    Return (b\<lparr>b_buf := blit (b_buf b) e d, b_end := int (e + min (length (b_buf b) - e) (length d))\<rparr>,
            min (length (b_buf b) - e) (length d),
            if length (b_buf b) - e < length d then Some ShortBuffer else None)"
  using assms by (simp add: buffer_Write_def slice_of_nat Let_def min_def)

lemma buffer_Write_ok:
  assumes "buf_inv b"
  shows "\<exists>b'. buffer_Write b d =
      Return (b', min (room b) (length d), if room b < length d then Some ShortBuffer else None) \<and>
    buf_inv b' \<and> content b' = content b @ take (room b) d \<and> room b' = room b - length d \<and>
    length (b_buf b') = length (b_buf b)"
proof -
  from assms obtain s e where se: "b_start b = int s" "b_end b = int e" "s \<le> e" "e \<le> length (b_buf b)"
    by (rule buf_inv_nat)
  define n where "n = min (length (b_buf b) - e) (length d)"
  define b' where "b' = b\<lparr>b_buf := blit (b_buf b) e d, b_end := int (e + n)\<rparr>"
  have room: "room b = length (b_buf b) - e"
    using se by (simp add: room_def)
  have len: "length (b_buf b') = length (b_buf b)"
    using se by (simp add: b'_def)
  have "e + n \<le> length (b_buf b)"
    using se by (simp add: n_def)
  then have inv: "buf_inv b'" and room': "room b' = room b - length d"
    using se len by (auto simp: buf_inv_def b'_def room_def n_def)
  have "content b' = take (e + n - s) (drop s (blit (b_buf b) e d))"
    using content_nat [of b' s "e + n"] se by (simp add: b'_def)
  also have "\<dots> = take (e - s) (drop s (b_buf b)) @ take n d"
    using se by (simp add: blit_def copied_def n_def drop_take)
  also have "\<dots> = content b @ take (room b) d"
    using se by (simp add: content_def room n_def take_all_iff min_def)
  finally have "content b' = content b @ take (room b) d" .
  with inv room' len show ?thesis
    by (simp add: buffer_Write_eq [OF se(2,4)] room b'_def n_def)
qed

lemma buffer_Read_ok:
  assumes "buf_inv b"
  shows "\<exists>b'. buffer_Read b n =
      Return (b', take n (content b), if content b = [] then Some EOF else None) \<and>
    buf_inv b' \<and> content b' = drop n (content b) \<and> room b' = room b \<and>
    length (b_buf b') = length (b_buf b)"
proof (cases "content b = []")
  case True
  with assms content_Nil_iff [OF assms] show ?thesis
    by (simp add: buffer_Read_def)
next
  case False
  from assms obtain s e where se: "b_start b = int s" "b_end b = int e" "s \<le> e" "e \<le> length (b_buf b)"
    by (rule buf_inv_nat)
  let ?b = "b\<lparr>b_start := int (s + min n (e - s))\<rparr>"
  have bytes: "buffer_Bytes b = Return (content b)" and len: "length (content b) = e - s"
    using assms se by (simp_all add: buffer_Bytes_content length_content buffer_Len_def)
  have "buffer_Read b n = Return (?b, take n (content b), None)"
    using False bytes len se content_Nil_iff [OF assms]
    by (simp add: buffer_Read_def buffer_Bytes_def Let_def min_def)
  moreover have "content ?b = drop n (content b)"
  proof -
    have "content ?b = take (e - (s + min n (e - s))) (drop (s + min n (e - s)) (b_buf b))"
      using content_nat [of ?b "s + min n (e - s)" e] se by simp
    also have "\<dots> = drop n (take (e - s) (drop s (b_buf b)))"
      by (simp add: min_def drop_take add.commute)
    finally show ?thesis
      using content_nat [OF se(1,2)] by simp
  qed
  moreover have "buf_inv ?b"
    using se by (simp add: buf_inv_def)
  ultimately show ?thesis
    using False by (simp add: room_def)
qed

section \<open>The buffer as a bounded byte queue\<close>

text \<open>
  What a client of the buffer relies on: a write appends what fits into the remaining room
  and reports the rest as a short write, a read takes a prefix. The room never grows: the
  array is not compacted when bytes are read.
\<close>

datatype qop = QWrite bytes | QRead nat

fun written :: "qop list \<Rightarrow> bytes" where
  "written [] = []"
| "written (QWrite d # ops) = d @ written ops"
| "written (QRead n # ops) = written ops"

fun queue_run ::
  "('q \<Rightarrow> bytes \<Rightarrow> ('q \<times> nat \<times> error option) go) \<Rightarrow>
   ('q \<Rightarrow> nat \<Rightarrow> ('q \<times> bytes \<times> error option) go) \<Rightarrow> 'q \<Rightarrow> qop list \<Rightarrow> ('q \<times> bytes) go" where
  "queue_run wr rd q [] = Return (q, [])"
| "queue_run wr rd q (QWrite d # ops) =
     go_bind (wr q d) (\<lambda>(q', n, e). queue_run wr rd q' ops)"
| "queue_run wr rd q (QRead n # ops) =
     go_bind (rd q n) (\<lambda>(q', out, e). go_map (apsnd ((@) out)) (queue_run wr rd q' ops))"

locale byte_queue =
  fixes wr :: "'q \<Rightarrow> bytes \<Rightarrow> ('q \<times> nat \<times> error option) go"
    and rd :: "'q \<Rightarrow> nat \<Rightarrow> ('q \<times> bytes \<times> error option) go"
    and contents :: "'q \<Rightarrow> bytes"
    and space :: "'q \<Rightarrow> nat"
    and invar :: "'q \<Rightarrow> bool"
  assumes wr_law: "invar q \<Longrightarrow> \<exists>q'. wr q d =
      Return (q', min (space q) (length d), if space q < length d then Some ShortBuffer else None) \<and>
      invar q' \<and> contents q' = contents q @ take (space q) d \<and> space q' = space q - length d"
    and rd_law: "invar q \<Longrightarrow> \<exists>q'. rd q n =
      Return (q', take n (contents q), if contents q = [] then Some EOF else None) \<and>
      invar q' \<and> contents q' = drop n (contents q) \<and> space q' = space q"
begin

lemma run_law:
  "invar q \<Longrightarrow> \<exists>q' out. queue_run wr rd q ops = Return (q', out) \<and> invar q' \<and>
     out @ contents q' = contents q @ take (space q) (written ops) \<and>
     space q' = space q - length (written ops)"
proof (induction ops arbitrary: q)
  case Nil
  then show ?case by simp
next
  case (Cons op ops)
  show ?case
  proof (cases op)
    case (QWrite d)
    from wr_law [OF Cons.prems] obtain q' where q':
      "\<exists>n e. wr q d = Return (q', n, e)" "invar q'"
      "contents q' = contents q @ take (space q) d" "space q' = space q - length d"
      by blast
    with Cons.IH [of q'] show ?thesis
      by (auto simp: QWrite)
  next
    case (QRead n)
    from rd_law [OF Cons.prems] obtain q' where q':
      "\<exists>e. rd q n = Return (q', take n (contents q), e)" "invar q'"
      "contents q' = drop n (contents q)" "space q' = space q"
      by blast
    with Cons.IH [of q'] show ?thesis
      by (auto simp: QRead)
  qed
qed

end

interpretation bufq: byte_queue buffer_Write buffer_Read content room buf_inv
proof
  fix b d
  assume "buf_inv b"
  from buffer_Write_ok [OF this] show "\<exists>q'. buffer_Write b d =
      Return (q', min (room b) (length d), if room b < length d then Some ShortBuffer else None) \<and>
      buf_inv q' \<and> content q' = content b @ take (room b) d \<and> room q' = room b - length d"
    by blast
next
  fix b n
  assume "buf_inv b"
  from buffer_Read_ok [OF this] show "\<exists>q'. buffer_Read b n =
      Return (q', take n (content b), if content b = [] then Some EOF else None) \<and>
      buf_inv q' \<and> content q' = drop n (content b) \<and> room q' = room b"
    by blast
qed

section \<open>Growth\<close>

text \<open>
  A read that needs more space than the array has left moves the live bytes to the front
  of a new array but keeps the old end, so \<open>start\<close> zero bytes appear between the bytes that
  were live and the bytes read.
\<close>

lemma buffer_grow_content:
  assumes "buf_inv b" and "int (length (b_buf b)) < b_end b + int k"
  shows "\<exists>b1. buffer_grow b (int k) (b_end b + int k) = Return b1 \<and> buf_inv b1 \<and>
    content b1 = content b @ replicate (nat (b_start b)) 0 \<and> room b1 = k \<and> b_end b1 = b_end b"
proof -
  from assms(1) obtain s e where se: "b_start b = int s" "b_end b = int e" "s \<le> e" "e \<le> length (b_buf b)"
    by (rule buf_inv_nat)
  define arr where "arr = blit (replicate (e + k) 0) 0 (content b)"
  define b1 where "b1 = b\<lparr>b_buf := arr, b_start := 0, b_end := int e, b_pooled := False\<rparr>"
  have len: "length (content b) = e - s"
    using assms(1) se by (simp add: length_content buffer_Len_def)
  have arr: "arr = content b @ replicate (s + k) 0"
    using se(3) len by (simp add: arr_def blit_fits)
  have "buffer_grow b (int k) (b_end b + int k) = Return b1"
    using assms(2) buffer_Bytes_content [OF assms(1)] se
    by (simp add: buffer_grow_def buffer_Bytes_def b1_def arr_def nat_add_distrib)
  moreover have "content b1 = content b @ replicate s 0"
    using content_nat [of b1 0 e] len se(3) by (simp add: b1_def arr)
  moreover have "buf_inv b1" "room b1 = k"
    using len se by (simp_all add: buf_inv_def room_def b1_def arr)
  ultimately show ?thesis
    using se by (simp add: b1_def)
qed

lemma read_into_tail:
  assumes "buf_inv b" and "k \<le> room b" and "n \<le> k"
  shows "\<exists>b'. b' = b\<lparr>b_buf := blit (b_buf b) (nat (b_end b)) (take n s), b_end := b_end b + int n\<rparr> \<and>
    (n \<le> length s \<longrightarrow> buf_inv b' \<and> content b' = content b @ take n s)"
proof -
  from assms(1) obtain st e where se: "b_start b = int st" "b_end b = int e" "st \<le> e"
      "e \<le> length (b_buf b)"
    by (rule buf_inv_nat)
  let ?b' = "b\<lparr>b_buf := blit (b_buf b) (nat (b_end b)) (take n s), b_end := b_end b + int n\<rparr>"
  have "buf_inv ?b' \<and> content ?b' = content b @ take n s" if "n \<le> length s"
  proof -
    have "e + n \<le> length (b_buf b)"
      using assms(2,3) se by (simp add: room_def)
    then have "buffer_Write b (take n s) = Return (?b', n, None)" and "n \<le> room b"
      using buffer_Write_eq [OF se(2,4), of "take n s"] se that by (auto simp: min_def room_def)
    with buffer_Write_ok [OF assms(1), of "take n s"] that show ?thesis
      by auto
  qed
  then show ?thesis by blast
qed

text \<open>
  \<open>ReadFullFrom\<close> appends the bytes it could read to the buffer, reports how many, and
  distinguishes a full read from an empty and from a truncated stream; when the array had to
  grow, the bytes read are preceded by as many zero bytes as had already been consumed.
\<close>

lemma buffer_ReadFullFrom_ok:
  assumes "buf_inv b"
  shows "\<exists>b'. buffer_ReadFullFrom b s (int k) =
      Return (b', drop (min k (length s)) s, min k (length s),
        if k \<le> length s then None else if s = [] then Some EOF else Some UnexpectedEOF) \<and>
    buf_inv b' \<and>
    content b' = content b
      @ (if room b < k then replicate (nat (b_start b)) 0 else []) @ take k s"
proof -
  define n where "n = min k (length s)"
  obtain b1 where b1: "buffer_grow b (int k) (b_end b + int k) = Return b1" "buf_inv b1"
      "content b1 = content b @ (if room b < k then replicate (nat (b_start b)) 0 else [])"
      "k \<le> room b1" "b_end b1 = b_end b"
  proof (cases "room b < k")
    case True
    then have "int (length (b_buf b)) < b_end b + int k"
      using assms by (auto simp: room_def buf_inv_def)
    from buffer_grow_content [OF assms this] True that show ?thesis by auto
  next
    case False
    then have "\<not> int (length (b_buf b)) < b_end b + int k"
      using assms by (auto simp: room_def buf_inv_def)
    with False assms that show ?thesis by (simp add: buffer_grow_def)
  qed
  from b1(2) obtain st e where se: "b_start b1 = int st" "b_end b1 = int e" "st \<le> e"
      "e \<le> length (b_buf b1)"
    by (rule buf_inv_nat)
  let ?b' = "b1\<lparr>b_buf := blit (b_buf b1) (nat (b_end b1)) (take n s), b_end := b_end b1 + int n\<rparr>"
  have be: "b_end b = int e"
    using b1(5) se(2) by simp
  obtain dst where dst: "go_slice (b_buf b1) (b_end b1) (b_end b + int k) = Return dst"
    and len: "length dst = k"
  proof
    show "go_slice (b_buf b1) (b_end b1) (b_end b + int k) = Return (take k (drop e (b_buf b1)))"
      using b1(4) se by (simp add: go_slice_def room_def be)
    show "length (take k (drop e (b_buf b1))) = k"
      using b1(4) se by (simp add: room_def be)
  qed
  have "buffer_ReadFullFrom b s (int k) =
      Return (?b', drop n s, n, if n = k then None else if n = 0 then Some EOF else Some UnexpectedEOF)"
    by (auto simp: buffer_ReadFullFrom_def b1(1) dst len Let_def n_def)
  moreover have "buf_inv ?b' \<and> content ?b' = content b1 @ take n s"
    using read_into_tail [OF b1(2,4), of n s] by (simp add: n_def)
  ultimately show ?thesis
    by (auto simp: b1(3) n_def min_def)
qed

text \<open>
  C5: a freshly allocated buffer is a bounded queue over its whole life: whatever the
  sequence of writes and reads, nothing panics, and what was read followed by what is
  still buffered is the first 32 KiB of what was written. Reading never frees space.
\<close>

theorem buffer_lifetime_fifo:
  assumes "pools_inv ps" and "buffer_New c ps = Return (b, ps')"
  shows "\<exists>b' out. queue_run buffer_Write buffer_Read b ops = Return (b', out) \<and>
    out @ content b' = take Size (written ops)"
  using buffer_New_ok [OF assms(1), of c] assms(2) bufq.run_law [of b ops] by auto

theorem buffer_lifetime_fifo_witness:
  "\<exists>b ps' b' out. buffer_New 0 \<lparr>pool32K = [], pool16K = [], pool8K = [], pool4K = []\<rparr> = Return (b, ps') \<and>
    queue_run buffer_Write buffer_Read b [QWrite [1, 2], QRead 1, QWrite [3]] = Return (b', out) \<and>
    out @ content b' = [1, 2, 3]"
proof -
  have p: "pools_inv \<lparr>pool32K = [], pool16K = [], pool8K = [], pool4K = []\<rparr>" (is "pools_inv ?p")
    by (simp add: pools_inv_def)
  from buffer_New_ok [OF p, of 0] obtain b ps' where b: "buffer_New 0 ?p = Return (b, ps')"
    by blast
  from buffer_lifetime_fifo [OF p b, of "[QWrite [1, 2], QRead 1, QWrite [3]]"] b show ?thesis
    by (simp add: Size_def)
qed

text \<open>
  \<open>NewWithSize\<close> allocates an empty buffer of 32 KiB for every size up to 32 KiB and
  panics for every larger size, since the pools hold no larger array.
\<close>

lemma buffer_NewWithSize_total:
  assumes "pools_inv ps"
  shows "if sz \<le> int Size
    then \<exists>b ps'. buffer_NewWithSize sz c ps = Return (b, ps') \<and> pools_inv ps' \<and> buf_inv b \<and>
           content b = [] \<and> room b = Size
    else buffer_NewWithSize sz c ps = Panic"
  using buffer_New_ok [OF assms, of c] buffer_NewWithSize_big [OF assms, of sz c]
  by (auto simp: buffer_NewWithSize_def)

end
