(* ===== verification/Session.thy ===== *)
theory Session
  imports Go_Prelude
begin

text \<open>
  What the multiplexed connections share (\<open>features/multiplex/mux.go\<close>, \<open>transport/xhttp.go\<close>):
  calls that may block, and the state of a read loop whose deferred \<open>Close\<close> waits for the
  goroutines of the connection.
\<close>

text \<open>A call returns, or blocks until something else changes the state.\<close>

datatype 'a call = Done "'a go" | Blocks

text \<open>
  The read loop runs, waits inside its deferred \<open>Close\<close> for the goroutines to finish, or
  has finished.
\<close>

datatype loop_state = Running | InClose | Finished

end
