(* ===== verification/Mux.thy ===== *)
theory Mux
  imports Buf Session "HOL-Library.AList" "HOL-Library.Sublist"
begin

text \<open>
  \<open>app/features/multiplex/mux.go\<close>: many streams over one connection. The session is a
  record: connection, table of streams, accept queue, flags, and the goroutines still
  running. Each operation holds its lock for the whole of its effect, so it is one step;
  interleavings are sequences of steps (\<open>mux_step\<close>). A call that blocks is the value
  \<open>Blocks\<close>. Stream objects are addressed by their id; they outlive the table, which
  closing the session sets to nil (\<open>mx_nil\<close>).
\<close>

section \<open>Frames\<close>

definition ErrSessionClosed :: error where "ErrSessionClosed = Error ''mux: session closed''"
definition ErrStreamClosed :: error where "ErrStreamClosed = Error ''mux: stream closed''"
definition ErrStreamReset :: error where "ErrStreamReset = Error ''mux: stream reset''"
definition ErrMaxStreams :: error where "ErrMaxStreams = Error ''mux: max streams reached''"

definition FrameHeaderSize :: nat where [simp]: "FrameHeaderSize = 8"
definition DefaultMaxStreams :: u32 where "DefaultMaxStreams = 128"
definition DefaultBufferSize :: int where "DefaultBufferSize = 32 * 1024"
definition acceptBacklog :: nat where "acceptBacklog = 32"

definition FrameDataType :: byte where [simp]: "FrameDataType = 0"
definition FrameCloseType :: byte where [simp]: "FrameCloseType = 1"
definition FrameResetType :: byte where [simp]: "FrameResetType = 2"
definition FramePingType :: byte where [simp]: "FramePingType = 3"
definition FramePongType :: byte where [simp]: "FramePongType = 4"
definition FrameGoAwayType :: byte where [simp]: "FrameGoAwayType = 5"

type_synonym mux_frame = "u32 \<times> byte \<times> bytes"

text \<open>
  Both branches of \<open>WriteFrame\<close> (reused buffer or fresh one) build the same bytes; the
  length field holds the low 16 bits of the data length.
\<close>

definition mux_frame :: "mux_frame \<Rightarrow> bytes" where
  "mux_frame = (\<lambda>(streamID, frameType, data).
     put32 streamID @ [frameType, 0] @ put16 (word_of_nat (length data)) @ data)"

definition mux_read_frame :: "stream \<Rightarrow> (mux_frame \<times> stream) go" where
  "mux_read_frame s =
     go_bind (read_full FrameHeaderSize s) (\<lambda>(hdr, s1).
       let streamID = get32 (take 4 hdr);
           frameType = hdr ! 4;
           dataLen = unat (get16 (take 2 (drop 6 hdr)))
       in go_bind (if dataLen > 0 then read_full dataLen s1 else Return ([], s1)) (\<lambda>(data, s2).
          Return ((streamID, frameType, data), s2)))"

definition frame_fits :: "mux_frame \<Rightarrow> bool" where
  "frame_fits = (\<lambda>(_, _, data). length data < 65536)"

lemma mux_read_frame_progress: "mux_read_frame s = Return (f, s') \<Longrightarrow> length s' < length s"
  by (auto simp: mux_read_frame_def Let_def go_bind_Return_iff read_full_Return_iff split: if_splits)

lemma mux_header:
  "mux_read_frame (put32 i @ [t, 0] @ put16 n @ rest) =
     go_bind (if unat n > 0 then read_full (unat n) rest else Return ([], rest)) (\<lambda>(data, s2).
       Return ((i, t, data), s2))"
proof -
  have "read_full FrameHeaderSize ((put32 i @ [t, 0] @ put16 n) @ rest) =
      Return (put32 i @ [t, 0] @ put16 n, rest)"
    by (rule read_full_append) simp
  moreover have "(put32 i @ [t, 0] @ put16 n) ! 4 = t" "take 4 (put32 i @ [t, 0] @ put16 n) = put32 i"
    "take 2 (drop 6 (put32 i @ [t, 0] @ put16 n)) = put16 n"
    by (simp_all add: nth_append)
  ultimately show ?thesis
    by (simp only: mux_read_frame_def go_bind.simps prod.case Let_def append_assoc get32_put32 get16_put16)
qed

lemma mux_read_frame_any:
  "mux_read_frame (mux_frame (i, t, data) @ rest) =
     (let n = length data mod 65536 in Return ((i, t, take n data), drop n data @ rest))"
proof -
  have n: "unat (word_of_nat (length data) :: u16) = length data mod 65536"
    by (simp add: unat_of_nat)
  have "mux_frame (i, t, data) @ rest =
      put32 i @ [t, 0] @ put16 (word_of_nat (length data)) @ (data @ rest)"
    by (simp add: mux_frame_def)
  moreover have "length data mod 65536 \<le> length data"
    by (rule mod_less_eq_dividend)
  ultimately show ?thesis
    by (auto simp only: mux_header n read_full_def Let_def length_append) auto
qed

interpretation mux_framing: framing mux_frame mux_read_frame frame_fits
proof
  fix f :: mux_frame and rest
  assume "frame_fits f"
  then show "mux_read_frame (mux_frame f @ rest) = Return (f, rest)"
    by (cases f) (simp add: mux_read_frame_any frame_fits_def)
qed (rule mux_read_frame_progress)

section \<open>Session state\<close>

record mux_stream =
  ms_buf :: buffer
  ms_ready :: bool
  ms_closed :: bool
  ms_reset :: bool

record mux =
  mx_conn :: conn
  mx_connClosed :: bool
  mx_streams :: "(u32 \<times> mux_stream) list"
  mx_nil :: bool
  mx_nextID :: u32
  mx_max :: u32
  mx_done :: bool
  mx_closed :: bool
  mx_accept :: "u32 list"
  mx_acceptClosed :: bool
  mx_loop :: loop_state
  mx_keepAlive :: bool
  mx_waiting :: nat
  mx_pools :: pools

record mux_config =
  mc_MaxStreams :: u32
  mc_KeepAliveInterval :: int

definition DefaultMuxConfig :: mux_config where
  "DefaultMuxConfig = \<lparr>mc_MaxStreams = DefaultMaxStreams, mc_KeepAliveInterval = 30 * 1000000000\<rparr>"

definition NewMuxSession :: "conn \<Rightarrow> mux_config option \<Rightarrow> pools \<Rightarrow> mux" where
  "NewMuxSession c config ps =
     (let cfg = (case config of None \<Rightarrow> DefaultMuxConfig | Some cfg \<Rightarrow> cfg)
      in \<lparr>mx_conn = c, mx_connClosed = False, mx_streams = [], mx_nil = False, mx_nextID = 1,
          mx_max = mc_MaxStreams cfg, mx_done = False, mx_closed = False, mx_accept = [],
          mx_acceptClosed = False, mx_loop = Running, mx_keepAlive = mc_KeepAliveInterval cfg > 0,
          mx_waiting = 0, mx_pools = ps\<rparr>)"

section \<open>Operations\<close>

definition mux_lookup :: "mux \<Rightarrow> u32 \<Rightarrow> mux_stream option" where
  "mux_lookup s i = (if mx_nil s then None else map_of (mx_streams s) i)"

definition mux_update :: "u32 \<Rightarrow> mux_stream \<Rightarrow> mux \<Rightarrow> mux" where
  "mux_update i st s = s\<lparr>mx_streams := AList.update i st (mx_streams s)\<rparr>"

definition new_stream :: "nat \<Rightarrow> mux \<Rightarrow> (mux_stream \<times> mux) go" where
  "new_stream c s =
     go_map (\<lambda>(b, ps). (\<lparr>ms_buf = b, ms_ready = False, ms_closed = False, ms_reset = False\<rparr>,
                        s\<lparr>mx_pools := ps\<rparr>))
       (buffer_NewWithSize DefaultBufferSize c (mx_pools s))"

definition WriteFrame :: "u32 \<Rightarrow> byte \<Rightarrow> bytes \<Rightarrow> mux \<Rightarrow> mux \<times> nat go" where
  "WriteFrame streamID frameType data s =
     (if mx_closed s then (s, Fail ErrSessionClosed)
      else let frame = mux_frame (streamID, frameType, data)
           in case conn_write frame (mx_conn s) of
                (c, None) \<Rightarrow> (s\<lparr>mx_conn := c\<rparr>, Return (length frame))
              | (c, Some e) \<Rightarrow> (s\<lparr>mx_conn := c\<rparr>, Fail e))"

definition OpenStream :: "nat \<Rightarrow> mux \<Rightarrow> (mux \<times> u32 go) go" where
  "OpenStream c s =
     (if mx_closed s then Return (s, Fail ErrSessionClosed)
      else if word_of_nat (length (mx_streams s)) \<ge> mx_max s then Return (s, Fail ErrMaxStreams)
      else go_bind (new_stream c (s\<lparr>mx_nextID := mx_nextID s + 2\<rparr>)) (\<lambda>(st, s').
        if mx_nil s then Panic
        else Return (mux_update (mx_nextID s) st s', Return (mx_nextID s))))"

text \<open>The argument \<open>pick\<close> is the choice of \<open>select\<close> when both of its cases are ready.\<close>

definition AcceptStream :: "bool \<Rightarrow> mux \<Rightarrow> mux \<times> u32 call" where
  "AcceptStream pick s =
     (case mx_accept s of
        i # is \<Rightarrow> if mx_done s \<and> \<not> pick then (s, Done (Fail ErrSessionClosed))
                 else (s\<lparr>mx_accept := is\<rparr>, Done (Return i))
      | [] \<Rightarrow> if mx_acceptClosed s \<or> mx_done s then (s, Done (Fail ErrSessionClosed))
              else (s, Blocks))"

text \<open>
  The read and write side of a stream. A blocked reader has taken the wake-up token, if
  there was one, and found the buffer still empty.
\<close>

definition stream_Read :: "u32 \<Rightarrow> nat \<Rightarrow> mux \<Rightarrow> mux \<times> bytes call" where
  "stream_Read i n s =
     (case map_of (mx_streams s) i of
        None \<Rightarrow> (s, Done Panic)
      | Some st \<Rightarrow>
          if ms_reset st then (s, Done (Fail ErrStreamReset))
          else if \<not> buffer_IsEmpty (ms_buf st) then
            (case buffer_Read (ms_buf st) n of
               Return (b, out, None) \<Rightarrow> (mux_update i (st\<lparr>ms_buf := b\<rparr>) s, Done (Return out))
             | Return (b, out, Some e) \<Rightarrow> (mux_update i (st\<lparr>ms_buf := b\<rparr>) s, Done (Fail e))
             | Fail e \<Rightarrow> (s, Done (Fail e))
             | Panic \<Rightarrow> (s, Done Panic))
          else if ms_closed st then (s, Done (Fail EOF))
          else if mx_done s then (s, Done (Fail ErrSessionClosed))
          else (mux_update i (st\<lparr>ms_ready := False\<rparr>) s, Blocks))"

definition stream_Write :: "u32 \<Rightarrow> bytes \<Rightarrow> mux \<Rightarrow> mux \<times> nat go" where
  "stream_Write i data s =
     (case map_of (mx_streams s) i of
        None \<Rightarrow> (s, Panic)
      | Some st \<Rightarrow>
          if ms_closed st then (s, Fail ErrStreamClosed) else WriteFrame i FrameDataType data s)"

definition stream_Close :: "u32 \<Rightarrow> mux \<Rightarrow> mux \<times> unit go" where
  "stream_Close i s =
     (case map_of (mx_streams s) i of
        None \<Rightarrow> (s, Panic)
      | Some st \<Rightarrow>
          if ms_closed st then (s, Return ())
          else apsnd (go_map (\<lambda>_. ()))
            (WriteFrame i FrameCloseType [] (mux_update i (st\<lparr>ms_closed := True\<rparr>) s)))"

definition stream_Reset :: "u32 \<Rightarrow> mux \<Rightarrow> mux \<times> unit go" where
  "stream_Reset i s =
     (case map_of (mx_streams s) i of
        None \<Rightarrow> (s, Panic)
      | Some st \<Rightarrow> apsnd (go_map (\<lambda>_. ()))
          (WriteFrame i FrameResetType [] (mux_update i (st\<lparr>ms_reset := True\<rparr>) s)))"

section \<open>The read loop\<close>

definition mux_handleData :: "nat \<Rightarrow> u32 \<Rightarrow> bytes \<Rightarrow> mux \<Rightarrow> mux go" where
  "mux_handleData c i data s =
     go_bind
       (case mux_lookup s i of
          Some st \<Rightarrow> Return (Some st, s)
        | None \<Rightarrow>
            if i mod 2 = 0 then
              go_bind (new_stream c s) (\<lambda>(st, s1).
                if mx_nil s1 then Panic
                else let s2 = mux_update i st s1
                     in if mx_acceptClosed s2 then Panic
                        else if length (mx_accept s2) < acceptBacklog
                        then Return (Some st, s2\<lparr>mx_accept := mx_accept s2 @ [i]\<rparr>)
                        else Return (Some st, s2))
            else Return (None, s)) (\<lambda>(found, s1).
       case found of
         None \<Rightarrow> Return s1
       | Some st \<Rightarrow>
           go_bind (buffer_Write (ms_buf st) data) (\<lambda>(b, n, e).
             Return (mux_update i (st\<lparr>ms_buf := b, ms_ready := True\<rparr>) s1)))"

definition mux_handleClose :: "u32 \<Rightarrow> mux \<Rightarrow> mux" where
  "mux_handleClose i s =
     (case mux_lookup s i of
        None \<Rightarrow> s
      | Some st \<Rightarrow> mux_update i (st\<lparr>ms_closed := True, ms_ready := True\<rparr>) s)"

definition mux_handleReset :: "u32 \<Rightarrow> mux \<Rightarrow> mux" where
  "mux_handleReset i s =
     (case mux_lookup s i of
        None \<Rightarrow> s
      | Some st \<Rightarrow> mux_update i (st\<lparr>ms_reset := True, ms_closed := True, ms_ready := True\<rparr>) s)"

text \<open>
  \<open>Close\<close> up to its \<open>wg.Wait\<close>: the flag is set first, so the go-away frame that follows is
  refused by \<open>WriteFrame\<close>. \<open>None\<close> means the session was closed already and the call returns.
\<close>

definition mux_Close_begin :: "mux \<Rightarrow> mux option" where
  "mux_Close_begin s =
     (if mx_closed s then None
      else let s1 = fst (WriteFrame 0 FrameGoAwayType [] (s\<lparr>mx_closed := True\<rparr>))
           in Some (s1\<lparr>mx_done := True,
                mx_streams := map (\<lambda>(i, st). (i, st\<lparr>ms_closed := True, ms_ready := True\<rparr>)) (mx_streams s1),
                mx_nil := True, mx_acceptClosed := True\<rparr>))"

text \<open>The goroutines \<open>wg.Wait\<close> waits for.\<close>

definition mux_running :: "mux \<Rightarrow> nat" where
  "mux_running s = (if mx_loop s = Finished then 0 else 1) + (if mx_keepAlive s then 1 else 0)"

text \<open>
  The read loop returns: its deferred \<open>Close\<close> runs before its deferred \<open>wg.Done\<close>, so when it
  is the first to close the session it stays inside \<open>Close\<close>.
\<close>

definition mux_loop_return :: "mux \<Rightarrow> mux" where
  "mux_loop_return s =
     (case mux_Close_begin s of
        None \<Rightarrow> s\<lparr>mx_loop := Finished\<rparr>
      | Some s1 \<Rightarrow> s1\<lparr>mx_loop := InClose\<rparr>)"

text \<open>One turn of the loop: a frame is read and handled.\<close>

definition mux_dispatch :: "nat \<Rightarrow> mux_frame \<Rightarrow> mux \<Rightarrow> mux go" where
  "mux_dispatch c frame s =
     (case frame of (i, t, data) \<Rightarrow>
        if t = FrameDataType then mux_handleData c i data s
        else if t = FrameCloseType then Return (mux_handleClose i s)
        else if t = FrameResetType then Return (mux_handleReset i s)
        else if t = FramePingType then Return (fst (WriteFrame 0 FramePongType data s))
        else if t = FramePongType then Return s
        else if t = FrameGoAwayType then Return (mux_loop_return s)
        else Return s)"

definition mux_readLoop_turn :: "nat \<Rightarrow> mux \<Rightarrow> mux go" where
  "mux_readLoop_turn c s =
     (case mux_read_frame (c_in (mx_conn s)) of
        Fail e \<Rightarrow> Return (mux_loop_return s)
      | Panic \<Rightarrow> Panic
      | Return (frame, rest) \<Rightarrow> mux_dispatch c frame (s\<lparr>mx_conn := (mx_conn s)\<lparr>c_in := rest\<rparr>\<rparr>))"

definition keepAlive_tick :: "mux \<Rightarrow> mux" where
  "keepAlive_tick s = fst (WriteFrame 0 FramePingType [] s)"

definition mux_NumStreams :: "mux \<Rightarrow> nat" where
  "mux_NumStreams s = (if mx_nil s then 0 else length (mx_streams s))"

definition mux_IsClosed :: "mux \<Rightarrow> bool" where
  "mux_IsClosed s = mx_closed s"

section \<open>Interleavings\<close>

text \<open>
  What the session and its streams do: the calls of their users, the turns of the two goroutines,
  and a waiting \<open>Close\<close> that gets past \<open>wg.Wait\<close> and closes the connection. \<open>WriteFrame\<close> is exported too,
  so a user may also write any frame at any time.
\<close>

inductive session_step :: "mux \<Rightarrow> mux \<Rightarrow> bool" where
  frame: "mx_loop s = Running \<Longrightarrow> mux_readLoop_turn c s = Return s' \<Longrightarrow> session_step s s'"
| tick: "mx_keepAlive s \<Longrightarrow> session_step s (keepAlive_tick s)"
| tickEnd: "mx_keepAlive s \<Longrightarrow> mx_done s \<Longrightarrow> session_step s (s\<lparr>mx_keepAlive := False\<rparr>)"
| userOpen: "OpenStream c s = Return (s', r) \<Longrightarrow> session_step s s'"
| userAccept: "AcceptStream pick s = (s', r) \<Longrightarrow> session_step s s'"
| userRead: "stream_Read i n s = (s', r) \<Longrightarrow> session_step s s'"
| userWrite: "stream_Write i data s = (s', r) \<Longrightarrow> session_step s s'"
| userStreamClose: "stream_Close i s = (s', r') \<Longrightarrow> session_step s s'"
| userReset: "stream_Reset i s = (s', r') \<Longrightarrow> session_step s s'"
| userClose: "mux_Close_begin s = Some s' \<Longrightarrow> session_step s (s'\<lparr>mx_waiting := mx_waiting s' + 1\<rparr>)"
| userCloseEnd: "mx_waiting s > 0 \<Longrightarrow> mux_running s = 0 \<Longrightarrow>
    session_step s (s\<lparr>mx_waiting := mx_waiting s - 1, mx_connClosed := True\<rparr>)"
| loopCloseEnd: "mx_loop s = InClose \<Longrightarrow> mux_running s = 0 \<Longrightarrow>
    session_step s (s\<lparr>mx_loop := Finished, mx_connClosed := True\<rparr>)"

inductive mux_step :: "mux \<Rightarrow> mux \<Rightarrow> bool" where
  own: "session_step s s' \<Longrightarrow> mux_step s s'"
| userFrame: "WriteFrame i t d s = (s', r) \<Longrightarrow> mux_step s s'"

inductive_cases mux_stepE: "mux_step s s'"

abbreviation mux_steps :: "mux \<Rightarrow> mux \<Rightarrow> bool" where
  "mux_steps \<equiv> mux_step\<^sup>*\<^sup>*"

section \<open>Well-formed sessions\<close>

definition mux_inv :: "mux \<Rightarrow> bool" where
  "mux_inv s \<longleftrightarrow>
     pools_inv (mx_pools s) \<and> distinct (map fst (mx_streams s)) \<and>
     (\<forall>i st. map_of (mx_streams s) i = Some st \<longrightarrow> buf_inv (ms_buf st)) \<and> odd (mx_nextID s) \<and>
     mx_done s = mx_closed s \<and> mx_nil s = mx_closed s \<and> mx_acceptClosed s = mx_closed s \<and>
     (\<forall>i \<in> set (mx_accept s). even i) \<and> length (mx_accept s) \<le> acceptBacklog \<and>
     (mx_loop s = InClose \<longrightarrow> mx_closed s \<and> mx_waiting s = 0) \<and>
     (mx_waiting s > 0 \<longrightarrow> mx_closed s) \<and>
     (mx_connClosed s \<longrightarrow> mx_closed s \<and> mx_loop s = Finished)"

lemma inv_conn [simp]: "mux_inv (s\<lparr>mx_conn := c\<rparr>) = mux_inv s"
  by (simp add: mux_inv_def)

lemma inv_update: "mux_inv s \<Longrightarrow> buf_inv (ms_buf st) \<Longrightarrow> mux_inv (mux_update i st s)"
  by (auto simp: mux_inv_def mux_update_def distinct_update update_conv')

lemma inv_stream: "mux_inv s \<Longrightarrow> map_of (mx_streams s) i = Some st \<Longrightarrow> buf_inv (ms_buf st)"
  by (auto simp: mux_inv_def)

lemma inv_lookup: "mux_inv s \<Longrightarrow> mux_lookup s i = Some st \<Longrightarrow> buf_inv (ms_buf st)"
  by (auto simp: mux_lookup_def intro: inv_stream split: if_splits)

lemma WriteFrame_conn: "WriteFrame i t d s = (s', r) \<Longrightarrow> \<exists>c. s' = s\<lparr>mx_conn := c\<rparr>"
  by (auto simp: WriteFrame_def Let_def intro: exI [of _ "mx_conn s"] split: if_splits prod.splits option.splits)

lemma mux_lookup_conn [simp]: "mux_lookup (s\<lparr>mx_conn := c\<rparr>) i = mux_lookup s i"
  by (simp add: mux_lookup_def)

lemma inv_WriteFrame: "mux_inv s \<Longrightarrow> mux_inv (fst (WriteFrame i t d s))"
  using WriteFrame_conn [of i t d s "fst (WriteFrame i t d s)" "snd (WriteFrame i t d s)"] by auto

lemma new_stream_ok:
  assumes "mux_inv s"
  shows "\<exists>st ps. new_stream c s = Return (st, s\<lparr>mx_pools := ps\<rparr>) \<and> pools_inv ps \<and>
    buf_inv (ms_buf st) \<and> content (ms_buf st) = [] \<and> room (ms_buf st) = Size \<and>
    \<not> ms_closed st \<and> \<not> ms_reset st"
proof -
  from assms have "pools_inv (mx_pools s)"
    by (simp add: mux_inv_def)
  from buffer_New_ok [OF this, of c] show ?thesis
    by (auto simp: new_stream_def buffer_NewWithSize_def DefaultBufferSize_def Size_def)
qed

lemma inv_OpenStream:
  assumes inv: "mux_inv s" and "OpenStream c s = Return (s', r)"
  shows "mux_inv s'"
proof (cases "s' = s")
  case False
  let ?s = "s\<lparr>mx_nextID := mx_nextID s + 2\<rparr>"
  have "mux_inv ?s"
    using inv by (simp add: mux_inv_def)
  from new_stream_ok [OF this, of c] obtain st ps where
    "new_stream c ?s = Return (st, ?s\<lparr>mx_pools := ps\<rparr>)" "pools_inv ps" "buf_inv (ms_buf st)"
    by blast
  moreover from this have "mux_inv (?s\<lparr>mx_pools := ps\<rparr>)"
    using inv by (simp add: mux_inv_def)
  ultimately show ?thesis
    using assms False by (auto simp: OpenStream_def intro: inv_update split: if_splits)
qed (use inv in simp)

lemma inv_AcceptStream: "mux_inv s \<Longrightarrow> AcceptStream pick s = (s', r) \<Longrightarrow> mux_inv s'"
  by (auto simp: AcceptStream_def mux_inv_def split: list.splits if_splits)

lemma inv_stream_Read:
  assumes inv: "mux_inv s" and "stream_Read i n s = (s', r)"
  shows "mux_inv s'"
proof (cases "map_of (mx_streams s) i")
  case (Some st)
  from inv_stream [OF inv this] have "buf_inv (ms_buf st)" .
  moreover from buffer_Read_ok [OF this, of n] obtain b e where
    "buffer_Read (ms_buf st) n = Return (b, take n (content (ms_buf st)), e)" "buf_inv b"
    by blast
  ultimately show ?thesis
    using assms Some by (auto simp: stream_Read_def inv_update split: if_splits option.splits)
qed (use assms in \<open>simp add: stream_Read_def\<close>)

lemma inv_stream_Write: "mux_inv s \<Longrightarrow> stream_Write i data s = (s', r) \<Longrightarrow> mux_inv s'"
  by (auto simp: stream_Write_def dest!: WriteFrame_conn split: option.splits if_splits)

lemma inv_update_stream:
  "mux_inv s \<Longrightarrow> map_of (mx_streams s) i = Some st \<Longrightarrow> ms_buf st' = ms_buf st \<Longrightarrow>
     mux_inv (mux_update i st' s)"
  by (rule inv_update) (auto dest: inv_stream)

lemma inv_stream_Close:
  assumes inv: "mux_inv s" and "stream_Close i s = (s', r)"
  shows "mux_inv s'"
proof (cases "map_of (mx_streams s) i")
  case (Some st)
  from inv_update_stream [OF inv this, of "st\<lparr>ms_closed := True\<rparr>"] show ?thesis
    using assms Some by (auto simp: stream_Close_def apsnd_def map_prod_def
        dest!: WriteFrame_conn split: if_splits prod.splits)
qed (use assms in \<open>simp add: stream_Close_def\<close>)

lemma inv_stream_Reset:
  assumes inv: "mux_inv s" and "stream_Reset i s = (s', r)"
  shows "mux_inv s'"
proof (cases "map_of (mx_streams s) i")
  case (Some st)
  from inv_update_stream [OF inv this, of "st\<lparr>ms_reset := True\<rparr>"] show ?thesis
    using assms Some by (auto simp: stream_Reset_def apsnd_def map_prod_def
        dest!: WriteFrame_conn split: if_splits prod.splits)
qed (use assms in \<open>simp add: stream_Reset_def\<close>)

lemma inv_handleClose: "mux_inv s \<Longrightarrow> mux_inv (mux_handleClose i s)"
  by (auto simp: mux_handleClose_def intro!: inv_update dest: inv_lookup split: option.splits)

lemma inv_handleReset: "mux_inv s \<Longrightarrow> mux_inv (mux_handleReset i s)"
  by (auto simp: mux_handleReset_def intro!: inv_update dest: inv_lookup split: option.splits)

text \<open>Handling data on every branch: known stream, new stream of the peer, ignored, panic.\<close>

lemma handleData_known:
  assumes inv: "mux_inv s" and st: "mux_lookup s i = Some st"
  shows "\<exists>b. mux_handleData c i data s = Return (mux_update i (st\<lparr>ms_buf := b, ms_ready := True\<rparr>) s) \<and>
    (\<exists>e. buffer_Write (ms_buf st) data = Return (b, min (room (ms_buf st)) (length data), e)) \<and> buf_inv b"
proof -
  from bufq.wr_law [OF inv_lookup [OF inv st], of data] show ?thesis
    by (auto simp: mux_handleData_def st)
qed

lemma handleData_odd: "mux_lookup s i = None \<Longrightarrow> odd i \<Longrightarrow> mux_handleData c i data s = Return s"
  by (simp add: mux_handleData_def even_iff_mod_2_eq_zero)

lemma handleData_new:
  assumes inv: "mux_inv s" and "mux_lookup s i = None" "even i" "\<not> mx_closed s"
  shows "\<exists>st b ps. mux_handleData c i data s = Return (mux_update i (st\<lparr>ms_buf := b, ms_ready := True\<rparr>)
      ((mux_update i st (s\<lparr>mx_pools := ps\<rparr>))\<lparr>mx_accept :=
         (if length (mx_accept s) < acceptBacklog then mx_accept s @ [i] else mx_accept s)\<rparr>)) \<and>
    pools_inv ps \<and> buf_inv (ms_buf st) \<and> buf_inv b \<and> content b = take Size data"
proof -
  from new_stream_ok [OF inv, of c] obtain st ps where st: "new_stream c s = Return (st, s\<lparr>mx_pools := ps\<rparr>)"
      "pools_inv ps" "buf_inv (ms_buf st)" "content (ms_buf st) = []" "room (ms_buf st) = Size"
    by blast
  from bufq.wr_law [OF st(3), of data] obtain b e where
    b: "buffer_Write (ms_buf st) data = Return (b, min Size (length data), e)" "buf_inv b" "content b = take Size data"
    by (auto simp: st(4,5))
  have "\<not> mx_nil s" "\<not> mx_acceptClosed s" "i mod 2 = 0"
    using assms by (simp_all add: mux_inv_def even_iff_mod_2_eq_zero)
  then have "mux_handleData c i data s = Return (mux_update i (st\<lparr>ms_buf := b, ms_ready := True\<rparr>)
      ((mux_update i st (s\<lparr>mx_pools := ps\<rparr>))\<lparr>mx_accept :=
         (if length (mx_accept s) < acceptBacklog then mx_accept s @ [i] else mx_accept s)\<rparr>))"
    using assms(2) by (simp add: mux_handleData_def st(1) b(1) mux_update_def Let_def)
  with st b show ?thesis by blast
qed

lemma handleData_closed:
  assumes inv: "mux_inv s" and "mx_closed s" "even i"
  shows "mux_handleData c i data s = Panic"
proof -
  from new_stream_ok [OF inv, of c] obtain st ps where "new_stream c s = Return (st, s\<lparr>mx_pools := ps\<rparr>)"
    by blast
  moreover have "mx_nil s" "mux_lookup s i = None" "i mod 2 = 0"
    using assms by (simp_all add: mux_inv_def mux_lookup_def even_iff_mod_2_eq_zero)
  ultimately show ?thesis
    by (simp add: mux_handleData_def)
qed

lemma inv_accept:
  "mux_inv s \<Longrightarrow> even i \<Longrightarrow>
     mux_inv (s\<lparr>mx_accept := (if length (mx_accept s) < acceptBacklog then mx_accept s @ [i] else mx_accept s)\<rparr>)"
  by (auto simp: mux_inv_def)

lemma inv_handleData:
  assumes inv: "mux_inv s" and r: "mux_handleData c i data s = Return s'"
  shows "mux_inv s'"
proof -
  consider st where "mux_lookup s i = Some st" | "mux_lookup s i = None" "odd i"
    | "mux_lookup s i = None" "even i" "mx_closed s" | "mux_lookup s i = None" "even i" "\<not> mx_closed s"
    by (cases "mux_lookup s i") auto
  then show ?thesis
  proof cases
    case 1
    from handleData_known [OF inv this, of c data] r obtain b where
      "s' = mux_update i (st\<lparr>ms_buf := b, ms_ready := True\<rparr>) s" "buf_inv b"
      by auto
    then show ?thesis
      by (simp add: inv_update [OF inv])
  next
    case 2
    with handleData_odd r inv show ?thesis by auto
  next
    case 3
    with handleData_closed [OF inv] r show ?thesis by auto
  next
    case 4
    from handleData_new [OF inv this, of c data] r obtain st b ps where
      s': "s' = mux_update i (st\<lparr>ms_buf := b, ms_ready := True\<rparr>) ((mux_update i st (s\<lparr>mx_pools := ps\<rparr>))\<lparr>mx_accept :=
         (if length (mx_accept s) < acceptBacklog then mx_accept s @ [i] else mx_accept s)\<rparr>)"
      and ok: "pools_inv ps" "buf_inv (ms_buf st)" "buf_inv b"
      by auto
    let ?t = "mux_update i st (s\<lparr>mx_pools := ps\<rparr>)"
    have "mux_inv (s\<lparr>mx_pools := ps\<rparr>)"
      using inv ok by (simp add: mux_inv_def)
    then have "mux_inv ?t"
      using ok(2) by (rule inv_update)
    moreover have "mx_accept ?t = mx_accept s"
      by (simp add: mux_update_def)
    ultimately have "mux_inv (?t\<lparr>mx_accept :=
        (if length (mx_accept s) < acceptBacklog then mx_accept s @ [i] else mx_accept s)\<rparr>)"
      using inv_accept [of ?t i] \<open>even i\<close> by (simp only: simp_thms)
    then show ?thesis
      unfolding s' by (rule inv_update) (simp add: ok)
  qed
qed

lemma map_of_values: "map_of (map (\<lambda>(k, v). (k, f v)) xs) k = map_option f (map_of xs k)"
  by (induction xs) auto

lemma WriteFrame_closed: "mx_closed s \<Longrightarrow> WriteFrame i t d s = (s, Fail ErrSessionClosed)"
  by (simp add: WriteFrame_def)

lemma Close_begin_eq:
  "mux_Close_begin s =
     (if mx_closed s then None
      else Some (s\<lparr>mx_closed := True, mx_done := True,
        mx_streams := map (\<lambda>(i, st). (i, st\<lparr>ms_closed := True, ms_ready := True\<rparr>)) (mx_streams s),
        mx_nil := True, mx_acceptClosed := True\<rparr>))"
  by (simp add: mux_Close_begin_def WriteFrame_closed)

lemma inv_Close_begin:
  "mux_inv s \<Longrightarrow> mux_Close_begin s = Some s' \<Longrightarrow>
     mux_inv s' \<and> mx_closed s' \<and> mx_waiting s' = 0 \<and> mx_loop s' = mx_loop s \<and> \<not> mx_connClosed s' \<and>
     mx_conn s' = mx_conn s"
  by (auto simp: Close_begin_eq mux_inv_def map_of_values comp_def case_prod_unfold split: if_splits)

lemma inv_loop_return: "mux_inv s \<Longrightarrow> mux_inv (mux_loop_return s)"
  by (cases "mux_Close_begin s")
     (auto simp: mux_loop_return_def mux_inv_def Close_begin_eq map_of_values comp_def case_prod_unfold
        split: if_splits)

lemma inv_dispatch: "mux_inv s \<Longrightarrow> mux_dispatch c f s = Return s' \<Longrightarrow> mux_inv s'"
  by (auto simp: mux_dispatch_def inv_handleClose inv_handleReset inv_WriteFrame inv_loop_return
      dest: inv_handleData split: prod.splits if_splits)

lemma inv_turn: "mux_inv s \<Longrightarrow> mux_readLoop_turn c s = Return s' \<Longrightarrow> mux_inv s'"
  by (auto simp: mux_readLoop_turn_def inv_loop_return dest: inv_dispatch [rotated] split: go.splits)

lemma inv_session_step: "session_step s s' \<Longrightarrow> mux_inv s \<Longrightarrow> mux_inv s'"
proof (induction rule: session_step.induct)
  case (userClose s s')
  then have "\<not> mx_closed s"
    by (simp add: Close_begin_eq split: if_splits)
  with userClose(2) have "mx_loop s \<noteq> InClose"
    by (auto simp: mux_inv_def)
  moreover from inv_Close_begin [OF userClose(2,1)]
  have "mux_inv s'" "mx_closed s'" "mx_loop s' = mx_loop s"
    by simp_all
  ultimately show ?case
    unfolding mux_inv_def by simp
next
  case (userCloseEnd s)
  then show ?case
    by (auto simp: mux_inv_def mux_running_def split: if_splits)
next
  case (loopCloseEnd s)
  then show ?case
    by (simp add: mux_running_def)
next
  case (frame s c s')
  then show ?case by (blast intro: inv_turn)
next
  case (tick s)
  then show ?case by (simp add: keepAlive_tick_def inv_WriteFrame)
next
  case (tickEnd s)
  then show ?case by (simp add: mux_inv_def)
qed (blast intro: inv_OpenStream inv_AcceptStream inv_stream_Read inv_stream_Write inv_stream_Close inv_stream_Reset)+

lemma inv_step: "mux_step s s' \<Longrightarrow> mux_inv s \<Longrightarrow> mux_inv s'"
proof (erule mux_stepE)
  fix i t d r
  assume "mux_inv s" "WriteFrame i t d s = (s', r)"
  then show "mux_inv s'"
    using inv_WriteFrame [of s i t d] by simp
qed (rule inv_session_step)

lemma inv_new: "pools_inv ps \<Longrightarrow> mux_inv (NewMuxSession c cfg ps)"
  by (simp add: mux_inv_def NewMuxSession_def Let_def)

lemma inv_steps: "mux_steps s s' \<Longrightarrow> mux_inv s \<Longrightarrow> mux_inv s'"
  by (induction rule: rtranclp_induct) (auto intro: inv_step)

section \<open>Frames on the wire\<close>

text \<open>
  Frames of less than 64 KiB survive the wire: a reader gets back the frames that were
  written, in order and up to the last byte, whatever follows them.
\<close>

lemma mux_frames_roundtrip:
  assumes "list_all frame_fits fs"
  shows "decode_frames mux_read_frame (length fs) (concat (map mux_frame fs) @ rest) = Return (fs, rest)"
  using assms by (rule mux_framing.decode_all)

lemma length_mux_frame [simp]: "length (mux_frame (i, t, data)) = 8 + length data"
  by (simp add: mux_frame_def)

text \<open>
  What writing to a stream puts on the wire and reports. The frame's 16-bit length
  truncates writes of 64 KiB and more: the peer takes only the remainder modulo 65536 as the
  data and reads the rest of the data as further frames. On success the count returned is 8
  more than the number of bytes given, which is outside what a writer may report.
\<close>

lemma stream_Write_wire:
  assumes "stream_Write i data s = (s', Return n)"
  shows "n = length data + 8 \<and>
    (\<exists>frame. c_out (mx_conn s') = c_out (mx_conn s) @ frame \<and> length frame = n \<and>
      mux_read_frame (frame @ rest) =
        (let m = length data mod 65536 in Return ((i, FrameDataType, take m data), drop m data @ rest)))"
proof -
  have "c_out (mx_conn s') = c_out (mx_conn s) @ mux_frame (i, FrameDataType, data) \<and> n = length data + 8"
    using assms by (auto simp: stream_Write_def WriteFrame_def Let_def dest: conn_write_None
        split: option.splits if_splits prod.splits)
  then show ?thesis
    by (intro conjI exI [of _ "mux_frame (i, FrameDataType, data)"])
       (simp_all only: mux_read_frame_any length_mux_frame add.commute)
qed

text \<open>A fresh session with one stream opened by its user.\<close>

lemma pools_inv_empty: "pools_inv \<lparr>pool32K = [], pool16K = [], pool8K = [], pool4K = []\<rparr>"
  by (simp add: pools_inv_def)

definition example_session :: "stream \<Rightarrow> mux" where
  "example_session inp = NewMuxSession \<lparr>c_in = inp, c_out = [], c_werr = []\<rparr> None
     \<lparr>pool32K = [], pool16K = [], pool8K = [], pool4K = []\<rparr>"

lemma example_inv: "mux_inv (example_session inp)"
  by (simp add: example_session_def inv_new pools_inv_empty)

lemma OpenStream_ok:
  assumes inv: "mux_inv s" and "\<not> mx_closed s" "word_of_nat (length (mx_streams s)) < mx_max s"
  shows "\<exists>st s'. OpenStream c s = Return (s', Return (mx_nextID s)) \<and>
    map_of (mx_streams s') (mx_nextID s) = Some st \<and> \<not> ms_closed st \<and> \<not> ms_reset st \<and>
    content (ms_buf st) = [] \<and> room (ms_buf st) = Size \<and> mx_conn s' = mx_conn s \<and>
    \<not> mx_closed s' \<and> mx_accept s' = mx_accept s \<and> mx_loop s' = mx_loop s"
proof -
  let ?s = "s\<lparr>mx_nextID := mx_nextID s + 2\<rparr>"
  have "mux_inv ?s"
    using inv by (simp add: mux_inv_def)
  from new_stream_ok [OF this, of c] obtain st ps where
    "new_stream c ?s = Return (st, ?s\<lparr>mx_pools := ps\<rparr>)" "content (ms_buf st) = []"
    "room (ms_buf st) = Size" "\<not> ms_closed st" "\<not> ms_reset st"
    by blast
  moreover have "\<not> mx_nil s"
    using inv assms(2) by (simp add: mux_inv_def)
  ultimately show ?thesis
    using assms(2,3) by (auto simp: OpenStream_def mux_update_def update_conv' not_le)
qed

lemma example_open:
  "\<exists>st s. OpenStream 0 (example_session inp) = Return (s, Return 1) \<and>
    map_of (mx_streams s) 1 = Some st \<and> \<not> ms_closed st \<and> \<not> ms_reset st \<and>
    content (ms_buf st) = [] \<and> room (ms_buf st) = Size \<and> \<not> mx_closed s \<and> mux_inv s \<and>
    mx_conn s = \<lparr>c_in = inp, c_out = [], c_werr = []\<rparr>"
proof -
  have e: "\<not> mx_closed (example_session inp)" "mx_nextID (example_session inp) = 1"
    "word_of_nat (length (mx_streams (example_session inp))) < mx_max (example_session inp)"
    "mx_conn (example_session inp) = \<lparr>c_in = inp, c_out = [], c_werr = []\<rparr>"
    by (simp_all add: example_session_def NewMuxSession_def DefaultMuxConfig_def DefaultMaxStreams_def)
  from OpenStream_ok [OF example_inv e(1,3), of 0] e inv_OpenStream [OF example_inv] show ?thesis
    by metis
qed

section \<open>What the peer sees of a session\<close>

text \<open>The frames a session has written since it was created with connection \<open>c0\<close>.\<close>

definition sent_frames :: "conn \<Rightarrow> mux \<Rightarrow> mux_frame list \<Rightarrow> bool" where
  "sent_frames c0 s fs \<longleftrightarrow> c_out (mx_conn s) = c_out c0 @ concat (map mux_frame fs)"

text \<open>The go-away frames among them are some of \<open>us\<close>, in the same order.\<close>

abbreviation goaways :: "mux_frame list \<Rightarrow> mux_frame list" where
  "goaways \<equiv> filter (\<lambda>(i, t, d). t = FrameGoAwayType)"

definition goaway_from :: "mux_frame list \<Rightarrow> conn \<Rightarrow> mux \<Rightarrow> bool" where
  "goaway_from us c0 s \<longleftrightarrow> (\<exists>fs. sent_frames c0 s fs \<and> subseq (goaways fs) us)"

lemma no_goaway_cong: "c_out (mx_conn s') = c_out (mx_conn s) \<Longrightarrow> goaway_from us c0 s \<Longrightarrow> goaway_from us c0 s'"
  by (simp add: goaway_from_def sent_frames_def)

lemma written_frame:
  assumes "WriteFrame i t d s = (s', r)"
  shows "c_out (mx_conn s') = c_out (mx_conn s) \<or> c_out (mx_conn s') = c_out (mx_conn s) @ mux_frame (i, t, d)"
  using assms by (auto simp: WriteFrame_def Let_def conn_write_def
      split: if_splits prod.splits option.splits list.splits)

lemma sent_WriteFrame:
  assumes "sent_frames c0 s fs" and w: "WriteFrame i t d s = (s', r)"
  shows "sent_frames c0 s' fs \<or> sent_frames c0 s' (fs @ [(i, t, d)])"
  using assms(1) written_frame [OF w] by (auto simp: sent_frames_def)

lemma no_goaway_WriteFrame:
  assumes "goaway_from us c0 s" and w: "WriteFrame i t d s = (s', r)" and t: "t \<noteq> FrameGoAwayType"
  shows "goaway_from us c0 s'"
proof -
  from assms(1) obtain fs where "sent_frames c0 s fs" "subseq (goaways fs) us"
    by (auto simp: goaway_from_def)
  moreover have "goaways (fs @ [(i, t, d)]) = goaways fs"
    using t by simp
  ultimately show ?thesis
    using sent_WriteFrame [OF _ w] unfolding goaway_from_def by metis
qed

lemma goaway_userFrame:
  assumes "goaway_from us c0 s" and w: "WriteFrame i t d s = (s', r)"
  shows "goaway_from (us @ [(i, t, d)]) c0 s'"
proof -
  from assms(1) obtain fs where fs: "sent_frames c0 s fs" "subseq (goaways fs) us"
    by (auto simp: goaway_from_def)
  have "subseq (goaways fs) (us @ [(i, t, d)])"
    using fs(2) by (rule subseq_rev_drop_many)
  moreover have "subseq (goaways (fs @ [(i, t, d)])) (us @ [(i, t, d)])"
    using fs(2) calculation by (simp add: list_emb_append_mono)
  ultimately show ?thesis
    using sent_WriteFrame [OF fs(1) w] unfolding goaway_from_def by metis
qed

lemma no_goaway_fst:
  "goaway_from us c0 s \<Longrightarrow> t \<noteq> FrameGoAwayType \<Longrightarrow> goaway_from us c0 (fst (WriteFrame i t d s))"
  by (erule no_goaway_WriteFrame [OF _ surjective_pairing])

lemma conn_mux_update [simp]: "mx_conn (mux_update i st s) = mx_conn s"
  by (simp add: mux_update_def)

lemma conn_new_stream: "new_stream c s = Return (st, s') \<Longrightarrow> mx_conn s' = mx_conn s"
  by (auto simp: new_stream_def go_map_Return_iff)

lemma conn_OpenStream: "OpenStream c s = Return (s', r) \<Longrightarrow> mx_conn s' = mx_conn s"
  by (auto simp: OpenStream_def go_bind_Return_iff dest: conn_new_stream split: if_splits)

lemma conn_AcceptStream: "AcceptStream pick s = (s', r) \<Longrightarrow> mx_conn s' = mx_conn s"
  by (auto simp: AcceptStream_def split: list.splits if_splits)

lemma conn_stream_Read: "stream_Read i n s = (s', r) \<Longrightarrow> mx_conn s' = mx_conn s"
  by (auto simp: stream_Read_def split: option.splits if_splits go.splits prod.splits)

lemma conn_handleData:
  assumes "mux_handleData c i d s = Return s'"
  shows "mx_conn s' = mx_conn s"
proof (cases "mux_lookup s i")
  case (Some st)
  then show ?thesis
    using assms by (auto simp: mux_handleData_def go_bind_Return_iff)
next
  case None
  show ?thesis
  proof (cases "i mod 2 = 0")
    case True
    with None assms obtain st s1 where "new_stream c s = Return (st, s1)"
      by (auto simp: mux_handleData_def go_bind_Return_iff)
    moreover from this have "mx_conn s1 = mx_conn s"
      by (rule conn_new_stream)
    ultimately show ?thesis
      using assms None True
      by (auto simp: mux_handleData_def go_bind_Return_iff Let_def split: if_splits)
  qed (use None assms in \<open>simp add: mux_handleData_def\<close>)
qed

lemma conn_loop_return [simp]: "mx_conn (mux_loop_return s) = mx_conn s"
  by (simp add: mux_loop_return_def Close_begin_eq)

lemma conn_handlers [simp]:
  "mx_conn (mux_handleClose i s) = mx_conn s" "mx_conn (mux_handleReset i s) = mx_conn s"
  by (simp_all add: mux_handleClose_def mux_handleReset_def split: option.split)

lemma no_goaway_turn:
  assumes "goaway_from us c0 s" and "mux_readLoop_turn c s = Return s'"
  shows "goaway_from us c0 s'"
proof (cases "mux_read_frame (c_in (mx_conn s))")
  case (Return r)
  obtain i t d rest where r: "r = ((i, t, d), rest)"
    by (metis surj_pair)
  let ?s = "s\<lparr>mx_conn := (mx_conn s)\<lparr>c_in := rest\<rparr>\<rparr>"
  have g: "goaway_from us c0 ?s"
    using assms(1) by (rule no_goaway_cong [rotated]) simp
  have d: "mux_dispatch c (i, t, d) ?s = Return s'"
    using assms(2) by (simp add: mux_readLoop_turn_def Return r)
  show ?thesis
  proof (cases "t = FramePingType")
    case True
    then have "s' = fst (WriteFrame 0 FramePongType d ?s)"
      using d by (simp add: mux_dispatch_def)
    then show ?thesis
      by (intro no_goaway_WriteFrame [OF g, of 0 FramePongType d s' "snd (WriteFrame 0 FramePongType d ?s)"]) simp_all
  next
    case False
    then have "mx_conn s' = mx_conn ?s"
      using d by (auto simp: mux_dispatch_def dest: conn_handleData split: if_splits)
    then show ?thesis
      by (intro no_goaway_cong [OF _ g]) simp
  qed
next
  case (Fail e)
  with assms show ?thesis
    by (auto simp: mux_readLoop_turn_def intro: no_goaway_cong)
next
  case Panic
  with assms show ?thesis
    by (simp add: mux_readLoop_turn_def)
qed

lemma no_goaway_update: "goaway_from us c0 s \<Longrightarrow> goaway_from us c0 (mux_update i st s)"
  by (rule no_goaway_cong) simp_all

lemma no_goaway_stream_Write:
  assumes "goaway_from us c0 s" and "stream_Write i d s = (s', r)"
  shows "goaway_from us c0 s'"
proof (cases "map_of (mx_streams s) i")
  case (Some st)
  with assms no_goaway_WriteFrame [OF assms(1), of i FrameDataType d s' r] show ?thesis
    by (simp add: stream_Write_def split: if_splits)
qed (use assms in \<open>simp add: stream_Write_def\<close>)

lemma no_goaway_stream_Close:
  assumes "goaway_from us c0 s" and "stream_Close i s = (s', r)"
  shows "goaway_from us c0 s'"
proof (cases "map_of (mx_streams s) i")
  case (Some st)
  let ?s = "mux_update i (st\<lparr>ms_closed := True\<rparr>) s"
  obtain s1 r1 where w: "WriteFrame i FrameCloseType [] ?s = (s1, r1)"
    by (metis surj_pair)
  with no_goaway_WriteFrame [OF no_goaway_update [OF assms(1)] w] assms Some show ?thesis
    by (simp add: stream_Close_def split: if_splits)
qed (use assms in \<open>simp add: stream_Close_def\<close>)

lemma no_goaway_stream_Reset:
  assumes "goaway_from us c0 s" and "stream_Reset i s = (s', r)"
  shows "goaway_from us c0 s'"
proof (cases "map_of (mx_streams s) i")
  case (Some st)
  let ?s = "mux_update i (st\<lparr>ms_reset := True\<rparr>) s"
  obtain s1 r1 where w: "WriteFrame i FrameResetType [] ?s = (s1, r1)"
    by (metis surj_pair)
  with no_goaway_WriteFrame [OF no_goaway_update [OF assms(1)] w] assms Some show ?thesis
    by (simp add: stream_Reset_def)
qed (use assms in \<open>simp add: stream_Reset_def\<close>)

lemma no_goaway_step: "session_step s s' \<Longrightarrow> goaway_from us c0 s \<Longrightarrow> goaway_from us c0 s'"
proof (induction rule: session_step.induct)
  case (frame s c s')
  then show ?case by (blast intro: no_goaway_turn)
next
  case (tick s)
  then show ?case
    unfolding keepAlive_tick_def by (intro no_goaway_fst) simp_all
next
  case (userOpen c s s' r)
  show ?case
    by (rule no_goaway_cong [OF _ userOpen.prems]) (simp add: conn_OpenStream [OF userOpen.hyps])
next
  case (userAccept pick s s' r)
  show ?case
    by (rule no_goaway_cong [OF _ userAccept.prems]) (simp add: conn_AcceptStream [OF userAccept.hyps])
next
  case (userRead i n s s' r)
  show ?case
    by (rule no_goaway_cong [OF _ userRead.prems]) (simp add: conn_stream_Read [OF userRead.hyps])
next
  case (userClose s s')
  then have "mx_conn s' = mx_conn s"
    by (auto simp: Close_begin_eq split: if_splits)
  then show ?case
    by (intro no_goaway_cong [OF _ userClose.prems]) simp
next
  case (tickEnd s)
  show ?case by (rule no_goaway_cong [OF _ tickEnd.prems]) simp
next
  case (userCloseEnd s)
  show ?case by (rule no_goaway_cong [OF _ userCloseEnd.prems]) simp
next
  case (loopCloseEnd s)
  show ?case by (rule no_goaway_cong [OF _ loopCloseEnd.prems]) simp
qed (blast intro: no_goaway_stream_Write no_goaway_stream_Close no_goaway_stream_Reset)+

text \<open>A run from \<open>s0\<close> to \<open>s\<close>, with the frames users have passed to \<open>WriteFrame\<close> themselves.\<close>

inductive mux_run :: "mux \<Rightarrow> mux_frame list \<Rightarrow> mux \<Rightarrow> bool" for s0 :: mux where
  start: "mux_run s0 [] s0"
| own_step: "mux_run s0 us s \<Longrightarrow> session_step s s' \<Longrightarrow> mux_run s0 us s'"
| user_frame: "mux_run s0 us s \<Longrightarrow> WriteFrame i t d s = (s', r) \<Longrightarrow> mux_run s0 (us @ [(i, t, d)]) s'"

lemma mux_run_steps: "mux_run s0 us s \<Longrightarrow> mux_steps s0 s"
  by (induction rule: mux_run.induct) (auto intro: rtranclp.rtrancl_into_rtrancl mux_step.intros)

lemma mux_steps_run: "mux_steps s0 s \<Longrightarrow> \<exists>us. mux_run s0 us s"
  by (induction rule: rtranclp_induct) (auto elim!: mux_stepE intro: mux_run.intros)

text \<open>
  C24: whatever users, peer and timers do, a session never tells its peer that it goes away: the
  go-away frames it writes are among those its users passed to \<open>WriteFrame\<close>, in their order, and
  with no such call there is none, because closing raises the closed flag before its own go-away
  frame is offered to \<open>WriteFrame\<close>. The tables stay well-formed throughout, and the connection is
  closed only after the read loop has finished.
\<close>

theorem mux_never_says_goaway:
  assumes "mux_run (NewMuxSession c0 cfg ps) us s" and "pools_inv ps"
  shows "(\<exists>fs. c_out (mx_conn s) = c_out c0 @ concat (map mux_frame fs) \<and>
      subseq (filter (\<lambda>(i, t, d). t = FrameGoAwayType) fs) (filter (\<lambda>(i, t, d). t = FrameGoAwayType) us)) \<and>
    mux_inv s \<and> (mx_connClosed s \<longrightarrow> mx_closed s \<and> mx_loop s = Finished)"
proof -
  have "goaway_from us c0 s"
    using assms(1)
  proof (induction rule: mux_run.induct)
    case start
    show ?case
      unfolding goaway_from_def sent_frames_def by (rule exI [of _ "[]"]) (simp add: NewMuxSession_def Let_def)
  qed (blast intro: no_goaway_step goaway_userFrame)+
  then obtain fs where "sent_frames c0 s fs" "subseq (goaways fs) us"
    by (auto simp: goaway_from_def)
  moreover have "goaways (goaways fs) = goaways fs"
    by (induction fs) auto
  then have "subseq (goaways fs) (goaways us)"
    using subseq_filter [OF calculation(2), of "\<lambda>(i, t, d). t = FrameGoAwayType"] by (simp only:)
  moreover have "mux_inv s"
    using mux_run_steps [OF assms(1)] assms(2) inv_steps inv_new by blast
  ultimately show ?thesis
    by (auto simp: sent_frames_def mux_inv_def)
qed

theorem mux_never_says_goaway_witness:
  "\<exists>s fs. mux_Close_begin (example_session []) = Some s \<and> mx_closed s \<and> mux_inv s \<and>
     c_out (mx_conn s) = concat (map mux_frame fs) \<and> filter (\<lambda>(i, t, d). t = FrameGoAwayType) fs = []"
proof -
  obtain s where s: "mux_Close_begin (example_session []) = Some s" "mx_closed s"
    by (auto simp: Close_begin_eq example_session_def NewMuxSession_def)
  then have st: "mux_run (example_session []) [] (s\<lparr>mx_waiting := mx_waiting s + 1\<rparr>)"
    by (intro mux_run.own_step [OF mux_run.start] session_step.userClose)
  from mux_never_says_goaway [OF st [unfolded example_session_def] pools_inv_empty] obtain fs where
    "c_out (mx_conn s) = concat (map mux_frame fs)" "goaways fs = []"
    by auto
  with inv_Close_begin [OF example_inv s(1)] s show ?thesis
    by blast
qed

section \<open>Closing\<close>

lemma loop_InClose_session_step:
  assumes "session_step s s'" and "mux_inv s" and "mx_loop s = InClose"
  shows "mx_loop s' = InClose"
proof -
  have closed: "mx_closed s" and wait: "mx_waiting s = 0"
    using assms(2,3) by (simp_all add: mux_inv_def)
  note W = WriteFrame_closed [of "mux_update _ _ s"] WriteFrame_closed [OF closed]
  have up: "mx_closed (mux_update i st s)" "mx_loop (mux_update i st s) = mx_loop s" for i st
    using closed by (simp_all add: mux_update_def)
  from assms(1) show ?thesis
  proof (cases rule: session_step.cases)
    case (userRead i n r)
    then show ?thesis
      using assms(3) by (auto simp: stream_Read_def up split: option.splits if_splits go.splits prod.splits)
  qed (use assms(3) closed wait in \<open>auto simp: keepAlive_tick_def W OpenStream_def AcceptStream_def stream_Write_def
      stream_Close_def stream_Reset_def Close_begin_eq mux_running_def up split: option.splits if_splits list.splits\<close>)
qed

lemma loop_InClose_step:
  "mux_step s s' \<Longrightarrow> mux_inv s \<Longrightarrow> mx_loop s = InClose \<Longrightarrow> mx_loop s' = InClose"
  by (auto elim!: mux_stepE dest: loop_InClose_session_step WriteFrame_conn)

lemma loop_InClose_steps:
  "mux_steps s s' \<Longrightarrow> mux_inv s \<Longrightarrow> mx_loop s = InClose \<Longrightarrow> mx_loop s' = InClose \<and> mux_inv s'"
  by (induction rule: rtranclp_induct) (auto intro: loop_InClose_step inv_step)

text \<open>
  C25: when the peer closes the connection of an open session, the read loop waits for
  itself for ever: its deferred \<open>Close\<close> waits for all goroutines, the loop included. In
  every later state the loop is still inside \<open>Close\<close> and the connection is not closed.
\<close>

theorem mux_peer_close_hangs:
  assumes "mux_inv s" and "mx_loop s = Running" "\<not> mx_closed s" and "c_in (mx_conn s) = []"
  shows "\<exists>s1. mux_readLoop_turn c s = Return s1 \<and> mux_step s s1 \<and> mx_closed s1 \<and>
    (\<forall>s2 \<in> {s2. mux_steps s1 s2}. mx_loop s2 = InClose \<and> \<not> mx_connClosed s2)"
proof -
  have "mux_read_frame [] = Fail EOF"
    by (simp add: mux_read_frame_def read_full_def)
  then have turn: "mux_readLoop_turn c s = Return (mux_loop_return s)"
    using assms(4) by (simp add: mux_readLoop_turn_def)
  have s1: "mx_loop (mux_loop_return s) = InClose" "mx_closed (mux_loop_return s)"
    using assms(3) by (simp_all add: mux_loop_return_def Close_begin_eq)
  have "mx_loop s2 = InClose \<and> \<not> mx_connClosed s2" if "mux_steps (mux_loop_return s) s2" for s2
    using loop_InClose_steps [OF that inv_loop_return [OF assms(1)] s1(1)] by (auto simp: mux_inv_def)
  with turn s1 show ?thesis
    using mux_step.own [OF session_step.frame [OF assms(2) turn]] by auto
qed

theorem mux_peer_close_hangs_witness:
  "\<exists>s1. mux_step (example_session []) s1 \<and> mx_loop s1 = InClose \<and> \<not> mx_connClosed s1"
proof -
  have "mx_loop (example_session []) = Running" "\<not> mx_closed (example_session [])"
    "c_in (mx_conn (example_session [])) = []"
    by (simp_all add: example_session_def NewMuxSession_def Let_def)
  from mux_peer_close_hangs [OF example_inv this, of 0] obtain s1 where
    "mux_step (example_session []) s1" "\<forall>s2 \<in> {s2. mux_steps s1 s2}. mx_loop s2 = InClose \<and> \<not> mx_connClosed s2"
    by blast
  then show ?thesis
    by (intro exI [of _ s1]) auto
qed

text \<open>
  After a session was closed by its user the read loop still runs, and the first data
  frame with an even stream id crashes the process: the stream table is nil by then.
\<close>

lemma mux_data_after_close_panics:
  assumes "mux_inv s" and "mx_closed s" and "even i" and "length data < 65536"
    and "c_in (mx_conn s) = mux_frame (i, FrameDataType, data) @ rest"
  shows "mux_readLoop_turn c s = Panic"
  using assms handleData_closed [of "s\<lparr>mx_conn := (mx_conn s)\<lparr>c_in := rest\<rparr>\<rparr>" i c data]
  by (simp add: mux_readLoop_turn_def mux_dispatch_def mux_read_frame_any)

section \<open>Streams of the peer\<close>

text \<open>
  A stream the peer opened is never accepted: the ids \<open>OpenStream\<close> hands out are odd on
  both sides, and a data frame for an odd id that the receiver has not opened itself is
  dropped without a trace (the receiver's tables and accept queue are unchanged).
\<close>

lemma peer_streams_dropped:
  assumes a: "mux_inv A" "OpenStream c A = Return (A1, Return i)"
    and w: "stream_Write i data A1 = (A2, Return n)" "length data < 65536"
    and b: "mux_lookup B i = None" "c_in (mx_conn B) = drop (length (c_out (mx_conn A))) (c_out (mx_conn A2)) @ rest"
  shows "mux_readLoop_turn c' B = Return (B\<lparr>mx_conn := (mx_conn B)\<lparr>c_in := rest\<rparr>\<rparr>)"
proof -
  have "i = mx_nextID A"
    using a(2) by (auto simp: OpenStream_def go_bind_Return_iff split: if_splits)
  then have odd: "odd i"
    using a(1) by (simp add: mux_inv_def)
  have "c_out (mx_conn A2) = c_out (mx_conn A1) @ mux_frame (i, FrameDataType, data)"
    using w(1) by (auto simp: stream_Write_def WriteFrame_def Let_def dest: conn_write_None
        split: option.splits if_splits prod.splits)
  then have "c_in (mx_conn B) = mux_frame (i, FrameDataType, data) @ rest"
    using b(2) conn_OpenStream [OF a(2)] by simp
  then show ?thesis
    using w(2) b(1) handleData_odd [of "B\<lparr>mx_conn := (mx_conn B)\<lparr>c_in := rest\<rparr>\<rparr>" i c' data] odd
    by (simp add: mux_readLoop_turn_def mux_dispatch_def mux_read_frame_any)
qed

section \<open>Capacity of a stream\<close>

text \<open>One stream seen alone: data frames for it arrive and its user reads, in any order.\<close>

definition read_out :: "bytes call \<Rightarrow> bytes" where
  "read_out r = (case r of Done (Return out) \<Rightarrow> out | _ \<Rightarrow> [])"

fun stream_run :: "nat \<Rightarrow> u32 \<Rightarrow> mux \<Rightarrow> qop list \<Rightarrow> (mux \<times> bytes) go" where
  "stream_run c i s [] = Return (s, [])"
| "stream_run c i s (QWrite d # ops) = go_bind (mux_handleData c i d s) (\<lambda>s'. stream_run c i s' ops)"
| "stream_run c i s (QRead n # ops) =
     (case stream_Read i n s of (s', r) \<Rightarrow>
        if r = Done Panic then Panic
        else go_map (apsnd ((@) (read_out r))) (stream_run c i s' ops))"

lemma stream_Read_ready:
  assumes inv: "mux_inv s" and st: "mux_lookup s i = Some st" "\<not> ms_reset st"
    and r: "stream_Read i n s = (s', r)"
  shows "r \<noteq> Done Panic \<and> read_out r = take n (content (ms_buf st)) \<and>
    (\<exists>st'. mux_lookup s' i = Some st' \<and> \<not> ms_reset st' \<and> room (ms_buf st') = room (ms_buf st) \<and>
       content (ms_buf st') = drop n (content (ms_buf st)))"
proof -
  from st(1) have st1: "map_of (mx_streams s) i = Some st" "\<not> mx_nil s"
    by (simp_all add: mux_lookup_def split: if_splits)
  note bi = inv_stream [OF inv st1(1)]
  have up: "mux_lookup (mux_update i st' s) i = Some st'" for st'
    using st1 by (simp add: mux_lookup_def mux_update_def update_conv')
  show ?thesis
  proof (cases "buffer_IsEmpty (ms_buf st)")
    case True
    then have "content (ms_buf st) = []"
      by (simp add: content_Nil_iff bi)
    with True st st1 bi r show ?thesis
      by (auto simp: stream_Read_def read_out_def up split: if_splits)
  next
    case False
    then have ne: "content (ms_buf st) \<noteq> []"
      by (simp add: content_Nil_iff bi)
    with bufq.rd_law [OF bi, of n] obtain b where
      "buffer_Read (ms_buf st) n = Return (b, take n (content (ms_buf st)), None)"
      "content b = drop n (content (ms_buf st))" "room b = room (ms_buf st)"
      by auto
    with False st st1 r show ?thesis
      by (auto simp: stream_Read_def read_out_def up)
  qed
qed

lemma handleData_room:
  assumes inv: "mux_inv s" and st: "mux_lookup s i = Some st"
  shows "\<exists>st' s'. mux_handleData c i d s = Return s' \<and> mux_lookup s' i = Some st' \<and>
    ms_reset st' = ms_reset st \<and> room (ms_buf st') = room (ms_buf st) - length d \<and>
    content (ms_buf st') = content (ms_buf st) @ take (room (ms_buf st)) d"
proof -
  from bufq.wr_law [OF inv_lookup [OF inv st], of d] obtain b e where
    b: "buffer_Write (ms_buf st) d = Return (b, min (room (ms_buf st)) (length d), e)"
    "content b = content (ms_buf st) @ take (room (ms_buf st)) d" "room b = room (ms_buf st) - length d"
    by blast
  from st have "\<not> mx_nil s"
    by (simp add: mux_lookup_def split: if_splits)
  then show ?thesis
    using st b by (simp add: mux_handleData_def mux_lookup_def mux_update_def update_conv')
qed

text \<open>
  C6: over its whole life a stream delivers what still fitted into its buffer when it was
  opened (32 KiB for a new stream) and not a byte more, however the reader keeps up: the
  bytes read followed by the bytes buffered are exactly the first \<open>room\<close> bytes of the data
  frames received. Nothing ever panics.
\<close>

theorem mux_stream_capacity:
  assumes "mux_inv s" and "mux_lookup s i = Some st" "\<not> ms_reset st"
  shows "\<exists>s' st' out. stream_run c i s ops = Return (s', out) \<and> mux_lookup s' i = Some st' \<and>
    out @ content (ms_buf st') = content (ms_buf st) @ take (room (ms_buf st)) (written ops)"
  using assms
proof (induction ops arbitrary: s st)
  case Nil
  then show ?case by simp
next
  case (Cons op ops)
  show ?case
  proof (cases op)
    case (QWrite d)
    from handleData_room [OF Cons.prems(1,2), of c d] obtain s1 st1 where
      s1: "mux_handleData c i d s = Return s1" "mux_lookup s1 i = Some st1" "ms_reset st1 = ms_reset st"
        "room (ms_buf st1) = room (ms_buf st) - length d"
        "content (ms_buf st1) = content (ms_buf st) @ take (room (ms_buf st)) d"
      by blast
    with Cons.prems(3) Cons.IH [OF inv_handleData [OF Cons.prems(1) s1(1)] s1(2)] show ?thesis
      by (auto simp: QWrite)
  next
    case (QRead n)
    obtain s1 r where r: "stream_Read i n s = (s1, r)"
      by fastforce
    from stream_Read_ready [OF Cons.prems r] obtain st1 where
      st1: "r \<noteq> Done Panic" "read_out r = take n (content (ms_buf st))" "mux_lookup s1 i = Some st1"
        "\<not> ms_reset st1" "room (ms_buf st1) = room (ms_buf st)"
        "content (ms_buf st1) = drop n (content (ms_buf st))"
      by blast
    with Cons.IH [OF inv_stream_Read [OF Cons.prems(1) r] st1(3,4)] r show ?thesis
      by (auto simp: QRead)
  qed
qed

theorem mux_stream_capacity_witness:
  "\<exists>s s' out st'. OpenStream 0 (example_session []) = Return (s, Return 1) \<and>
    stream_run 0 1 s [QWrite (replicate 40000 7), QRead 40000, QWrite [1]] = Return (s', out) \<and>
    mux_lookup s' 1 = Some st' \<and> out @ content (ms_buf st') = replicate 32768 7"
proof -
  obtain st s where s: "OpenStream 0 (example_session []) = Return (s, Return 1)"
      "map_of (mx_streams s) 1 = Some st" "\<not> ms_reset st" "content (ms_buf st) = []"
      "room (ms_buf st) = Size" "\<not> mx_closed s" "mux_inv s"
    using example_open [of "[]"] by blast
  have "mux_lookup s 1 = Some st"
    using s by (simp add: mux_lookup_def mux_inv_def)
  from mux_stream_capacity [OF s(7) this s(3), of 0 "[QWrite (replicate 40000 7), QRead 40000, QWrite [1]]"] s(1,4,5)
  show ?thesis
    by (auto simp: Size_def)
qed

end
