(* ===== verification/Mkcp.thy ===== *)
theory Mkcp
  imports Go_Prelude
begin

text \<open>
  \<open>app/transport/mkcp.go\<close>: the state of a KCP session (queues, windows, probes, clock), the
  segment format, and the connection around it. A datagram arrives in the read loop's buffer,
  which is reused, so the bytes after the datagram are those of earlier ones. Dialling and
  listening are left out. The lock of the connection is never taken by the code; one call of
  an operation is one step here.
\<close>

section \<open>Segments\<close>

definition ErrKCPClosed :: error where "ErrKCPClosed = Error ''mKCP: session closed''"
definition ErrKCPNoData :: error where "ErrKCPNoData = Error ''mKCP: no data''"

definition CMD_PUSH :: byte where [simp]: "CMD_PUSH = 81"
definition CMD_ACK :: byte where [simp]: "CMD_ACK = 82"
definition CMD_WASK :: byte where [simp]: "CMD_WASK = 83"
definition CMD_WINS :: byte where [simp]: "CMD_WINS = 84"
definition ASK_SEND :: int where "ASK_SEND = 1"
definition ASK_TELL :: int where "ASK_TELL = 2"
definition KCP_OVERHEAD :: nat where [simp]: "KCP_OVERHEAD = 24"
definition KCP_MTU :: nat where "KCP_MTU = 1350"
definition PROBE_INIT :: int where "PROBE_INIT = 7000"
definition PROBE_LIMIT :: int where "PROBE_LIMIT = 120000"

record segment =
  sg_Conv :: u32
  sg_Cmd :: byte
  sg_Frgl :: byte
  sg_Wnd :: u16
  sg_Ts :: u32
  sg_Sn :: u32
  sg_Una :: u32
  sg_Len :: u32
  sg_Data :: bytes
  sg_xmit :: u32

definition zero_segment :: segment where
  "zero_segment = \<lparr>sg_Conv = 0, sg_Cmd = 0, sg_Frgl = 0, sg_Wnd = 0, sg_Ts = 0, sg_Sn = 0, sg_Una = 0,
     sg_Len = 0, sg_Data = [], sg_xmit = 0\<rparr>"

text \<open>Little-endian accessors.\<close>

definition le_put :: "nat \<Rightarrow> 'a::len word \<Rightarrow> bytes" where
  "le_put n w = rev (be_put n w)"

definition le_get :: "bytes \<Rightarrow> 'a::len word" where
  "le_get bs = be_get (rev bs)"

lemma length_le_put [simp]: "length (le_put n w) = n"
  by (simp add: le_put_def)

lemma le_get_put [simp]:
  "le_get (le_put 4 (w :: u32)) = w" "le_get (le_put 2 (v :: u16)) = v"
  by (simp_all add: le_put_def le_get_def)

definition segment_header :: "segment \<Rightarrow> bytes" where
  "segment_header seg =
     le_put 4 (sg_Conv seg) @ [sg_Cmd seg, sg_Frgl seg] @ le_put 2 (sg_Wnd seg) @ le_put 4 (sg_Ts seg) @
     le_put 4 (sg_Sn seg) @ le_put 4 (sg_Una seg) @ le_put 4 (sg_Len seg)"

text \<open>The header is written field by field and panics where it does not fit; the data is copied as far as it fits.\<close>

definition encodeSegment :: "bytes \<Rightarrow> segment \<Rightarrow> (bytes \<times> nat) go" where
  "encodeSegment buf seg =
     (if length buf < KCP_OVERHEAD then Panic
      else Return (blit (blit buf 0 (segment_header seg)) KCP_OVERHEAD (sg_Data seg),
                   KCP_OVERHEAD + length (sg_Data seg)))"

section \<open>The session\<close>

record kcp =
  kc_conv :: u32
  kc_mtu :: nat
  kc_mss :: nat
  kc_state :: int
  kc_sndNxt :: u32
  kc_rcvNxt :: u32
  kc_rcvWnd :: u16
  kc_rmtWnd :: u16
  kc_probe :: int
  kc_current :: u32
  kc_interval :: u32
  kc_tsFlush :: int
  kc_updated :: bool
  kc_tsProbe :: u64
  kc_probeWait :: int
  kc_deadLink :: u32
  kc_sndBuf :: "segment list"
  kc_rcvBuf :: "segment list"
  kc_sndQueue :: "segment list"
  kc_rcvQueue :: "segment list"
  kc_acklist :: "(u32 \<times> u32) list"
  kc_buf :: bytes
  kc_reserved :: nat

text \<open>The fields \<open>sndUna\<close>, \<open>sndWnd\<close>, \<open>xmit\<close>, \<open>nodelay\<close> and \<open>incr\<close> are never used.\<close>

definition NewKCPState :: "u32 \<Rightarrow> kcp" where
  "NewKCPState conv =
     \<lparr>kc_conv = conv, kc_mtu = KCP_MTU, kc_mss = KCP_MTU - KCP_OVERHEAD, kc_state = 0, kc_sndNxt = 0,
      kc_rcvNxt = 0, kc_rcvWnd = 128, kc_rmtWnd = 128, kc_probe = 0, kc_current = 0, kc_interval = 100,
      kc_tsFlush = 0, kc_updated = False, kc_tsProbe = 0, kc_probeWait = 0, kc_deadLink = 20,
      kc_sndBuf = [], kc_rcvBuf = [], kc_sndQueue = [], kc_rcvQueue = [], kc_acklist = [],
      kc_buf = replicate KCP_MTU 0, kc_reserved = 0\<rparr>"

text \<open>The segments copied to a reader with room for \<open>n\<close> bytes: the loop stops at the first that does not fit.\<close>

fun recv_copy :: "nat \<Rightarrow> segment list \<Rightarrow> bytes" where
  "recv_copy n [] = []"
| "recv_copy n (seg # segs) =
     (if length (sg_Data seg) > n then []
      else sg_Data seg @ recv_copy (n - length (sg_Data seg)) segs)"

definition kcp_Recv :: "nat \<Rightarrow> kcp \<Rightarrow> kcp \<times> bytes go" where
  "kcp_Recv n k =
     (if kc_rcvQueue k = [] then (k, Fail ErrKCPNoData)
      else (k\<lparr>kc_rcvQueue := []\<rparr>, Return (recv_copy n (kc_rcvQueue k))))"

definition kcp_Send :: "bytes \<Rightarrow> kcp \<Rightarrow> kcp" where
  "kcp_Send buffer k =
     (let count = (length buffer + kc_mss k - 1) div kc_mss k;
          seg = (\<lambda>i. let start = i * kc_mss k;
                         stop = min (start + kc_mss k) (length buffer)
                     in zero_segment\<lparr>sg_Data := take (stop - start) (drop start buffer),
                                     sg_Len := word_of_nat (stop - start)\<rparr>)
      in k\<lparr>kc_sndQueue := kc_sndQueue k @ map seg [0..<count]\<rparr>)"

definition put_segment :: "segment \<Rightarrow> kcp \<Rightarrow> kcp go" where
  "put_segment seg k =
     go_bind (go_slice (kc_buf k) (int (kc_reserved k)) (int (length (kc_buf k)))) (\<lambda>b.
     go_bind (encodeSegment b seg) (\<lambda>(b', n).
       Return (k\<lparr>kc_buf := take (kc_reserved k) (kc_buf k) @ b'\<rparr>)))"

definition flush_probe :: "kcp \<Rightarrow> kcp" where
  "flush_probe k =
     (let k1 = (if kc_rmtWnd k = 0
                then let w = (if kc_probeWait k = 0 then PROBE_INIT else kc_probeWait k)
                     in k\<lparr>kc_probeWait := w, kc_tsProbe := ucast (kc_current k) + word_of_int w\<rparr>
                else k\<lparr>kc_probeWait := 0, kc_tsProbe := 0\<rparr>)
      in if kc_tsProbe k1 \<noteq> 0 \<and> ucast (kc_current k) \<ge> kc_tsProbe k1
         then k1\<lparr>kc_probe := ASK_TELL, kc_tsProbe := 0,
                 kc_probeWait := min PROBE_LIMIT (kc_probeWait k1 + PROBE_INIT)\<rparr>
         else k1)"

text \<open>Queued segments get their numbers and move to the send buffer.\<close>

definition stamp :: "segment \<Rightarrow> kcp \<Rightarrow> kcp" where
  "stamp seg k =
     k\<lparr>kc_sndNxt := kc_sndNxt k + 1,
       kc_sndBuf := kc_sndBuf k @ [seg\<lparr>sg_Conv := kc_conv k, sg_Sn := kc_sndNxt k, sg_Ts := kc_current k,
         sg_Cmd := CMD_PUSH, sg_Wnd := kc_rcvWnd k, sg_Una := kc_rcvNxt k\<rparr>]\<rparr>"

definition flush_queue :: "kcp \<Rightarrow> kcp" where
  "flush_queue k = (fold stamp (kc_sndQueue k) k)\<lparr>kc_sndQueue := []\<rparr>"

definition flush_segment :: "segment \<Rightarrow> kcp \<Rightarrow> (segment \<times> kcp) go" where
  "flush_segment seg k =
     (let needsend = (sg_xmit seg = 0);
          seg1 = (if needsend then seg\<lparr>sg_xmit := sg_xmit seg + 1, sg_Ts := kc_current k,
                    sg_Wnd := kc_rmtWnd k, sg_Una := kc_rcvNxt k\<rparr> else seg);
          k1 = (if sg_xmit seg1 \<ge> kc_deadLink k then k\<lparr>kc_state := -1\<rparr> else k)
      in if needsend
         then let seg2 = seg1\<lparr>sg_Len := word_of_nat (length (sg_Data seg1))\<rparr>
              in go_map (Pair seg2) (put_segment seg2 k1)
         else Return (seg1, k1))"

fun flush_segments :: "segment list \<Rightarrow> kcp \<Rightarrow> (segment list \<times> kcp) go" where
  "flush_segments [] k = Return ([], k)"
| "flush_segments (seg # segs) k =
     go_bind (flush_segment seg k) (\<lambda>(seg', k1). go_map (apfst (Cons seg')) (flush_segments segs k1))"

fun put_segments :: "segment list \<Rightarrow> kcp \<Rightarrow> kcp go" where
  "put_segments [] k = Return k"
| "put_segments (seg # segs) k = go_bind (put_segment seg k) (put_segments segs)"

definition ack_segment :: "kcp \<Rightarrow> u32 \<times> u32 \<Rightarrow> segment" where
  "ack_segment k item =
     zero_segment\<lparr>sg_Conv := kc_conv k, sg_Cmd := CMD_ACK, sg_Sn := fst item, sg_Ts := snd item,
       sg_Wnd := kc_rcvWnd k, sg_Una := kc_rcvNxt k\<rparr>"

text \<open>The probe is one of the two bits, or zero.\<close>

definition probe_segments :: "kcp \<Rightarrow> segment list" where
  "probe_segments k =
     (if kc_rmtWnd k = 0
      then (if kc_probe k AND ASK_SEND \<noteq> 0 then [zero_segment\<lparr>sg_Conv := kc_conv k, sg_Cmd := CMD_WASK\<rparr>] else [])
         @ (if kc_probe k AND ASK_TELL \<noteq> 0
            then [zero_segment\<lparr>sg_Conv := kc_conv k, sg_Cmd := CMD_WINS, sg_Wnd := kc_rcvWnd k\<rparr>] else [])
      else [])"

definition kcp_flush :: "kcp \<Rightarrow> kcp go" where
  "kcp_flush k =
     (let k1 = flush_queue (flush_probe k)
      in go_bind (flush_segments (kc_sndBuf k1) k1) (\<lambda>(segs, k2).
         let k3 = k2\<lparr>kc_sndBuf := segs\<rparr>
         in go_bind (put_segments (map (ack_segment k3) (kc_acklist k3)) k3) (\<lambda>k4.
            let k5 = k4\<lparr>kc_acklist := []\<rparr>
            in go_bind (put_segments (probe_segments k5) k5) (\<lambda>k6.
               Return (k6\<lparr>kc_probe := 0\<rparr>)))))"

text \<open>Whether an update at time \<open>t\<close> flushes, and the flush time it sets; the clock is in milliseconds.\<close>

definition update_clock :: "u32 \<Rightarrow> kcp \<Rightarrow> bool \<times> kcp" where
  "update_clock t k =
     (let k1 = k\<lparr>kc_current := t\<rparr>;
          k2 = (if kc_updated k1 then k1 else k1\<lparr>kc_updated := True, kc_tsFlush := uint t\<rparr>);
          slap = uint t - kc_tsFlush k2;
          (k3, slap) = (if slap \<ge> 10000 \<or> slap < -10000 then (k2\<lparr>kc_tsFlush := uint t\<rparr>, 0) else (k2, slap));
          slap = (if slap < 0 then 0 else slap);
          interval = uint (kc_interval k3)
      in if slap \<ge> interval then (True, k3\<lparr>kc_tsFlush := uint t - (interval - slap mod interval)\<rparr>)
         else (False, k3))"

definition kcp_Update :: "u32 \<Rightarrow> kcp \<Rightarrow> kcp go" where
  "kcp_Update t k = (case update_clock t k of (flushes, k1) \<Rightarrow> if flushes then kcp_flush k1 else Return k1)"

section \<open>Input\<close>

definition parse_header :: "bytes \<Rightarrow> segment" where
  "parse_header h =
     \<lparr>sg_Conv = le_get (take 4 h), sg_Cmd = h ! 4, sg_Frgl = h ! 5, sg_Wnd = le_get (take 2 (drop 6 h)),
      sg_Ts = le_get (take 4 (drop 8 h)), sg_Sn = le_get (take 4 (drop 12 h)),
      sg_Una = le_get (take 4 (drop 16 h)), sg_Len = le_get (take 4 (drop 20 h)), sg_Data = [], sg_xmit = 0\<rparr>"

definition input_segment :: "segment \<Rightarrow> kcp \<Rightarrow> kcp" where
  "input_segment seg k =
     (if sg_Cmd seg = CMD_PUSH
      then k\<lparr>kc_rcvBuf := kc_rcvBuf k @ [seg], kc_rcvQueue := kc_rcvQueue k @ [seg]\<rparr>
      else if sg_Cmd seg = CMD_ACK then k
      else if sg_Cmd seg = CMD_WASK then k
      else if sg_Cmd seg = CMD_WINS then k\<lparr>kc_rmtWnd := sg_Wnd seg\<rparr>
      else k)"

text \<open>
  The bytes \<open>data @ stale\<close> are the whole array behind the slice \<open>data\<close>: a slice expression is
  bounded by the array, not by the length of the slice.
\<close>

function input_loop :: "bytes \<Rightarrow> bytes \<Rightarrow> nat \<Rightarrow> kcp \<Rightarrow> kcp go" where
  "input_loop data stale offset k =
     (if offset + KCP_OVERHEAD \<le> length data
      then let seg = parse_header (take KCP_OVERHEAD (drop offset data));
               start = offset + KCP_OVERHEAD;
               len = unat (sg_Len seg)
           in if len > 0
              then go_bind (go_slice (data @ stale) (int start) (int (start + len))) (\<lambda>d.
                     input_loop data stale (start + len) (input_segment (seg\<lparr>sg_Data := d\<rparr>) k))
              else input_loop data stale start (input_segment seg k)
      else Return k)"
  by pat_completeness auto
termination
  by (relation "measure (\<lambda>(data, stale, offset, k). length data - offset)") auto

declare input_loop.simps [simp del]

definition kcp_Input :: "bytes \<Rightarrow> bytes \<Rightarrow> kcp \<Rightarrow> (int \<times> kcp) go" where
  "kcp_Input data stale k =
     (if length data < KCP_OVERHEAD then Return (-1, k)
      else go_map (Pair 0) (input_loop data stale 0 k))"

section \<open>The connection\<close>

record kcp_conn =
  kn_state :: kcp
  kn_buf :: bytes
  kn_closed :: bool

text \<open>The MTU is a natural number and the interval of the update loop positive; the library panics otherwise.\<close>

definition NewKCPConn :: "u32 \<Rightarrow> nat \<Rightarrow> kcp_conn" where
  "NewKCPConn conv mtu = \<lparr>kn_state = NewKCPState conv, kn_buf = replicate mtu 0, kn_closed = False\<rparr>"

text \<open>One turn of the read loop: a datagram is received into the loop's buffer and given to the session.\<close>

definition kconn_readLoop_turn :: "bytes \<Rightarrow> kcp_conn \<Rightarrow> kcp_conn go" where
  "kconn_readLoop_turn datagram c =
     (let buf = blit (kn_buf c) 0 datagram;
          n = min (length datagram) (length (kn_buf c))
      in go_map (\<lambda>(_, k). c\<lparr>kn_state := k, kn_buf := buf\<rparr>) (kcp_Input (take n buf) (drop n buf) (kn_state c)))"

definition kconn_Read :: "nat \<Rightarrow> kcp_conn \<Rightarrow> kcp_conn \<times> bytes go" where
  "kconn_Read n c =
     (if kn_closed c then (c, Fail ErrKCPClosed)
      else case kcp_Recv n (kn_state c) of (k, r) \<Rightarrow> (c\<lparr>kn_state := k\<rparr>, r))"

definition kconn_Write :: "bytes \<Rightarrow> kcp_conn \<Rightarrow> kcp_conn \<times> nat go" where
  "kconn_Write p c =
     (if kn_closed c then (c, Fail ErrKCPClosed)
      else (c\<lparr>kn_state := kcp_Send p (kn_state c)\<rparr>, Return (length p)))"

section \<open>What the segment format preserves\<close>

definition segment_bytes :: "segment \<Rightarrow> bytes" where
  "segment_bytes seg = segment_header seg @ sg_Data seg"

definition segment_ok :: "segment \<Rightarrow> bool" where
  "segment_ok seg \<longleftrightarrow> unat (sg_Len seg) = length (sg_Data seg)"

lemma length_segment_header [simp]: "length (segment_header seg) = 24"
  by (simp add: segment_header_def)

lemma encodeSegment_fits:
  "24 + length (sg_Data seg) \<le> length buf \<Longrightarrow>
     encodeSegment buf seg = Return (blit buf 0 (segment_bytes seg), 24 + length (sg_Data seg))"
  by (simp add: encodeSegment_def segment_bytes_def blit_fits add.commute)

lemma le_put_4: "le_put 4 w = [ucast w, ucast (drop_bit 8 w), ucast (drop_bit 16 w), ucast (drop_bit 24 w)]"
  by (simp add: le_put_def eval_nat_numeral)

lemma le_put_2: "le_put 2 w = [ucast w, ucast (drop_bit 8 w)]"
  by (simp add: le_put_def eval_nat_numeral)

lemma parse_segment_header:
  "parse_header (segment_header seg) = seg\<lparr>sg_Data := [], sg_xmit := 0\<rparr>"
proof -
  note puts = le_get_put [unfolded le_put_4 le_put_2]
  show ?thesis
    unfolding parse_header_def segment_header_def le_put_4 le_put_2
    by (simp add: puts)
qed

lemma input_segments:
  "list_all segment_ok segs \<Longrightarrow>
     input_loop (pre @ concat (map segment_bytes segs)) stale (length pre) k =
       Return (fold input_segment (map (\<lambda>seg. seg\<lparr>sg_xmit := 0\<rparr>) segs) k)"
proof (induction segs arbitrary: pre k)
  case Nil
  then show ?case
    by (simp add: input_loop.simps)
next
  case (Cons seg segs)
  let ?rest = "concat (map segment_bytes segs)"
  have len: "unat (sg_Len seg) = length (sg_Data seg)"
    using Cons.prems by (simp add: segment_ok_def)
  have hdr: "parse_header (take 24 (drop (length pre) (pre @ concat (map segment_bytes (seg # segs))))) =
      seg\<lparr>sg_Data := [], sg_xmit := 0\<rparr>"
    by (simp add: segment_bytes_def parse_segment_header)
  have data: "go_slice ((pre @ concat (map segment_bytes (seg # segs))) @ stale) (int (length pre + 24))
      (int (length pre + 24 + length (sg_Data seg))) = Return (sg_Data seg)"
    by (simp only: slice_of_nat) (simp add: segment_bytes_def)
  have step: "input_loop (pre @ concat (map segment_bytes (seg # segs))) stale (length pre) k =
      input_loop ((pre @ segment_bytes seg) @ ?rest) stale (length (pre @ segment_bytes seg))
        (input_segment (seg\<lparr>sg_xmit := 0\<rparr>) k)"
  proof (cases "sg_Data seg = []")
    case True
    then have eq: "seg\<lparr>sg_Data := [], sg_xmit := 0\<rparr> = seg\<lparr>sg_xmit := 0\<rparr>"
      by (cases seg) simp
    show ?thesis
      using True len hdr by (subst input_loop.simps) (simp add: segment_bytes_def eq)
  next
    case False
    then show ?thesis
      using len hdr data by (subst input_loop.simps) (simp add: segment_bytes_def add.assoc)
  qed
  show ?case
    unfolding step by (subst Cons.IH) (use Cons.prems in simp_all)
qed

section \<open>What a flush does\<close>

definition out_segment :: "kcp \<Rightarrow> nat \<Rightarrow> segment \<Rightarrow> segment" where
  "out_segment k i seg =
     seg\<lparr>sg_Conv := kc_conv k, sg_Cmd := CMD_PUSH, sg_Wnd := kc_rmtWnd k, sg_Ts := kc_current k,
       sg_Sn := kc_sndNxt k + word_of_nat i, sg_Una := kc_rcvNxt k,
       sg_Len := word_of_nat (length (sg_Data seg)), sg_xmit := 1\<rparr>"

definition queued_ok :: "segment \<Rightarrow> bool" where
  "queued_ok seg \<longleftrightarrow> sg_xmit seg = 0 \<and> length (sg_Data seg) \<le> 1326"

definition sent_ok :: "u32 \<Rightarrow> nat \<Rightarrow> segment \<Rightarrow> bool" where
  "sent_ok conv i seg \<longleftrightarrow>
     sg_xmit seg = 1 \<and> sg_Sn seg = word_of_nat i \<and> sg_Conv seg = conv \<and> sg_Cmd seg = CMD_PUSH \<and>
     segment_ok seg \<and> length (sg_Data seg) \<le> 1326"

definition kcp_inv :: "kcp \<Rightarrow> bool" where
  "kcp_inv k \<longleftrightarrow>
     kc_mss k = 1326 \<and> length (kc_buf k) = 1350 \<and> kc_reserved k = 0 \<and> kc_deadLink k = 20 \<and>
     kc_interval k = 100 \<and> kc_state k = 0 \<and> kc_acklist k = [] \<and> kc_rcvNxt k = 0 \<and>
     kc_sndNxt k = word_of_nat (length (kc_sndBuf k)) \<and>
     list_all queued_ok (kc_sndQueue k) \<and>
     (\<forall>i < length (kc_sndBuf k). sent_ok (kc_conv k) i (kc_sndBuf k ! i))"

lemma fold_stamp:
  "fold stamp segs k =
     k\<lparr>kc_sndNxt := kc_sndNxt k + word_of_nat (length segs),
       kc_sndBuf := kc_sndBuf k @ map (\<lambda>(i, seg). seg\<lparr>sg_Conv := kc_conv k, sg_Sn := kc_sndNxt k + word_of_nat i,
         sg_Ts := kc_current k, sg_Cmd := CMD_PUSH, sg_Wnd := kc_rcvWnd k, sg_Una := kc_rcvNxt k\<rparr>)
         (enumerate 0 segs)\<rparr>"
  by (induction segs rule: rev_induct) (simp_all add: enumerate_append_eq stamp_def add.assoc)

lemma put_segment_ok:
  "kc_reserved k = 0 \<Longrightarrow> length (kc_buf k) = 1350 \<Longrightarrow> length (sg_Data seg) \<le> 1326 \<Longrightarrow>
     put_segment seg k = Return (k\<lparr>kc_buf := blit (kc_buf k) 0 (segment_bytes seg)\<rparr>)"
  by (simp add: put_segment_def go_slice_def encodeSegment_fits)

definition flushed :: "kcp \<Rightarrow> segment \<Rightarrow> segment" where
  "flushed k seg =
     (if sg_xmit seg = 0
      then seg\<lparr>sg_xmit := 1, sg_Ts := kc_current k, sg_Wnd := kc_rmtWnd k, sg_Una := kc_rcvNxt k,
             sg_Len := word_of_nat (length (sg_Data seg))\<rparr>
      else seg)"

text \<open>Every segment that is encoded is written to the start of the buffer, over the one before it.\<close>

definition flush_buf :: "kcp \<Rightarrow> segment list \<Rightarrow> bytes \<Rightarrow> bytes" where
  "flush_buf k segs b = fold (\<lambda>seg b. if sg_xmit seg = 0 then blit b 0 (segment_bytes (flushed k seg)) else b) segs b"

lemma flushed_buf [simp]: "flushed (k\<lparr>kc_buf := b\<rparr>) = flushed k"
  by (simp add: flushed_def fun_eq_iff)

lemma flush_buf_buf [simp]: "flush_buf (k\<lparr>kc_buf := b\<rparr>) = flush_buf k"
  unfolding flush_buf_def flushed_buf ..

lemma flush_buf_simps [simp]:
  "flush_buf k [] b = b"
  "flush_buf k (seg # segs) b =
     flush_buf k segs (if sg_xmit seg = 0 then blit b 0 (segment_bytes (flushed k seg)) else b)"
  by (simp_all add: flush_buf_def)

lemma flush_buf_sent: "\<forall>seg \<in> set segs. sg_xmit seg = 1 \<Longrightarrow> flush_buf k segs b = b"
  by (induction segs) simp_all

lemma flush_buf_new:
  "\<forall>seg \<in> set segs. sg_xmit seg = 0 \<Longrightarrow>
     flush_buf k segs b = fold (\<lambda>seg b. blit b 0 (segment_bytes seg)) (map (flushed k) segs) b"
  by (induction segs arbitrary: b) simp_all

lemma flush_buf_append: "flush_buf k (xs @ ys) b = flush_buf k ys (flush_buf k xs b)"
  by (simp add: flush_buf_def)

lemma flush_segment_ok:
  assumes "kc_reserved k = 0" "kc_deadLink k = 20" "length (kc_buf k) = 1350"
    and "sg_xmit seg \<le> 1" "length (sg_Data seg) \<le> 1326"
  shows "flush_segment seg k =
    Return (flushed k seg, k\<lparr>kc_buf := flush_buf k [seg] (kc_buf k)\<rparr>)"
proof -
  have c: "\<not> (20 :: u32) \<le> 1"
    by (simp add: word_le_nat_alt)
  then have d: "\<not> 20 \<le> sg_xmit seg"
    using assms(4) order.trans by blast
  show ?thesis
    using assms by (simp add: flush_segment_def flushed_def put_segment_ok Let_def c d)
qed

lemma flush_segments_ok:
  assumes "kc_reserved k = 0" "kc_deadLink k = 20"
    and "\<forall>seg \<in> set segs. sg_xmit seg \<le> 1 \<and> length (sg_Data seg) \<le> 1326"
  shows "length (kc_buf k) = 1350 \<Longrightarrow>
    flush_segments segs k = Return (map (flushed k) segs, k\<lparr>kc_buf := flush_buf k segs (kc_buf k)\<rparr>) \<and>
    length (flush_buf k segs (kc_buf k)) = 1350"
  using assms
proof (induction segs arbitrary: k)
  case (Cons seg segs)
  let ?b = "flush_buf k [seg] (kc_buf k)"
  have "flush_segment seg k = Return (flushed k seg, k\<lparr>kc_buf := ?b\<rparr>)"
    by (rule flush_segment_ok) (use Cons.prems in simp_all)
  moreover have "flush_segments segs (k\<lparr>kc_buf := ?b\<rparr>) =
      Return (map (flushed k) segs, k\<lparr>kc_buf := flush_buf k segs ?b\<rparr>) \<and> length (flush_buf k segs ?b) = 1350"
    using Cons.IH [of "k\<lparr>kc_buf := ?b\<rparr>"] Cons.prems by (simp split del: if_split) (simp split: if_splits)
  ultimately show ?case
    by (simp split del: if_split)
qed simp

text \<open>The state a flush leaves, except for what is in the buffer.\<close>

lemma flush_probe_fields [simp]:
  "kc_conv (flush_probe k) = kc_conv k" "kc_mss (flush_probe k) = kc_mss k" "kc_state (flush_probe k) = kc_state k"
  "kc_sndNxt (flush_probe k) = kc_sndNxt k" "kc_rcvNxt (flush_probe k) = kc_rcvNxt k"
  "kc_rcvWnd (flush_probe k) = kc_rcvWnd k" "kc_rmtWnd (flush_probe k) = kc_rmtWnd k"
  "kc_current (flush_probe k) = kc_current k" "kc_interval (flush_probe k) = kc_interval k"
  "kc_deadLink (flush_probe k) = kc_deadLink k" "kc_sndBuf (flush_probe k) = kc_sndBuf k"
  "kc_rcvQueue (flush_probe k) = kc_rcvQueue k" "kc_sndQueue (flush_probe k) = kc_sndQueue k"
  "kc_acklist (flush_probe k) = kc_acklist k" "kc_buf (flush_probe k) = kc_buf k"
  "kc_reserved (flush_probe k) = kc_reserved k"
  by (simp_all add: flush_probe_def Let_def)

lemma put_probe_ok:
  assumes "kc_reserved k = 0" "length (kc_buf k) = 1350" "\<forall>seg \<in> set segs. sg_Data seg = []"
  shows "\<exists>b. put_segments segs k = Return (k\<lparr>kc_buf := b\<rparr>) \<and> length b = 1350 \<and> (segs = [] \<longrightarrow> b = kc_buf k)"
  using assms
proof (induction segs arbitrary: k)
  case Nil
  then show ?case
    by (intro exI [of _ "kc_buf k"]) simp
next
  case (Cons seg segs)
  let ?k = "k\<lparr>kc_buf := blit (kc_buf k) 0 (segment_bytes seg)\<rparr>"
  have "put_segment seg k = Return ?k"
    using Cons.prems by (simp add: put_segment_ok)
  moreover obtain b where "put_segments segs ?k = Return (?k\<lparr>kc_buf := b\<rparr>)" "length b = 1350"
    using Cons.IH [of ?k] Cons.prems by auto
  ultimately show ?case
    by (intro exI [of _ b]) simp
qed

lemma probe_no_data: "\<forall>seg \<in> set (probe_segments k). sg_Data seg = []"
  by (auto simp: probe_segments_def zero_segment_def)

lemma sent_flushed: "sent_ok conv i seg \<Longrightarrow> flushed k seg = seg"
  by (simp add: sent_ok_def flushed_def)

lemma flushed_stamped:
  "sg_xmit seg = 0 \<Longrightarrow>
     flushed k (seg\<lparr>sg_Conv := kc_conv k, sg_Sn := kc_sndNxt k + word_of_nat i, sg_Ts := kc_current k,
       sg_Cmd := CMD_PUSH, sg_Wnd := kc_rcvWnd k, sg_Una := kc_rcvNxt k\<rparr>) = out_segment k i seg"
  by (simp add: flushed_def out_segment_def)

lemma sent_out_segment:
  "kc_sndNxt k = word_of_nat n \<Longrightarrow> queued_ok seg \<Longrightarrow> sent_ok (kc_conv k) (n + i) (out_segment k i seg)"
  by (simp add: sent_ok_def out_segment_def queued_ok_def segment_ok_def unat_of_nat)

lemma kcp_flush_ok:
  assumes inv: "kcp_inv k"
  defines "outs \<equiv> map (\<lambda>(i, seg). out_segment k i seg) (enumerate 0 (kc_sndQueue k))"
  shows "\<exists>k'. kcp_flush k = Return k' \<and> kcp_inv k' \<and> kc_sndBuf k' = kc_sndBuf k @ outs \<and>
    kc_sndQueue k' = [] \<and> kc_rcvQueue k' = kc_rcvQueue k \<and> kc_conv k' = kc_conv k \<and>
    (kc_rmtWnd k \<noteq> 0 \<longrightarrow> kc_buf k' = fold (\<lambda>seg b. blit b 0 (segment_bytes seg)) outs (kc_buf k))"
proof -
  define k0 where "k0 = flush_probe k"
  define k1 where "k1 = flush_queue k0"
  have same: "out_segment k0 = out_segment k"
    by (simp add: out_segment_def fun_eq_iff k0_def)
  have k1: "kc_sndBuf k1 = kc_sndBuf k @ map (\<lambda>(i, seg). seg\<lparr>sg_Conv := kc_conv k, sg_Sn := kc_sndNxt k + word_of_nat i,
         sg_Ts := kc_current k, sg_Cmd := CMD_PUSH, sg_Wnd := kc_rcvWnd k, sg_Una := kc_rcvNxt k\<rparr>)
         (enumerate 0 (kc_sndQueue k))"
    "kc_sndNxt k1 = kc_sndNxt k + word_of_nat (length (kc_sndQueue k))" "kc_sndQueue k1 = []"
    "kc_reserved k1 = 0" "kc_deadLink k1 = 20" "kc_buf k1 = kc_buf k" "kc_acklist k1 = []" "kc_mss k1 = 1326"
    "kc_rmtWnd k1 = kc_rmtWnd k" "kc_interval k1 = 100" "kc_state k1 = 0" "kc_rcvNxt k1 = 0" "kc_conv k1 = kc_conv k"
    "kc_rcvQueue k1 = kc_rcvQueue k" "kc_current k1 = kc_current k"
    using inv by (simp_all add: k1_def k0_def flush_queue_def fold_stamp kcp_inv_def)
  have old: "\<forall>seg \<in> set (kc_sndBuf k). sg_xmit seg = 1 \<and> length (sg_Data seg) \<le> 1326 \<and> flushed k1 seg = seg"
    using inv sent_flushed by (auto simp: kcp_inv_def sent_ok_def in_set_conv_nth flushed_def)
  have new: "\<forall>seg \<in> set (kc_sndQueue k). sg_xmit seg = 0 \<and> length (sg_Data seg) \<le> 1326"
    using inv by (auto simp: kcp_inv_def list_all_iff queued_ok_def)
  have bounded: "\<forall>seg \<in> set (kc_sndBuf k1). sg_xmit seg \<le> 1 \<and> length (sg_Data seg) \<le> 1326"
    using old new by (auto simp: k1 in_set_enumerate_eq)
  have fk: "flushed k1 = flushed k"
    using inv by (simp add: flushed_def fun_eq_iff k1 kcp_inv_def)
  let ?stamped = "drop (length (kc_sndBuf k)) (kc_sndBuf k1)"
  have sndBuf: "kc_sndBuf k1 = kc_sndBuf k @ ?stamped"
    by (simp add: k1)
  have stamped: "map (flushed k1) ?stamped = outs" "\<forall>seg \<in> set ?stamped. sg_xmit seg = 0"
    using new unfolding outs_def k1(1)
    by (auto simp: fk in_set_enumerate_eq flushed_stamped simp del: CMD_PUSH_def)
  have outs: "map (flushed k1) (kc_sndBuf k1) = kc_sndBuf k @ outs"
    using old by (subst sndBuf) (simp add: stamped(1) map_idI)
  define b where "b = flush_buf k1 (kc_sndBuf k1) (kc_buf k1)"
  have b: "b = fold (\<lambda>seg b. blit b 0 (segment_bytes seg)) outs (kc_buf k)"
    unfolding b_def using old by (subst sndBuf) (simp add: flush_buf_append flush_buf_sent flush_buf_new stamped k1(6))
  have "length (kc_buf k1) = 1350"
    using inv by (simp add: k1(6) kcp_inv_def)
  note all = flush_segments_ok [OF k1(4,5) bounded this, folded b_def, unfolded outs]
  have segs: "flush_segments (kc_sndBuf k1) k1 = Return (kc_sndBuf k @ outs, k1\<lparr>kc_buf := b\<rparr>)" "length b = 1350"
    using all by simp_all
  define k5 where "k5 = k1\<lparr>kc_buf := b, kc_sndBuf := kc_sndBuf k @ outs, kc_acklist := []\<rparr>"
  obtain b' where b': "put_segments (probe_segments k5) k5 = Return (k5\<lparr>kc_buf := b'\<rparr>)" "length b' = 1350"
    "probe_segments k5 = [] \<longrightarrow> b' = b"
    using put_probe_ok [OF _ _ probe_no_data, of k5] segs(2) k1(4) unfolding k5_def by auto
  define k' where "k' = k5\<lparr>kc_buf := b', kc_probe := 0\<rparr>"
  have flush: "kcp_flush k = Return k'"
    using segs b' k1 by (simp add: kcp_flush_def Let_def k'_def k5_def flip: k0_def k1_def)
  have sent: "sent_ok (kc_conv k) i ((kc_sndBuf k @ outs) ! i)" if i: "i < length (kc_sndBuf k @ outs)" for i
  proof (cases "i < length (kc_sndBuf k)")
    case True
    then show ?thesis
      using inv by (simp add: nth_append kcp_inv_def)
  next
    case False
    let ?j = "i - length (kc_sndBuf k)"
    have j: "?j < length (kc_sndQueue k)"
      using i False by (simp add: outs_def)
    have "sent_ok (kc_conv k) (length (kc_sndBuf k) + ?j) (out_segment k ?j (kc_sndQueue k ! ?j))"
      by (rule sent_out_segment) (use inv j in \<open>simp_all add: kcp_inv_def list_all_length\<close>)
    then show ?thesis
      using False j by (simp add: nth_append outs_def nth_enumerate_eq)
  qed
  have "kcp_inv k'"
    using inv segs(2) b'(2) k1 sent by (simp add: kcp_inv_def k'_def k5_def outs_def)
  then show ?thesis
    using flush b b'(3) k1 by (auto simp: k'_def k5_def probe_segments_def)
qed

section \<open>Reachable sessions\<close>

text \<open>Any sequence of the operations on a new session; an input that panics ends the program.\<close>

inductive kcp_reach :: "kcp \<Rightarrow> bool" where
  new: "kcp_reach (NewKCPState conv)"
| send: "kcp_reach k \<Longrightarrow> kcp_reach (kcp_Send data k)"
| recv: "kcp_reach k \<Longrightarrow> kcp_reach (fst (kcp_Recv n k))"
| update: "kcp_reach k \<Longrightarrow> kcp_Update t k = Return k' \<Longrightarrow> kcp_reach k'"
| input: "kcp_reach k \<Longrightarrow> kcp_Input data stale k = Return (r, k') \<Longrightarrow> kcp_reach k'"

lemma input_segment_inv: "kcp_inv k \<Longrightarrow> kcp_inv (input_segment seg k)"
  by (simp add: input_segment_def kcp_inv_def)

lemma input_loop_inv: "input_loop data stale offset k = Return k' \<Longrightarrow> kcp_inv k \<Longrightarrow> kcp_inv k'"
proof (induction data stale offset k rule: input_loop.induct)
  case (1 data stale offset k)
  show ?case
    using 1(3,4) by (subst (asm) input_loop.simps)
      (auto simp: Let_def go_bind_Return_iff split: if_splits intro: 1(1,2) input_segment_inv)
qed

lemma kcp_Send_inv: "kcp_inv k \<Longrightarrow> kcp_inv (kcp_Send data k)"
  by (auto simp: kcp_inv_def kcp_Send_def Let_def list_all_iff queued_ok_def zero_segment_def)

lemma update_clock_inv: "kcp_inv k \<Longrightarrow> kcp_inv (snd (update_clock t k))"
  by (simp add: update_clock_def Let_def kcp_inv_def)

lemma kcp_Update_ok: "kcp_inv k \<Longrightarrow> \<exists>k'. kcp_Update t k = Return k' \<and> kcp_inv k'"
  using update_clock_inv [of k t] kcp_flush_ok [of "snd (update_clock t k)"]
  by (auto simp: kcp_Update_def split: prod.splits)

lemma kcp_reach_inv: "kcp_reach k \<Longrightarrow> kcp_inv k"
proof (induction rule: kcp_reach.induct)
  case (update k t k')
  then show ?case
    using kcp_Update_ok [of k t] by auto
next
  case (input k data stale r k')
  then show ?case
    by (auto simp: kcp_Input_def go_map_Return_iff split: if_splits intro: input_loop_inv)
next
  case (recv k n)
  then show ?case
    by (simp add: kcp_Recv_def kcp_inv_def)
next
  case (send k data)
  then show ?case
    by (simp add: kcp_Send_inv)
qed (simp add: kcp_inv_def NewKCPState_def KCP_MTU_def)

text \<open>
  C26: in every reachable session an update returns; the acknowledgement list is empty, the
  dead-link state is never entered, and the send buffer holds every segment ever sent, numbered
  consecutively from 0 and transmitted once: nothing acknowledges, retransmits or removes one.
\<close>
theorem kcp_never_acknowledges:
  assumes "kcp_reach k"
  shows "(\<exists>k'. kcp_Update t k = Return k') \<and> kc_acklist k = [] \<and> kc_state k = 0 \<and>
    kc_sndNxt k = word_of_nat (length (kc_sndBuf k)) \<and>
    (\<forall>i < length (kc_sndBuf k). sg_Sn (kc_sndBuf k ! i) = word_of_nat i \<and> sg_xmit (kc_sndBuf k ! i) = 1)"
  using kcp_reach_inv [OF assms] kcp_Update_ok [of k t] by (auto simp: kcp_inv_def sent_ok_def)

theorem kcp_never_acknowledges_witness:
  "\<exists>k1 k2. kcp_Update 0 (NewKCPState 7) = Return k1 \<and> kcp_Update 100 (kcp_Send [1, 2, 3] k1) = Return k2 \<and>
     length (kc_sndBuf k2) = 1 \<and> sg_xmit (kc_sndBuf k2 ! 0) = 1 \<and> kc_acklist k2 = []"
proof -
  let ?k1 = "(NewKCPState 7)\<lparr>kc_updated := True\<rparr>"
  let ?k = "kcp_Send [1, 2, 3] ?k1"
  have k1: "kcp_Update 0 (NewKCPState 7) = Return ?k1"
    by (simp add: kcp_Update_def update_clock_def NewKCPState_def Let_def)
  have r: "kcp_reach ?k"
    using k1 by (intro kcp_reach.send kcp_reach.update [OF kcp_reach.new])
  define k where "k = ?k\<lparr>kc_current := 100, kc_tsFlush := 0\<rparr>"
  have clock: "update_clock 100 ?k = (True, k)"
    by (simp add: update_clock_def NewKCPState_def kcp_Send_def Let_def k_def)
  have "kcp_inv k"
    using update_clock_inv [OF kcp_reach_inv [OF r], of 100] clock by simp
  from kcp_flush_ok [OF this] obtain k2 where k2: "kcp_flush k = Return k2"
      "kc_sndBuf k2 = kc_sndBuf k @ map (\<lambda>(i, seg). out_segment k i seg) (enumerate 0 (kc_sndQueue k))"
    by blast
  then have u: "kcp_Update 100 ?k = Return k2"
    by (simp add: kcp_Update_def clock)
  have "length (kc_sndBuf k2) = 1"
    by (simp add: k2(2) k_def kcp_Send_def NewKCPState_def KCP_MTU_def Let_def)
  with k1 u kcp_never_acknowledges [OF kcp_reach.update [OF r u]] show ?thesis
    by auto
qed

section \<open>What a message leaves in the buffer\<close>

lemma out_segment_ok:
  "queued_ok seg \<Longrightarrow> segment_ok (out_segment k i seg) \<and> length (sg_Data (out_segment k i seg)) \<le> 1326 \<and>
     sg_Cmd (out_segment k i seg) = CMD_PUSH"
  by (simp add: out_segment_def queued_ok_def segment_ok_def unat_of_nat)

lemma length_fold_blit: "length (fold (\<lambda>seg b. blit b 0 (segment_bytes seg)) segs b) = length b"
  by (induction segs arbitrary: b) simp_all

lemma fold_blit_last:
  assumes "segs \<noteq> []" "length (segment_bytes (last segs)) \<le> length b"
  shows "take (length (segment_bytes (last segs))) (fold (\<lambda>seg b. blit b 0 (segment_bytes seg)) segs b) =
    segment_bytes (last segs)"
  using assms by (cases segs rule: rev_cases) (simp_all add: length_fold_blit blit_fits)

lemma pieces_count: "0 < n \<Longrightarrow> (n + m - Suc 0) div m = Suc ((n - Suc 0) div m)" if "0 < m" for n m :: nat
  using that by (cases n) (simp_all add: div_add_self2)

lemma kcp_Send_last:
  assumes "kc_mss k = 1326" "kc_sndQueue k = []" "data \<noteq> []"
  shows "length (kc_sndQueue (kcp_Send data k)) = Suc ((length data - 1) div 1326)"
    "sg_Data (last (kc_sndQueue (kcp_Send data k))) = drop ((length data - 1) div 1326 * 1326) data"
proof -
  let ?q = "(length data - Suc 0) div 1326"
  have c: "(length data + 1326 - Suc 0) div 1326 = Suc ?q"
    using assms(3) by (intro pieces_count) simp_all
  then show "length (kc_sndQueue (kcp_Send data k)) = Suc ((length data - 1) div 1326)"
    using assms(1,2) by (simp add: kcp_Send_def Let_def)
  have "length data - Suc 0 < ?q * 1326 + 1326"
    using div_mult_mod_eq [of "length data - Suc 0" 1326] mod_less_divisor [of 1326 "length data - Suc 0"]
    by linarith
  then have "min (?q * 1326 + 1326) (length data) = length data"
    using assms(3) by (cases data) simp_all
  with c show "sg_Data (last (kc_sndQueue (kcp_Send data k))) = drop ((length data - 1) div 1326 * 1326) data"
    using assms(1,2) by (simp add: kcp_Send_def Let_def)
qed

text \<open>
  C11: \<open>flush\<close> encodes every segment at the start of the session's buffer, over the one before it, and
  sends none. After a non-empty message was sent, with nothing queued before it, and flushed (the
  peer's window being open), all its segments are in the send buffer, but what the session's buffer
  begins with is the last one: a peer with nothing queued that were given it would take it in, and
  its next read, with enough room, would return the last piece of the message, the bytes after the
  full pieces of 1326.
\<close>

theorem kcp_flush_keeps_last_piece:
  assumes "kcp_reach k" "kc_sndQueue k = []" "kc_rmtWnd k \<noteq> 0" "data \<noteq> []"
    and "kcp_flush (kcp_Send data k) = Return k'" "kc_rcvQueue r = []"
  defines "earlier \<equiv> (length data - 1) div 1326"
  defines "piece \<equiv> drop (earlier * 1326) data"
  assumes "length piece \<le> n"
  shows "length (kc_sndBuf k') = length (kc_sndBuf k) + earlier + 1 \<and> kc_sndQueue k' = [] \<and>
    (\<exists>r'. kcp_Input (take (KCP_OVERHEAD + length piece) (kc_buf k')) stale r = Return (0, r') \<and>
       snd (kcp_Recv n r') = Return piece)"
proof -
  let ?k = "kcp_Send data k"
  define segs where "segs = map (\<lambda>(i, seg). out_segment ?k i seg) (enumerate 0 (kc_sndQueue ?k))"
  have inv: "kcp_inv k" "kcp_inv ?k"
    using kcp_reach_inv [OF assms(1)] kcp_Send_inv by blast+
  then have k: "kc_mss k = 1326" "length (kc_buf ?k) = 1350"
    by (simp_all add: kcp_inv_def)
  note sent = kcp_Send_last [OF k(1) assms(2,4), folded earlier_def, folded piece_def]
  have "kc_rmtWnd ?k \<noteq> 0" "kc_sndBuf ?k = kc_sndBuf k"
    using assms(3) by (simp_all add: kcp_Send_def Let_def)
  then have k': "kc_sndBuf k' = kc_sndBuf k @ segs" "kc_sndQueue k' = []"
      "kc_buf k' = fold (\<lambda>seg b. blit b 0 (segment_bytes seg)) segs (kc_buf ?k)"
    using kcp_flush_ok [OF inv(2)] assms(5) by (auto simp: segs_def)
  have len: "length segs = Suc earlier"
    by (simp add: segs_def sent(1))
  have last: "sg_Data (last segs) = piece" "queued_ok (last (kc_sndQueue ?k))"
      "last segs = out_segment ?k earlier (last (kc_sndQueue ?k))"
  proof -
    have "last segs = segs ! earlier" "last (kc_sndQueue ?k) = kc_sndQueue ?k ! earlier"
      using len sent(1) by (auto simp: last_conv_nth simp flip: length_greater_0_conv)
    then show "last segs = out_segment ?k earlier (last (kc_sndQueue ?k))" "queued_ok (last (kc_sndQueue ?k))"
      using inv(2) sent(1) by (simp_all add: segs_def nth_enumerate_eq kcp_inv_def list_all_length)
    then show "sg_Data (last segs) = piece"
      by (simp add: out_segment_def sent(2))
  qed
  have ok: "segment_ok (last segs)" "length piece \<le> 1326" "sg_Cmd (last segs) = CMD_PUSH"
    using out_segment_ok [OF last(2), of ?k earlier] last(1,3) by simp_all
  have bytes: "length (segment_bytes (last segs)) = KCP_OVERHEAD + length piece"
    by (simp add: segment_bytes_def last(1))
  have buf: "take (KCP_OVERHEAD + length piece) (kc_buf k') = segment_bytes (last segs)"
    using fold_blit_last [of segs "kc_buf ?k"] len ok(2) k(2) unfolding k'(3) bytes by fastforce
  let ?seg = "(last segs)\<lparr>sg_xmit := 0\<rparr>"
  let ?r = "r\<lparr>kc_rcvBuf := kc_rcvBuf r @ [?seg], kc_rcvQueue := [?seg]\<rparr>"
  have "kcp_Input (segment_bytes (last segs)) stale r = Return (0, ?r)"
    using input_segments [of "[last segs]" "[]" stale r] ok bytes assms(6)
    by (simp add: kcp_Input_def input_segment_def)
  moreover have "snd (kcp_Recv n ?r) = Return piece"
    using assms(9) last(1) by (simp add: kcp_Recv_def)
  ultimately show ?thesis
    using k'(1,2) len buf by auto
qed

theorem kcp_flush_keeps_last_piece_witness:
  "\<exists>k' r'. kcp_flush (kcp_Send (replicate 1326 5 @ [1, 2, 3]) (NewKCPState 7)) = Return k' \<and>
     length (kc_sndBuf k') = 2 \<and> kcp_Input (take 27 (kc_buf k')) [] (NewKCPState 9) = Return (0, r') \<and>
     snd (kcp_Recv 3 r') = Return [1, 2, 3]"
proof -
  let ?d = "replicate 1326 5 @ [1, 2, 3] :: bytes"
  have r: "kcp_reach (NewKCPState 7)"
    by (rule kcp_reach.new)
  obtain k' where k': "kcp_flush (kcp_Send ?d (NewKCPState 7)) = Return k'"
    using kcp_flush_ok [OF kcp_Send_inv [OF kcp_reach_inv [OF r]]] by blast
  have "(length ?d - 1) div 1326 = 1" "drop 1326 ?d = [1, 2, 3]"
    by simp_all
  then show ?thesis
    using kcp_flush_keeps_last_piece [OF r _ _ _ k', of "NewKCPState 9" 3 "[]"] k' by (auto simp: NewKCPState_def)
qed

text \<open>
  A read returns the longest prefix of the queued segments that fits; the others are discarded.
\<close>

lemma recv_copy_prefix:
  "\<exists>m \<le> length segs. recv_copy n segs = concat (map sg_Data (take m segs)) \<and> length (recv_copy n segs) \<le> n \<and>
     (m < length segs \<longrightarrow> n < length (concat (map sg_Data (take (Suc m) segs))))"
proof (induction segs arbitrary: n)
  case (Cons seg segs)
  show ?case
  proof (cases "length (sg_Data seg) \<le> n")
    case True
    obtain m where m: "m \<le> length segs" "recv_copy (n - length (sg_Data seg)) segs = concat (map sg_Data (take m segs))"
      "length (recv_copy (n - length (sg_Data seg)) segs) \<le> n - length (sg_Data seg)"
      "m < length segs \<longrightarrow> n - length (sg_Data seg) < length (concat (map sg_Data (take (Suc m) segs)))"
      using Cons.IH by blast
    show ?thesis
      by (rule exI [of _ "Suc m"]) (use True m in auto)
  qed (auto intro: exI [of _ 0])
qed simp

lemma kcp_Recv_discards:
  assumes "kc_rcvQueue k \<noteq> []"
  shows "\<exists>m \<le> length (kc_rcvQueue k).
    kcp_Recv n k = (k\<lparr>kc_rcvQueue := []\<rparr>, Return (concat (map sg_Data (take m (kc_rcvQueue k))))) \<and>
    (m < length (kc_rcvQueue k) \<longrightarrow> n < length (concat (map sg_Data (take (Suc m) (kc_rcvQueue k)))))"
  using recv_copy_prefix [of "kc_rcvQueue k" n] assms by (auto simp: kcp_Recv_def)

text \<open>
  A datagram whose segment announces more bytes than follow makes the input panic if the
  read loop's buffer is too short for them; otherwise the segment is accepted with the bytes
  that earlier datagrams left in the buffer.
\<close>
lemma kcp_truncated_segment:
  assumes "length payload < unat (sg_Len seg)"
  shows "kcp_Input (segment_header seg @ payload) stale k =
    (if unat (sg_Len seg) > length payload + length stale then Panic
     else Return (0, input_segment (seg\<lparr>sg_xmit := 0, sg_Data := take (unat (sg_Len seg)) (payload @ stale)\<rparr>) k))"
proof -
  let ?d = "segment_header seg @ payload" and ?n = "unat (sg_Len seg)"
  have "input_loop ?d stale 0 k =
      go_bind (go_slice (?d @ stale) (int 24) (int (24 + ?n)))
        (\<lambda>d. input_loop ?d stale (24 + ?n) (input_segment (seg\<lparr>sg_xmit := 0, sg_Data := d\<rparr>) k))"
    using assms by (subst input_loop.simps) (simp add: parse_segment_header Let_def)
  moreover have "go_slice (?d @ stale) (int 24) (int (24 + ?n)) =
      (if ?n > length payload + length stale then Panic else Return (take ?n (payload @ stale)))"
    by (simp only: slice_of_nat) auto
  moreover have "input_loop ?d stale (24 + ?n) k' = Return k'" for k'
    using assms by (subst input_loop.simps) simp
  ultimately show ?thesis
    by (simp add: kcp_Input_def)
qed

end
