(* ===== verification/Xhttp.thy ===== *)
theory Xhttp
  imports Session "HOL-Library.AList"
begin

text \<open>
  \<open>app/transport/xhttp.go\<close>: streams over one connection with 12-byte frame headers, and the
  wrapper that uses one stream of a session as a \<open>net.Conn\<close>. As in \<open>Mux\<close>, an operation that
  holds a lock for its whole effect is one step, a call that waits is \<open>Blocks\<close>, and stream
  objects are addressed by their id. The buffered writer keeps its first error: every later
  write returns it. Dialling, listening and deadlines are left out; the configuration only
  sets buffer sizes, which do not show.
\<close>

section \<open>Frames\<close>

definition ErrXHTTPClosed :: error where "ErrXHTTPClosed = Error ''XHTTP: connection closed''"

definition XHTTPFrameData :: byte where [simp]: "XHTTPFrameData = 1"
definition XHTTPFramePing :: byte where [simp]: "XHTTPFramePing = 2"
definition XHTTPFramePong :: byte where [simp]: "XHTTPFramePong = 3"
definition XHTTPFrameClose :: byte where [simp]: "XHTTPFrameClose = 4"
definition XHTTPFrameReset :: byte where [simp]: "XHTTPFrameReset = 5"
definition XHTTPFrameGoAway :: byte where [simp]: "XHTTPFrameGoAway = 6"

type_synonym xframe = "byte \<times> u32 \<times> byte \<times> bytes"

definition xframe :: "xframe \<Rightarrow> bytes" where
  "xframe = (\<lambda>(frameType, streamID, flags, data).
     [frameType] @ put32 streamID @ put32 (word_of_nat (length data)) @ [flags, 0, 0] @ data)"

definition xread_frame :: "stream \<Rightarrow> (xframe \<times> stream) go" where
  "xread_frame s =
     go_bind (read_full 12 s) (\<lambda>(hdr, s1).
       let frameType = hdr ! 0;
           streamID = get32 (take 4 (drop 1 hdr));
           len = unat (get32 (take 4 (drop 5 hdr)));
           flags = hdr ! 9
       in go_map (\<lambda>(data, s2). ((frameType, streamID, flags, data), s2))
            (if len > 0 then read_full len s1 else Return ([], s1)))"

definition xframe_fits :: "xframe \<Rightarrow> bool" where
  "xframe_fits = (\<lambda>(_, _, _, data). length data < 2 ^ 32)"

lemma put32_bytes:
  "put32 w = [ucast (drop_bit 24 w), ucast (drop_bit 16 w), ucast (drop_bit 8 w), ucast w]"
  by (simp add: eval_nat_numeral)

lemma xread_xframe:
  assumes "xframe_fits f"
  shows "xread_frame (xframe f @ rest) = Return (f, rest)"
proof -
  obtain t i fl data where f: "f = (t, i, fl, data)"
    by (cases f) blast
  have len: "unat (word_of_nat (length data) :: u32) = length data"
    using assms by (simp add: f xframe_fits_def unat_of_nat)
  let ?hdr = "[t] @ put32 i @ put32 (word_of_nat (length data)) @ [fl, 0, 0]"
  have "xframe f @ rest = ?hdr @ (data @ rest)"
    by (simp add: f xframe_def)
  moreover have "read_full 12 (?hdr @ (data @ rest)) = Return (?hdr, data @ rest)"
    by (rule read_full_append) simp
  moreover have "?hdr ! 0 = t" "take 4 (drop 1 ?hdr) = put32 i"
    "take 4 (drop 5 ?hdr) = put32 (word_of_nat (length data))" "?hdr ! 9 = fl"
    by (simp_all add: nth_append nth_Cons')
  ultimately show ?thesis
    by (simp only: xread_frame_def go_bind.simps prod.case Let_def get32_put32 len f) simp
qed

interpretation xhttp_framing: framing xframe xread_frame xframe_fits
proof
  fix s f s'
  assume "xread_frame s = Return (f, s')"
  then show "length s' < length s"
    by (auto simp: xread_frame_def Let_def go_bind_Return_iff go_map_Return_iff read_full_Return_iff split: if_splits)
qed (rule xread_xframe)

section \<open>The connection\<close>

record xstream =
  xs_buf :: bytes
  xs_closed :: bool

record xconn =
  xc_in :: stream
  xc_out :: bytes
  xc_outcomes :: "(error \<times> nat) option list"
  xc_werr :: "error option"
  xc_connClosed :: bool
  xc_streams :: "(u32 \<times> xstream) list"
  xc_nextID :: u32
  xc_closed :: bool
  xc_accept :: "u32 list"
  xc_loop :: loop_state

definition acceptCap :: nat where "acceptCap = 16"

definition NewXHTTPConnection :: "stream \<Rightarrow> (error \<times> nat) option list \<Rightarrow> xconn" where
  "NewXHTTPConnection input outcomes =
     \<lparr>xc_in = input, xc_out = [], xc_outcomes = outcomes, xc_werr = None, xc_connClosed = False,
      xc_streams = [], xc_nextID = 1, xc_closed = False, xc_accept = [], xc_loop = Running\<rparr>"

text \<open>
  A write through the buffered writer and its flush: the next outcome says whether the
  connection takes all of it, or fails after a number of bytes.
\<close>

definition buffered_write :: "bytes \<Rightarrow> xconn \<Rightarrow> xconn \<times> unit go" where
  "buffered_write bs s =
     (case xc_werr s of
        Some e \<Rightarrow> (s, Fail e)
      | None \<Rightarrow>
          (case xc_outcomes s of
             Some (e, m) # os \<Rightarrow> (s\<lparr>xc_out := xc_out s @ take m bs, xc_werr := Some e, xc_outcomes := os\<rparr>, Fail e)
           | os \<Rightarrow> (s\<lparr>xc_out := xc_out s @ bs, xc_outcomes := tl os\<rparr>, Return ())))"

definition writeFrame :: "u32 \<Rightarrow> byte \<Rightarrow> byte \<Rightarrow> bytes \<Rightarrow> xconn \<Rightarrow> xconn \<times> unit go" where
  "writeFrame streamID frameType flags data s =
     (if xc_closed s then (s, Fail ErrXHTTPClosed)
      else buffered_write (xframe (frameType, streamID, flags, data)) s)"

definition xput :: "u32 \<Rightarrow> xstream \<Rightarrow> xconn \<Rightarrow> xconn" where
  "xput i st s = s\<lparr>xc_streams := AList.update i st (xc_streams s)\<rparr>"

definition xhttp_OpenStream :: "xconn \<Rightarrow> xconn \<times> u32 go" where
  "xhttp_OpenStream s =
     (if xc_closed s then (s, Fail ErrXHTTPClosed)
      else let i = xc_nextID s
           in (xput i \<lparr>xs_buf = [], xs_closed = False\<rparr> (s\<lparr>xc_nextID := i + 2\<rparr>), Return i))"

text \<open>The argument \<open>pick\<close> is the choice of \<open>select\<close> when both cases are ready; \<open>Close\<close> ends the context.\<close>

definition xhttp_AcceptStream :: "bool \<Rightarrow> xconn \<Rightarrow> xconn \<times> u32 call" where
  "xhttp_AcceptStream pick s =
     (case xc_accept s of
        i # is \<Rightarrow> if xc_closed s \<and> \<not> pick then (s, Done (Fail ErrXHTTPClosed))
                 else (s\<lparr>xc_accept := is\<rparr>, Done (Return i))
      | [] \<Rightarrow> if xc_closed s then (s, Done (Fail ErrXHTTPClosed)) else (s, Blocks))"

section \<open>The read loop\<close>

definition xhttp_handleData :: "u32 \<Rightarrow> bytes \<Rightarrow> xconn \<Rightarrow> xconn" where
  "xhttp_handleData i data s =
     (case map_of (xc_streams s) i of
        Some st \<Rightarrow> xput i (st\<lparr>xs_buf := xs_buf st @ data\<rparr>) s
      | None \<Rightarrow>
          if i mod 2 = 0 then
            let s1 = xput i \<lparr>xs_buf = [], xs_closed = False\<rparr> s;
                s2 = (if length (xc_accept s1) < acceptCap then s1\<lparr>xc_accept := xc_accept s1 @ [i]\<rparr> else s1)
            in xput i \<lparr>xs_buf = data, xs_closed = False\<rparr> s2
          else s)"

definition xhttp_handleClose :: "u32 \<Rightarrow> xconn \<Rightarrow> xconn" where
  "xhttp_handleClose i s =
     (case map_of (xc_streams s) i of None \<Rightarrow> s | Some st \<Rightarrow> xput i (st\<lparr>xs_closed := True\<rparr>) s)"

text \<open>\<open>handleReset\<close> has the same body as \<open>handleClose\<close>.\<close>

definition xhttp_handleReset :: "u32 \<Rightarrow> xconn \<Rightarrow> xconn" where
  "xhttp_handleReset i s =
     (case map_of (xc_streams s) i of None \<Rightarrow> s | Some st \<Rightarrow> xput i (st\<lparr>xs_closed := True\<rparr>) s)"

text \<open>\<open>Close\<close> up to \<open>wg.Wait\<close>, which waits for the read loop; \<open>None\<close>: it was closed before and returns.\<close>

definition xhttp_Close_begin :: "xconn \<Rightarrow> xconn option" where
  "xhttp_Close_begin s = (if xc_closed s then None else Some (s\<lparr>xc_closed := True\<rparr>))"

definition xhttp_Close_end :: "xconn \<Rightarrow> xconn" where
  "xhttp_Close_end s = s\<lparr>xc_connClosed := True\<rparr>"

definition xhttp_loop_return :: "xconn \<Rightarrow> xconn" where
  "xhttp_loop_return s =
     (case xhttp_Close_begin s of
        None \<Rightarrow> s\<lparr>xc_loop := Finished\<rparr>
      | Some s1 \<Rightarrow> s1\<lparr>xc_loop := InClose\<rparr>)"

definition xhttp_dispatch :: "xframe \<Rightarrow> xconn \<Rightarrow> xconn" where
  "xhttp_dispatch f s =
     (case f of (t, i, flags, payload) \<Rightarrow>
        if t = XHTTPFrameData then xhttp_handleData i payload s
        else if t = XHTTPFramePing then fst (writeFrame 0 XHTTPFramePong 0 payload s)
        else if t = XHTTPFramePong then s
        else if t = XHTTPFrameClose then xhttp_handleClose i s
        else if t = XHTTPFrameReset then xhttp_handleReset i s
        else if t = XHTTPFrameGoAway then xhttp_loop_return s
        else s)"

definition xhttp_readLoop_turn :: "xconn \<Rightarrow> xconn" where
  "xhttp_readLoop_turn s =
     (if xc_closed s then xhttp_loop_return s
      else case xread_frame (xc_in s) of
             Return (f, rest) \<Rightarrow> xhttp_dispatch f (s\<lparr>xc_in := rest\<rparr>)
           | _ \<Rightarrow> xhttp_loop_return s)"

section \<open>Streams\<close>

text \<open>A stream object stays in the table, so that a call on it finds it there.\<close>

definition xstream_Read :: "u32 \<Rightarrow> nat \<Rightarrow> xconn \<Rightarrow> xconn \<times> bytes call" where
  "xstream_Read i n s =
     (case map_of (xc_streams s) i of
        None \<Rightarrow> (s, Done Panic)
      | Some st \<Rightarrow>
          if xs_buf st = [] then (if xs_closed st then (s, Done (Fail EOF)) else (s, Blocks))
          else (xput i (st\<lparr>xs_buf := drop n (xs_buf st)\<rparr>) s, Done (Return (take n (xs_buf st)))))"

definition xstream_Write :: "u32 \<Rightarrow> bytes \<Rightarrow> xconn \<Rightarrow> xconn \<times> nat go" where
  "xstream_Write i p s =
     (case map_of (xc_streams s) i of
        None \<Rightarrow> (s, Panic)
      | Some st \<Rightarrow>
          if xs_closed st then (s, Fail EOF)
          else apsnd (go_map (\<lambda>_. length p)) (writeFrame i XHTTPFrameData 0 p s))"

definition xstream_Close :: "u32 \<Rightarrow> xconn \<Rightarrow> xconn" where
  "xstream_Close i s =
     (case map_of (xc_streams s) i of
        None \<Rightarrow> s
      | Some st \<Rightarrow>
          if xs_closed st then s
          else fst (writeFrame i XHTTPFrameClose 0 [] (xput i (st\<lparr>xs_closed := True\<rparr>) s)))"

section \<open>The wrapper\<close>

record wrapper =
  xw_conn :: xconn
  xw_stream :: "u32 option"

definition xw_Read :: "bool \<Rightarrow> nat \<Rightarrow> wrapper \<Rightarrow> wrapper \<times> bytes call" where
  "xw_Read pick n w =
     (case xw_stream w of
        Some i \<Rightarrow> (case xstream_Read i n (xw_conn w) of (s, r) \<Rightarrow> (w\<lparr>xw_conn := s\<rparr>, r))
      | None \<Rightarrow>
          (case xhttp_AcceptStream pick (xw_conn w) of
             (s, Blocks) \<Rightarrow> (w\<lparr>xw_conn := s\<rparr>, Blocks)
           | (s, Done (Fail e)) \<Rightarrow> (w\<lparr>xw_conn := s\<rparr>, Done (Fail e))
           | (s, Done Panic) \<Rightarrow> (w\<lparr>xw_conn := s\<rparr>, Done Panic)
           | (s, Done (Return i)) \<Rightarrow>
               (case xstream_Read i n s of (s', r) \<Rightarrow> (w\<lparr>xw_conn := s', xw_stream := Some i\<rparr>, r))))"

definition xw_Write :: "bytes \<Rightarrow> wrapper \<Rightarrow> wrapper \<times> nat go" where
  "xw_Write p w =
     (case xw_stream w of
        Some i \<Rightarrow> (case xstream_Write i p (xw_conn w) of (s, r) \<Rightarrow> (w\<lparr>xw_conn := s\<rparr>, r))
      | None \<Rightarrow>
          (case xhttp_OpenStream (xw_conn w) of
             (s, Fail e) \<Rightarrow> (w\<lparr>xw_conn := s\<rparr>, Fail e)
           | (s, Panic) \<Rightarrow> (w\<lparr>xw_conn := s\<rparr>, Panic)
           | (s, Return i) \<Rightarrow>
               (case xstream_Write i p s of (s', r) \<Rightarrow> (w\<lparr>xw_conn := s', xw_stream := Some i\<rparr>, r))))"

text \<open>\<open>Close\<close> of the wrapper up to the wait of the connection's \<open>Close\<close>.\<close>

definition xw_Close_begin :: "wrapper \<Rightarrow> wrapper \<times> bool" where
  "xw_Close_begin w =
     (let s = (case xw_stream w of Some i \<Rightarrow> xstream_Close i (xw_conn w) | None \<Rightarrow> xw_conn w)
      in case xhttp_Close_begin s of
           None \<Rightarrow> (w\<lparr>xw_conn := s\<rparr>, False)
         | Some s' \<Rightarrow> (w\<lparr>xw_conn := s'\<rparr>, True))"

section \<open>Streams are lossless queues\<close>

text \<open>Data frames for any stream arrive while one stream is read.\<close>

datatype xevent = Arrives u32 bytes | Reads nat

fun xs_run :: "u32 \<Rightarrow> xevent list \<Rightarrow> xconn \<Rightarrow> xconn \<times> bytes" where
  "xs_run i [] s = (s, [])"
| "xs_run i (Arrives j d # es) s = xs_run i es (xhttp_handleData j d s)"
| "xs_run i (Reads n # es) s =
     (case xstream_Read i n s of
        (s', Done (Return out)) \<Rightarrow> apsnd (append out) (xs_run i es s')
      | (s', _) \<Rightarrow> xs_run i es s')"

fun arrived :: "u32 \<Rightarrow> xevent list \<Rightarrow> bytes" where
  "arrived i [] = []"
| "arrived i (Arrives j d # es) = (if j = i then d else []) @ arrived i es"
| "arrived i (Reads n # es) = arrived i es"

lemma map_of_xput [simp]: "map_of (xc_streams (xput i st s)) = (map_of (xc_streams s))(i \<mapsto> st)"
  by (simp add: xput_def update_conv')

lemma handleData_lookup:
  "map_of (xc_streams s) i = Some st \<Longrightarrow>
     map_of (xc_streams (xhttp_handleData j d s)) i =
       Some (if j = i then st\<lparr>xs_buf := xs_buf st @ d\<rparr> else st)"
  by (auto simp: xhttp_handleData_def Let_def split: option.split)

lemma xs_run_queue:
  "map_of (xc_streams s) i = Some st \<Longrightarrow>
     \<exists>st'. map_of (xc_streams (fst (xs_run i es s))) i = Some st' \<and>
       snd (xs_run i es s) @ xs_buf st' = xs_buf st @ arrived i es"
proof (induction i es s arbitrary: st rule: xs_run.induct)
  case (2 i j d es s)
  show ?case
    using 2(1) [OF handleData_lookup [OF 2(2)]] by auto
next
  case (3 i n es s)
  show ?case
  proof (cases "xs_buf st = []")
    case True
    then have "xstream_Read i n s = (s, if xs_closed st then Done (Fail EOF) else Blocks)"
      using "3.prems" by (simp add: xstream_Read_def)
    then show ?thesis
      using "3.IH"(2,4) "3.prems" by (cases "xs_closed st") auto
  next
    case False
    let ?s = "xput i (st\<lparr>xs_buf := drop n (xs_buf st)\<rparr>) s"
    have r: "xstream_Read i n s = (?s, Done (Return (take n (xs_buf st))))"
      using "3.prems" False by (simp add: xstream_Read_def)
    have "map_of (xc_streams ?s) i = Some (st\<lparr>xs_buf := drop n (xs_buf st)\<rparr>)"
      by simp
    from "3.IH"(1) [OF r [symmetric] refl refl this] show ?thesis
      by (auto simp: r case_prod_beta)
  qed
qed simp

text \<open>
  C10: the bytes read from a stream, followed by what it still buffers, are the bytes it held
  and then all that arrived for it, in order, under every interleaving of frames and reads.
\<close>
theorem xhttp_stream_lossless:
  assumes "map_of (xc_streams s) i = Some st" "xs_run i es s = (s', out)"
  shows "\<exists>st'. map_of (xc_streams s') i = Some st' \<and> out @ xs_buf st' = xs_buf st @ arrived i es"
  using xs_run_queue [OF assms(1), of es] assms(2) by simp

theorem xhttp_stream_lossless_witness:
  "\<exists>s' out st'. xs_run 1 [Arrives 1 [5, 6], Reads 1, Arrives 2 [9], Arrives 1 [7]]
       (fst (xhttp_OpenStream (NewXHTTPConnection [] []))) = (s', out) \<and>
     map_of (xc_streams s') 1 = Some st' \<and> out @ xs_buf st' = [5, 6, 7]"
proof -
  let ?s = "fst (xhttp_OpenStream (NewXHTTPConnection [] []))"
  let ?es = "[Arrives 1 [5, 6], Reads 1, Arrives 2 [9], Arrives 1 [7]]"
  have st: "map_of (xc_streams ?s) 1 = Some \<lparr>xs_buf = [], xs_closed = False\<rparr>"
    by (simp add: xhttp_OpenStream_def NewXHTTPConnection_def Let_def)
  obtain s' out where run: "xs_run 1 ?es ?s = (s', out)"
    by (cases "xs_run 1 ?es ?s") blast
  from xhttp_stream_lossless [OF st run] show ?thesis
    using run by (auto simp: st)
qed

section \<open>Two wrappers\<close>

definition wrap :: "stream \<Rightarrow> wrapper" where
  "wrap input = \<lparr>xw_conn = NewXHTTPConnection input [], xw_stream = None\<rparr>"

definition xw_writes :: "bytes list \<Rightarrow> wrapper \<Rightarrow> wrapper" where
  "xw_writes ps w = fold (\<lambda>p w. fst (xw_Write p w)) ps w"

text \<open>The read loop of an end takes in the next frames.\<close>

definition xw_turns :: "nat \<Rightarrow> wrapper \<Rightarrow> wrapper" where
  "xw_turns k w = w\<lparr>xw_conn := (xhttp_readLoop_turn ^^ k) (xw_conn w)\<rparr>"

abbreviation data_frames :: "bytes list \<Rightarrow> bytes" where
  "data_frames ps \<equiv> concat (map (\<lambda>p. xframe (XHTTPFrameData, 1, 0, p)) ps)"

text \<open>An end that has written \<open>qs\<close> on its stream 1, with \<open>input\<close> to take in and \<open>buf\<close> taken in.\<close>

definition spoken :: "bytes list \<Rightarrow> stream \<Rightarrow> bytes \<Rightarrow> wrapper" where
  "spoken qs input buf =
     \<lparr>xw_conn = (NewXHTTPConnection input [])\<lparr>xc_nextID := 3, xc_streams := [(1, \<lparr>xs_buf = buf, xs_closed = False\<rparr>)],
        xc_out := data_frames qs\<rparr>, xw_stream = Some 1\<rparr>"

lemma xw_writes_spoken: "qs \<noteq> [] \<Longrightarrow> xw_writes qs (wrap input) = spoken qs input []"
proof (induction qs rule: rev_induct)
  case (snoc q qs)
  then show ?case
    by (cases "qs = []")
      (simp_all add: xw_writes_def spoken_def wrap_def xw_Write_def xhttp_OpenStream_def
        NewXHTTPConnection_def xstream_Write_def writeFrame_def buffered_write_def xput_def Let_def)
qed simp

lemma xread_data_frame:
  "length p < 2 ^ 32 \<Longrightarrow>
     xread_frame (xframe (XHTTPFrameData, 1, 0, p) @ rest) = Return ((XHTTPFrameData, 1, 0, p), rest)"
  by (intro xhttp_framing.dec_enc) (simp add: xframe_fits_def)

text \<open>A data frame of stream 1 is dropped by an end that has not written, and kept by one that has.\<close>

lemma turns_drop:
  "list_all (\<lambda>p. length p < 2 ^ 32) ps \<Longrightarrow> xw_turns (length ps) (wrap (data_frames ps @ rest)) = wrap rest"
proof (induction ps)
  case (Cons p ps)
  have "xhttp_readLoop_turn (NewXHTTPConnection (xframe (XHTTPFrameData, 1, 0, p) @ input) []) =
      NewXHTTPConnection input []" for input
    using xread_data_frame [of p input] Cons.prems
    by (simp add: xhttp_readLoop_turn_def NewXHTTPConnection_def xhttp_dispatch_def xhttp_handleData_def)
  with Cons show ?case
    by (simp add: xw_turns_def wrap_def funpow_swap1 del: XHTTPFrameData_def)
qed (simp add: xw_turns_def)

lemma turns_keep:
  "list_all (\<lambda>p. length p < 2 ^ 32) ps \<Longrightarrow>
     xw_turns (length ps) (spoken qs (data_frames ps) buf) = spoken qs [] (buf @ concat ps)"
proof (induction ps arbitrary: buf)
  case (Cons p ps)
  have "xw_turns 1 (spoken qs (xframe (XHTTPFrameData, 1, 0, p) @ input) buf) = spoken qs input (buf @ p)" for input
    using xread_data_frame [of p input] Cons.prems
    by (simp add: xw_turns_def spoken_def xhttp_readLoop_turn_def NewXHTTPConnection_def xhttp_dispatch_def
        xhttp_handleData_def xput_def)
  with Cons show ?case
    by (simp add: xw_turns_def spoken_def funpow_swap1 del: XHTTPFrameData_def)
qed (simp add: xw_turns_def)

text \<open>
  C27: while the connection stays open, one end of the transport hears the other only after it has
  spoken itself. Messages are below 4 GiB. Everything an end
  writes travels in data frames of its stream 1; what the other end takes in before its own first
  write is dropped, since odd streams are not opened by the peer, and what it takes in afterwards
  arrives in its own stream 1. So a server that waits for its client's request before it answers
  never gets it: its read waits for ever.
\<close>
theorem xhttp_hears_after_speaking:
  fixes before after answers :: "bytes list"
  assumes "list_all (\<lambda>p. length p < 2 ^ 32) (before @ after)"
  defines "sent \<equiv> xc_out (xw_conn (xw_writes (before @ after) (wrap [])))"
  defines "server \<equiv> xw_turns (length after) (xw_writes answers (xw_turns (length before) (wrap sent)))"
  shows "snd (xw_Read pick n server) =
    (if answers = [] \<or> concat after = [] then Blocks else Done (Return (take n (concat after))))"
proof -
  have ok: "list_all (\<lambda>p. length p < 2 ^ 32) before" "list_all (\<lambda>p. length p < 2 ^ 32) after"
    using assms(1) by simp_all
  have "sent = data_frames before @ data_frames after"
  proof (cases "before @ after = []")
    case False
    then show ?thesis
      by (simp add: sent_def xw_writes_spoken) (simp add: spoken_def)
  qed (simp add: sent_def xw_writes_def wrap_def NewXHTTPConnection_def)
  then have "server = xw_turns (length after) (xw_writes answers (wrap (data_frames after)))"
    by (simp only: server_def turns_drop [OF ok(1)])
  then have "server = (if answers = [] then wrap [] else spoken answers [] (concat after))"
    using turns_drop [OF ok(2), of "[]"] turns_keep [OF ok(2), of answers "[]"]
    by (simp add: xw_writes_spoken) (simp add: xw_writes_def)
  then show ?thesis
    by (simp add: xw_Read_def wrap_def spoken_def xhttp_AcceptStream_def xstream_Read_def NewXHTTPConnection_def)
qed

theorem xhttp_hears_after_speaking_witness:
  "snd (xw_Read True 9 (xw_turns 1 (xw_turns 0 (wrap (xc_out (xw_conn (xw_writes [[1, 2]] (wrap [])))))))) = Blocks \<and>
   snd (xw_Read True 9 (xw_turns 1 (xw_writes [[7]] (xw_turns 0 (wrap (xc_out (xw_conn (xw_writes [[1, 2]] (wrap []))))))))) =
     Done (Return [1, 2])"
  using xhttp_hears_after_speaking [of "[]" "[[1, 2]]" True 9 "[]"]
    xhttp_hears_after_speaking [of "[]" "[[1, 2]]" True 9 "[[7]]"]
  by (simp add: xw_writes_def)

end
