(* ===== verification/Go_Strings.thy ===== *)
theory Go_Strings
  imports Go_Prelude
begin

text \<open>
  What the code uses of the library's packages \<open>strings\<close> and \<open>strconv\<close>: prefixes, trimming,
  splitting, decimal and hexadecimal numbers. A number is printed by \<open>decimal\<close> (\<open>Itoa\<close> with
  its sign) and read back by \<open>Atoi\<close>; the lemmas are their round trip and what the digits
  cannot contain.
\<close>

section \<open>Prefixes, trimming and splitting\<close>

definition HasPrefix :: "string \<Rightarrow> string \<Rightarrow> bool" where
  "HasPrefix s p \<longleftrightarrow> take (length p) s = p"

definition is_space :: "char \<Rightarrow> bool" where
  "is_space c \<longleftrightarrow> c \<in> {CHR '' '', CHR 0x09, CHR 0x0A, CHR 0x0B, CHR 0x0C, CHR 0x0D}"

definition TrimSpace :: "string \<Rightarrow> string" where
  "TrimSpace s = rev (dropWhile is_space (rev (dropWhile is_space s)))"

fun split_on :: "char \<Rightarrow> string \<Rightarrow> string list" where
  "split_on c [] = [[]]"
| "split_on c (x # xs) =
     (if x = c then [] # split_on c xs
      else case split_on c xs of p # ps \<Rightarrow> (x # p) # ps | [] \<Rightarrow> [[x]])"

text \<open>What stands after the last occurrence of a character, and before it; the whole string when there is none.\<close>

definition after_last :: "char \<Rightarrow> string \<Rightarrow> string" where
  "after_last c s = rev (takeWhile (\<lambda>x. x \<noteq> c) (rev s))"

definition before_last :: "char \<Rightarrow> string \<Rightarrow> string" where
  "before_last c s = take (length s - length (after_last c s) - 1) s"

lemma after_last_append [simp]: "c \<notin> set t \<Longrightarrow> after_last c (s @ c # t) = t"
proof -
  assume "c \<notin> set t"
  then have "takeWhile (\<lambda>x. x \<noteq> c) (rev t @ c # rev s) = rev t"
    by (subst takeWhile_append2) auto
  then show ?thesis
    by (simp add: after_last_def)
qed

lemma before_last_append [simp]: "c \<notin> set t \<Longrightarrow> before_last c (s @ c # t) = s"
  by (simp add: before_last_def)

lemma split_on_nonempty [simp]: "split_on c s \<noteq> []"
  by (induction s) (auto split: list.split)

lemma split_on_none: "c \<notin> set s \<Longrightarrow> split_on c s = [s]"
  by (induction s) auto

lemma split_on_append: "c \<notin> set s \<Longrightarrow> split_on c (s @ c # t) = s # split_on c t"
  by (induction s) auto

section \<open>Decimal numbers\<close>

definition is_digit :: "char \<Rightarrow> bool" where
  "is_digit c \<longleftrightarrow> 48 \<le> (of_char c :: nat) \<and> (of_char c :: nat) \<le> 57"

fun decimal :: "nat \<Rightarrow> string" where
  "decimal n = (if n < 10 then [char_of (48 + n)] else decimal (n div 10) @ [char_of (48 + n mod 10)])"

declare decimal.simps [simp del]

lemma of_char_digit: "d < 10 \<Longrightarrow> (of_char (char_of (48 + d :: nat)) :: nat) = 48 + d"
  by (simp add: of_char_of)

lemma digit_char [simp]: "d < 10 \<Longrightarrow> is_digit (char_of (48 + d :: nat))"
  by (simp only: is_digit_def of_char_digit) simp

lemma decimal_digits: "list_all is_digit (decimal n) \<and> decimal n \<noteq> []"
proof (induction n rule: decimal.induct)
  case (1 n)
  then show ?case
    by (cases "n < 10") (simp_all add: decimal.simps [of n])
qed

lemma decimal_ne [simp]: "decimal n \<noteq> []"
  using decimal_digits by simp

lemma decimal_hd_last: "is_digit (hd (decimal n)) \<and> is_digit (last (decimal n))"
  using decimal_digits [of n] by (simp add: list_all_iff)

lemma in_decimal: "c \<in> set (decimal n) \<Longrightarrow> is_digit c"
  using decimal_digits [of n] by (auto simp: list_all_iff)

lemma not_in_decimal: "\<not> is_digit c \<Longrightarrow> c \<notin> set (decimal n)"
  using decimal_digits [of n] by (auto simp: list_all_iff)

definition digits_value :: "string \<Rightarrow> nat" where
  "digits_value ds = foldl (\<lambda>n c. n * 10 + (of_char c - 48)) 0 ds"

lemma digits_value_decimal [simp]: "digits_value (decimal n) = n"
proof (induction n rule: decimal.induct)
  case (1 n)
  show ?case
  proof (cases "n < 10")
    case True
    then show ?thesis
      by (simp add: decimal.simps [of n] digits_value_def of_char_digit)
  next
    case False
    moreover have "digits_value (ds @ [c]) = digits_value ds * 10 + (of_char c - 48)" for ds c
      by (simp add: digits_value_def)
    moreover have "(of_char (char_of (48 + n mod 10)) :: nat) = 48 + n mod 10"
      by (rule of_char_digit) simp
    ultimately show ?thesis
      using 1 by (simp add: decimal.simps [of n])
  qed
qed

definition Itoa :: "int \<Rightarrow> string" where
  "Itoa n = (if n < 0 then CHR ''-'' # decimal (nat (- n)) else decimal (nat n))"

text \<open>\<open>strconv.Atoi\<close> on a 64-bit platform.\<close>

definition Atoi :: "string \<Rightarrow> int go" where
  "Atoi s =
     (let (neg, ds) = (case s of c # r \<Rightarrow>
            if c = CHR ''-'' then (True, r) else if c = CHR ''+'' then (False, r) else (False, s) | [] \<Rightarrow> (False, []))
      in if ds = [] \<or> \<not> list_all is_digit ds then Fail (Error ''invalid syntax'')
         else let v = (if neg then - int (digits_value ds) else int (digits_value ds))
              in if - (2 ^ 63) \<le> v \<and> v < 2 ^ 63 then Return v else Fail (Error ''value out of range''))"

lemma Atoi_decimal: "int n < 2 ^ 63 \<Longrightarrow> Atoi (decimal n) = Return (int n)"
proof -
  assume n: "int n < 2 ^ 63"
  obtain c r where cr: "decimal n = c # r"
    using decimal_ne [of n] by (cases "decimal n") auto
  then have "is_digit c"
    using decimal_hd_last [of n] by simp
  then have "c \<noteq> CHR ''-''" "c \<noteq> CHR ''+''"
    by (auto simp: is_digit_def)
  then show ?thesis
    using n decimal_digits [of n] digits_value_decimal [of n]
    by (simp add: Atoi_def cr list_all_iff)
qed

text \<open>\<open>fmt.Sscanf(s, "%d", &n)\<close> with \<open>n\<close> zero before: the leading number, and zero when there is none or it is too long.\<close>

definition scan_int :: "string \<Rightarrow> int" where
  "scan_int s =
     (let t = dropWhile (\<lambda>c. is_space c \<and> c \<noteq> CHR 0x0A) s;
          sign = (case t of c # r \<Rightarrow> if c = CHR ''-'' \<or> c = CHR ''+'' then [c] else [] | [] \<Rightarrow> [])
      in case Atoi (sign @ takeWhile is_digit (drop (length sign) t)) of Return v \<Rightarrow> v | _ \<Rightarrow> 0)"

section \<open>Hexadecimal numbers\<close>

definition hex_digit :: "nat \<Rightarrow> char" where
  "hex_digit d = (if d < 10 then char_of (48 + d) else char_of (87 + d))"

fun hexadecimal :: "nat \<Rightarrow> string" where
  "hexadecimal n = (if n < 16 then [hex_digit n] else hexadecimal (n div 16) @ [hex_digit (n mod 16)])"

declare hexadecimal.simps [simp del]

definition hex_bytes :: "bytes \<Rightarrow> string" where
  "hex_bytes bs = concat (map (\<lambda>b. [hex_digit (unat b div 16), hex_digit (unat b mod 16)]) bs)"

definition is_hex :: "char \<Rightarrow> bool" where
  "is_hex c \<longleftrightarrow> is_digit c \<or> 97 \<le> (of_char c :: nat) \<and> (of_char c :: nat) \<le> 102"

lemma is_hex_hex_digit: "d < 16 \<Longrightarrow> is_hex (hex_digit d)"
  by (auto simp: is_hex_def hex_digit_def of_char_of)

lemma hexadecimal_digits: "list_all is_hex (hexadecimal n) \<and> hexadecimal n \<noteq> []"
proof (induction n rule: hexadecimal.induct)
  case (1 n)
  then show ?case
    by (cases "n < 16") (simp_all add: hexadecimal.simps [of n] is_hex_hex_digit)
qed

lemma in_hexadecimal: "c \<in> set (hexadecimal n) \<Longrightarrow> is_hex c"
  using hexadecimal_digits [of n] by (auto simp: list_all_iff)

lemma not_in_hexadecimal: "\<not> is_hex c \<Longrightarrow> c \<notin> set (hexadecimal n)"
  using hexadecimal_digits [of n] by (auto simp: list_all_iff)

end
