(* ===== verification/Websocket.thy ===== *)
theory Websocket
  imports Go_Strings
begin

text \<open>
  \<open>app/transport/websocket.go\<close> and \<open>app/transport/quic.go\<close>. The WebSocket connection makes a byte
  stream of messages; the messages come from the package \<open>gorilla/websocket\<close>, whose readers are
  the arguments \<open>rd\<close> (one read: the reader afterwards, the bytes, the error) and \<open>rem\<close> (what is
  left of the message), with the contract of \<open>io.Reader\<close> as \<open>reader_ok\<close>. Of the QUIC transport the
  settings handed to the package \<open>quic-go\<close> and the queue of accepted streams are modelled.
\<close>

section \<open>Dialling a WebSocket\<close>

record ws_settings =
  wo_Security :: string
  wo_Host :: string

text \<open>The URL that is dialled; the headers of the settings are passed on as they are.\<close>

definition ws_url :: "ws_settings option \<Rightarrow> bool \<Rightarrow> string \<Rightarrow> string \<Rightarrow> string" where
  "ws_url settings has_ws host path =
     (let scheme = (case settings of Some s \<Rightarrow> if wo_Security s = ''tls'' then ''wss'' else ''ws'' | None \<Rightarrow> ''ws'');
          h = (case settings of Some s \<Rightarrow> if has_ws \<and> wo_Host s \<noteq> [] then wo_Host s else host | None \<Rightarrow> host)
      in scheme @ ''://'' @ h @ path)"

section \<open>The connection\<close>

record 'r ws_conn =
  wc_messages :: "'r list"
  wc_reader :: "'r option"
  wc_end :: error
  wc_sent :: "bytes list"

text \<open>The first read of the next message; after the last one the connection's error is returned.\<close>

definition ws_next ::
  "(nat \<Rightarrow> 'r \<Rightarrow> 'r \<times> bytes \<times> error option) \<Rightarrow> nat \<Rightarrow> 'r ws_conn \<Rightarrow> 'r ws_conn \<times> bytes \<times> error option" where
  "ws_next rd k c =
     (case wc_messages c of
        [] \<Rightarrow> (c, [], Some (wc_end c))
      | m # ms \<Rightarrow>
          (let c1 = c\<lparr>wc_messages := ms\<rparr>
           in case rd k m of
                (r, out, None) \<Rightarrow> (c1\<lparr>wc_reader := Some r\<rparr>, out, None)
              | (r, out, Some e) \<Rightarrow> (c1, out, if e = EOF then None else Some e)))"

definition ws_Read ::
  "(nat \<Rightarrow> 'r \<Rightarrow> 'r \<times> bytes \<times> error option) \<Rightarrow> nat \<Rightarrow> 'r ws_conn \<Rightarrow> 'r ws_conn \<times> bytes \<times> error option" where
  "ws_Read rd k c =
     (case wc_reader c of
        None \<Rightarrow> ws_next rd k c
      | Some r \<Rightarrow>
          (case rd k r of
             (r1, out, err) \<Rightarrow>
               if err = Some EOF then
                 (let c1 = c\<lparr>wc_reader := None\<rparr> in if out \<noteq> [] then (c1, out, None) else ws_next rd k c1)
               else (c\<lparr>wc_reader := Some r1\<rparr>, out, err)))"

definition ws_Write :: "error option \<Rightarrow> bytes \<Rightarrow> 'r ws_conn \<Rightarrow> 'r ws_conn \<times> nat \<times> error option" where
  "ws_Write err p c =
     (case err of
        Some e \<Rightarrow> (c, 0, Some e)
      | None \<Rightarrow> (c\<lparr>wc_sent := wc_sent c @ [p]\<rparr>, length p, None))"

section \<open>The QUIC transport\<close>

record quic_tls =
  qt_ServerName :: string
  qt_InsecureSkipVerify :: bool
  qt_NextProtos :: "string list"

record quic_tls_settings =
  qs_ServerName :: string
  qs_AllowInsecure :: bool
  qs_ALPN :: "string list"

text \<open>The TLS settings of a dial: without settings no certificate is verified.\<close>

definition quic_dial_tls :: "quic_tls_settings option \<Rightarrow> quic_tls" where
  "quic_dial_tls settings =
     (case settings of
        None \<Rightarrow> \<lparr>qt_ServerName = [], qt_InsecureSkipVerify = True, qt_NextProtos = [''h2'', ''http/1.1'']\<rparr>
      | Some s \<Rightarrow> \<lparr>qt_ServerName = qs_ServerName s, qt_InsecureSkipVerify = qs_AllowInsecure s,
                   qt_NextProtos = (if length (qs_ALPN s) > 0 then qs_ALPN s else [''h2'', ''http/1.1''])\<rparr>)"

record 's quic_listener =
  ql_accept :: "'s list"
  ql_done :: bool
  ql_dropped :: "'s list"

text \<open>A stream a peer opened: queued, or closed when sixteen wait already.\<close>

definition quic_handle :: "'s \<Rightarrow> 's quic_listener \<Rightarrow> 's quic_listener" where
  "quic_handle s l =
     (if length (ql_accept l) < 16 then l\<lparr>ql_accept := ql_accept l @ [s]\<rparr>
      else l\<lparr>ql_dropped := ql_dropped l @ [s]\<rparr>)"

text \<open>
  \<open>Accept\<close> takes a stream or learns that the listener is closed; when both are possible the
  runtime chooses (\<open>prefer_stream\<close>). \<open>None\<close>: it waits.
\<close>

definition quic_Accept :: "bool \<Rightarrow> 's quic_listener \<Rightarrow> 's quic_listener \<times> 's go option" where
  "quic_Accept prefer_stream l =
     (case ql_accept l of
        s # ss \<Rightarrow>
          if ql_done l \<and> \<not> prefer_stream then (l, Some (Fail (Error ''quic listener closed'')))
          else (l\<lparr>ql_accept := ss\<rparr>, Some (Return s))
      | [] \<Rightarrow> (l, if ql_done l then Some (Fail (Error ''quic listener closed'')) else None))"

definition quic_Close :: "'s quic_listener \<Rightarrow> 's quic_listener" where
  "quic_Close l = l\<lparr>ql_done := True\<rparr>"

lemma quic_handle_bound: "length (ql_accept l) \<le> 16 \<Longrightarrow> length (ql_accept (quic_handle s l)) \<le> 16"
  by (simp add: quic_handle_def)

section \<open>Reading across messages\<close>

text \<open>
  The contract of a reader: what it returns is the next part of what is left, the only error is
  the end of the file with nothing left, and a read into a buffer that is not empty returns
  bytes or that error.
\<close>

definition reader_ok :: "(nat \<Rightarrow> 'r \<Rightarrow> 'r \<times> bytes \<times> error option) \<Rightarrow> ('r \<Rightarrow> bytes) \<Rightarrow> bool" where
  "reader_ok rd rem \<longleftrightarrow>
     (\<forall>k r r1 out err. rd k r = (r1, out, err) \<longrightarrow>
        length out \<le> k \<and> rem r = out @ rem r1 \<and> (err = None \<or> err = Some EOF \<and> rem r1 = []) \<and>
        (0 < k \<and> out = [] \<longrightarrow> err = Some EOF))"

definition ws_pending :: "('r \<Rightarrow> bytes) \<Rightarrow> 'r ws_conn \<Rightarrow> bytes" where
  "ws_pending rem c = (case wc_reader c of None \<Rightarrow> [] | Some r \<Rightarrow> rem r) @ concat (map rem (wc_messages c))"

text \<open>A client that reads with buffers of the given sizes until there is an error.\<close>

fun ws_reads ::
  "(nat \<Rightarrow> 'r \<Rightarrow> 'r \<times> bytes \<times> error option) \<Rightarrow> nat list \<Rightarrow> 'r ws_conn \<Rightarrow> bytes \<times> error option" where
  "ws_reads rd [] c = ([], None)"
| "ws_reads rd (k # ks) c =
     (case ws_Read rd k c of
        (c1, out, Some e) \<Rightarrow> (out, Some e)
      | (c1, out, None) \<Rightarrow> (case ws_reads rd ks c1 of (outs, err) \<Rightarrow> (out @ outs, err)))"

lemma ws_next_step:
  assumes "reader_ok rd rem" "ws_next rd k c = (c1, out, err)" "wc_reader c = None"
  shows "ws_pending rem c = out @ ws_pending rem c1 \<and> wc_end c1 = wc_end c \<and>
    (err = None \<and> length (wc_messages c1) < length (wc_messages c) \<or>
     err = Some (wc_end c) \<and> out = [] \<and> ws_pending rem c = [])"
proof (cases "wc_messages c")
  case Nil
  then show ?thesis
    using assms(2,3) by (auto simp: ws_next_def ws_pending_def)
next
  case (Cons m ms)
  obtain r o' e where rd: "rd k m = (r, o', e)"
    by (cases "rd k m")
  with assms(1) have "rem m = o' @ rem r" "e = None \<or> e = Some EOF \<and> rem r = []"
    unfolding reader_ok_def by blast+
  with rd show ?thesis
    using assms(2,3) Cons by (auto simp: ws_next_def ws_pending_def)
qed

lemma ws_Read_step:
  assumes ok: "reader_ok rd rem" and rd: "ws_Read rd k c = (c1, out, err)"
  shows "ws_pending rem c = out @ ws_pending rem c1 \<and> wc_end c1 = wc_end c \<and>
    (err = None \<and> (0 < k \<longrightarrow> length (ws_pending rem c1) + length (wc_messages c1) <
        length (ws_pending rem c) + length (wc_messages c)) \<or>
     err = Some (wc_end c) \<and> out = [] \<and> ws_pending rem c = [])"
proof (cases "wc_reader c")
  case None
  with rd have "ws_next rd k c = (c1, out, err)"
    by (simp add: ws_Read_def)
  from ws_next_step [OF ok this None] show ?thesis
    by auto
next
  case (Some r)
  obtain r1 o' e where r: "rd k r = (r1, o', e)"
    by (cases "rd k r")
  with ok have o': "rem r = o' @ rem r1" "e = None \<or> e = Some EOF \<and> rem r1 = []" "0 < k \<and> o' = [] \<longrightarrow> e = Some EOF"
    unfolding reader_ok_def by blast+
  show ?thesis
  proof (cases "e = Some EOF \<and> o' = []")
    case True
    with rd Some r have "ws_next rd k (c\<lparr>wc_reader := None\<rparr>) = (c1, out, err)"
      by (simp add: ws_Read_def)
    have "ws_pending rem c = ws_pending rem (c\<lparr>wc_reader := None\<rparr>)"
      using True o' Some by (simp add: ws_pending_def)
    with ws_next_step [OF ok \<open>ws_next rd k (c\<lparr>wc_reader := None\<rparr>) = (c1, out, err)\<close>] show ?thesis
      by auto
  next
    case False
    with rd Some r o' show ?thesis
      by (auto simp: ws_Read_def ws_pending_def)
  qed
qed

lemma ws_reads_prefix:
  assumes ok: "reader_ok rd rem" and "ws_reads rd ks c = (out, err)"
  shows "(\<exists>rest. ws_pending rem c = out @ rest) \<and>
    (err \<noteq> None \<longrightarrow> err = Some (wc_end c) \<and> out = ws_pending rem c) \<and>
    (list_all (\<lambda>k. 0 < k) ks \<and> length (ws_pending rem c) + length (wc_messages c) \<le> length ks \<longrightarrow>
       out = ws_pending rem c)"
  using assms(2)
proof (induction ks arbitrary: c out err)
  case Nil
  then show ?case
    by auto
next
  case (Cons k ks)
  obtain c1 o1 e1 where r: "ws_Read rd k c = (c1, o1, e1)"
    by (cases "ws_Read rd k c")
  note step = ws_Read_step [OF ok r]
  show ?case
  proof (cases e1)
    case (Some e)
    with step r Cons.prems show ?thesis
      by auto
  next
    case None
    obtain o2 e2 where rec: "ws_reads rd ks c1 = (o2, e2)"
      by (cases "ws_reads rd ks c1")
    with None r Cons.prems have "out = o1 @ o2" "err = e2"
      by simp_all
    moreover note Cons.IH [OF rec]
    ultimately show ?thesis
      using step None by auto
  qed
qed

text \<open>
  C9: a WebSocket connection is a transparent byte stream. Every write is one message of all
  its bytes; whatever sizes the peer reads with, and however the package cuts the messages into
  reads, it gets a prefix of what was written, an error only after all of it, and all of it with
  enough reads; messages of no bytes only cost a read.
\<close>

theorem ws_stream_transparent:
  assumes "reader_ok rd rem" "map rem messages = wc_sent sender"
    and "receiver = \<lparr>wc_messages = messages, wc_reader = None, wc_end = e, wc_sent = s\<rparr>"
    and "ws_reads rd ks receiver = (out, err)"
  shows "prefix out (concat (wc_sent sender)) \<and>
    (err \<noteq> None \<longrightarrow> err = Some e \<and> out = concat (wc_sent sender)) \<and>
    (list_all (\<lambda>k. 0 < k) ks \<and> length (concat (wc_sent sender)) + length (wc_sent sender) \<le> length ks \<longrightarrow>
       out = concat (wc_sent sender)) \<and>
    ws_Write None p sender = (sender\<lparr>wc_sent := wc_sent sender @ [p]\<rparr>, length p, None)"
proof -
  have "length messages = length (map rem messages)"
    by (simp only: length_map)
  also have "\<dots> = length (wc_sent sender)"
    by (simp only: assms(2))
  finally have "ws_pending rem receiver = concat (wc_sent sender)" "length (wc_messages receiver) = length (wc_sent sender)"
    by (simp_all only: ws_pending_def assms(2,3) ws_conn.simps option.case append_Nil)
  with ws_reads_prefix [OF assms(1,4)] show ?thesis
    by (auto simp: assms(3) ws_Write_def prefix_def)
qed

text \<open>A reader that gives at most three bytes at a time and the end on its own.\<close>

definition three_reader :: "nat \<Rightarrow> bytes \<Rightarrow> bytes \<times> bytes \<times> error option" where
  "three_reader k r = (if r = [] then ([], [], Some EOF) else (drop (min k 3) r, take (min k 3) r, None))"

theorem ws_stream_transparent_witness:
  "fst (ws_reads three_reader (replicate 9 2)
     \<lparr>wc_messages = [[1, 2, 3, 4], [], [5]], wc_reader = None, wc_end = Error ''closed'', wc_sent = []\<rparr>) = [1, 2, 3, 4, 5]"
proof -
  have "reader_ok three_reader id"
    by (auto simp: reader_ok_def three_reader_def split: if_splits)
  from ws_stream_transparent [OF this _ refl prod.collapse [symmetric], where messages = "[[1, 2, 3, 4], [], [5]]"
      and sender = "\<lparr>wc_messages = [] :: unit list, wc_reader = None, wc_end = EOF, wc_sent = [[1, 2, 3, 4], [], [5]]\<rparr>"
      and e = "Error ''closed''" and s = "[]" and ks = "replicate 9 2"]
  show ?thesis
    by (simp add: list_all_iff)
qed

end
