(* ===== verification/Listeners.thy ===== *)
theory Listeners
  imports Mkcp Xhttp Websocket
begin

text \<open>
  How connections of \<open>transport/mkcp.go\<close>, \<open>xhttp.go\<close>, \<open>websocket.go\<close> and \<open>quic.go\<close> begin and end: dialling,
  listening, accepting, and the life of a KCP connection with its two goroutines. What the
  system's sockets and the packages \<open>net/http\<close>, \<open>gorilla/websocket\<close> and \<open>quic-go\<close> return is an
  argument.
\<close>

section \<open>A KCP connection with its goroutines\<close>

text \<open>The read loop looks at \<open>done\<close>, waits in \<open>ReadFrom\<close>, or has returned.\<close>

datatype reader_at = Checking | InReadFrom | ReaderGone

record ksession =
  ks_conn :: kcp_conn
  ks_reader :: reader_at
  ks_ticking :: bool
  ks_closing :: bool
  ks_crashed :: bool

definition new_session :: "kcp_conn \<Rightarrow> ksession" where
  "new_session c = \<lparr>ks_conn = c, ks_reader = Checking, ks_ticking = True, ks_closing = False, ks_crashed = False\<rparr>"

text \<open>
  \<open>ks_closing\<close>: a call of \<open>Close\<close> waits for the two goroutines. A panic in either ends the program.
  A step is labelled with what the network or the ticker gives; the \<open>select\<close> of the update loop may
  take a tick although \<open>done\<close> is closed.
\<close>

datatype kevent = Quiet | Datagram bytes | SocketFails | Tick u32

inductive ks_step :: "ksession \<Rightarrow> kevent \<Rightarrow> ksession \<Rightarrow> bool" where
  check_open: "\<not> ks_crashed s \<Longrightarrow> ks_reader s = Checking \<Longrightarrow> \<not> kn_closed (ks_conn s) \<Longrightarrow>
    ks_step s Quiet (s\<lparr>ks_reader := InReadFrom\<rparr>)"
| check_done: "\<not> ks_crashed s \<Longrightarrow> ks_reader s = Checking \<Longrightarrow> kn_closed (ks_conn s) \<Longrightarrow>
    ks_step s Quiet (s\<lparr>ks_reader := ReaderGone\<rparr>)"
| received: "\<not> ks_crashed s \<Longrightarrow> ks_reader s = InReadFrom \<Longrightarrow> kconn_readLoop_turn d (ks_conn s) = Return c \<Longrightarrow>
    ks_step s (Datagram d) (s\<lparr>ks_conn := c, ks_reader := Checking\<rparr>)"
| received_panic: "\<not> ks_crashed s \<Longrightarrow> ks_reader s = InReadFrom \<Longrightarrow> kconn_readLoop_turn d (ks_conn s) = Panic \<Longrightarrow>
    ks_step s (Datagram d) (s\<lparr>ks_crashed := True\<rparr>)"
| read_fails: "\<not> ks_crashed s \<Longrightarrow> ks_reader s = InReadFrom \<Longrightarrow>
    ks_step s SocketFails (s\<lparr>ks_reader := ReaderGone\<rparr>)"
| ticks: "\<not> ks_crashed s \<Longrightarrow> ks_ticking s \<Longrightarrow> kcp_Update t (kn_state (ks_conn s)) = Return k \<Longrightarrow>
    ks_step s (Tick t) (s\<lparr>ks_conn := (ks_conn s)\<lparr>kn_state := k\<rparr>\<rparr>)"
| tick_panic: "\<not> ks_crashed s \<Longrightarrow> ks_ticking s \<Longrightarrow> kcp_Update t (kn_state (ks_conn s)) = Panic \<Longrightarrow>
    ks_step s (Tick t) (s\<lparr>ks_crashed := True\<rparr>)"
| ticker_done: "\<not> ks_crashed s \<Longrightarrow> ks_ticking s \<Longrightarrow> kn_closed (ks_conn s) \<Longrightarrow>
    ks_step s Quiet (s\<lparr>ks_ticking := False\<rparr>)"
| closes: "\<not> ks_crashed s \<Longrightarrow> \<not> kn_closed (ks_conn s) \<Longrightarrow>
    ks_step s Quiet (s\<lparr>ks_conn := (ks_conn s)\<lparr>kn_closed := True\<rparr>, ks_closing := True\<rparr>)"
| close_returns: "\<not> ks_crashed s \<Longrightarrow> ks_closing s \<Longrightarrow> ks_reader s = ReaderGone \<Longrightarrow> \<not> ks_ticking s \<Longrightarrow>
    ks_step s Quiet (s\<lparr>ks_closing := False\<rparr>)"

inductive ks_run :: "ksession \<Rightarrow> kevent list \<Rightarrow> ksession \<Rightarrow> bool" where
  Nil: "ks_run s [] s"
| Cons: "ks_step s e s1 \<Longrightarrow> ks_run s1 es s2 \<Longrightarrow> ks_run s (e # es) s2"

definition from_socket :: "kevent \<Rightarrow> bool" where
  "from_socket e \<longleftrightarrow> (case e of Datagram _ \<Rightarrow> True | SocketFails \<Rightarrow> True | _ \<Rightarrow> False)"

text \<open>While the socket gives nothing, a read loop in \<open>ReadFrom\<close> stays there and \<open>Close\<close> waits.\<close>

lemma stuck_step:
  "ks_step s e s' \<Longrightarrow> ks_reader s = InReadFrom \<Longrightarrow> ks_closing s \<Longrightarrow> \<not> from_socket e \<Longrightarrow>
    ks_reader s' = InReadFrom \<and> ks_closing s'"
  by (induction rule: ks_step.induct) (auto simp: from_socket_def)

lemma stuck_run:
  "ks_run s es s' \<Longrightarrow> ks_reader s = InReadFrom \<Longrightarrow> ks_closing s \<Longrightarrow> \<forall>e \<in> set es. \<not> from_socket e \<Longrightarrow>
    ks_reader s' = InReadFrom \<and> ks_closing s'"
  by (induction rule: ks_run.induct) (auto dest!: stuck_step)

lemma turn_closed: "kconn_readLoop_turn d c = Return c' \<Longrightarrow> kn_closed c' = kn_closed c"
  by (auto simp: kconn_readLoop_turn_def Let_def go_map_Return_iff)

text \<open>The update loop ends by itself.\<close>

lemma ticker_ends:
  assumes "\<not> ks_crashed s" "kn_closed (ks_conn s)" "ks_closing s" "ks_reader s = ReaderGone"
  shows "\<exists>es s'. ks_run s es s' \<and> \<not> ks_closing s' \<and> set es \<subseteq> {Quiet}"
proof (cases "ks_ticking s")
  case True
  have 1: "ks_step s Quiet (s\<lparr>ks_ticking := False\<rparr>)"
    using assms True by (intro ticker_done)
  have 2: "ks_step (s\<lparr>ks_ticking := False\<rparr>) Quiet (s\<lparr>ks_ticking := False, ks_closing := False\<rparr>)"
    using close_returns [of "s\<lparr>ks_ticking := False\<rparr>"] assms by simp
  show ?thesis
    using ks_run.Cons [OF 1 ks_run.Cons [OF 2 ks_run.Nil]] by fastforce
next
  case False
  then show ?thesis
    using ks_run.Cons [OF close_returns [OF assms(1,3,4)] ks_run.Nil] by fastforce
qed

lemma datagram_ends:
  assumes "\<not> ks_crashed s" "kn_closed (ks_conn s)" "ks_closing s" "ks_reader s = InReadFrom"
    and "kconn_readLoop_turn d (ks_conn s) = Return c"
  shows "\<exists>es s'. ks_run s (Datagram d # es) s' \<and> \<not> ks_closing s' \<and> set es \<subseteq> {Quiet}"
proof -
  define a where "a = s\<lparr>ks_conn := c, ks_reader := Checking\<rparr>"
  define b where "b = a\<lparr>ks_reader := ReaderGone\<rparr>"
  have 1: "ks_step s (Datagram d) a"
    unfolding a_def using assms by (intro received)
  have 2: "ks_step a Quiet b"
    unfolding b_def using assms turn_closed [OF assms(5)] by (intro check_done) (simp_all add: a_def)
  obtain es s' where "ks_run b es s'" "\<not> ks_closing s'" "set es \<subseteq> {Quiet}"
    using ticker_ends [of b] assms turn_closed [OF assms(5)] by (auto simp: a_def b_def)
  then show ?thesis
    using ks_run.Cons [OF 1 ks_run.Cons [OF 2]] by (metis insert_subset list.simps(15) singletonI)
qed

section \<open>Dialling and listening over KCP\<close>

definition ErrResolve :: error where "ErrResolve = Error ''mKCP: resolve addr''"
definition ErrDialUDP :: error where "ErrDialUDP = Error ''mKCP: dial udp''"

text \<open>The MTU of the configuration; without one, that of \<open>DefaultKCPConfig\<close>.\<close>

definition NewKCPTransport :: "nat option \<Rightarrow> nat" where
  "NewKCPTransport config = (case config of None \<Rightarrow> 1350 | Some mtu \<Rightarrow> mtu)"

definition kcp_Dial :: "unit go \<Rightarrow> unit go \<Rightarrow> u32 \<Rightarrow> nat \<Rightarrow> ksession go" where
  "kcp_Dial resolved dialed conv mtu =
     (case resolved of
        Fail e \<Rightarrow> Fail ErrResolve
      | Panic \<Rightarrow> Panic
      | Return _ \<Rightarrow>
          (case dialed of
             Fail e \<Rightarrow> Fail ErrDialUDP
           | Panic \<Rightarrow> Panic
           | Return _ \<Rightarrow> Return (new_session (NewKCPConn conv mtu))))"

record klistener =
  kl_accept :: "ksession list"
  kl_done :: bool

definition kcp_Listen :: "unit go \<Rightarrow> unit go \<Rightarrow> klistener go" where
  "kcp_Listen resolved listened =
     go_bind resolved (\<lambda>_. go_map (\<lambda>_. \<lparr>kl_accept = [], kl_done = False\<rparr>) listened)"

text \<open>\<open>None\<close>: the call waits; with both cases ready the runtime chooses.\<close>

definition kl_Accept :: "bool \<Rightarrow> klistener \<Rightarrow> klistener \<times> ksession go option" where
  "kl_Accept prefer_conn l =
     (case kl_accept l of
        c # cs \<Rightarrow> if kl_done l \<and> \<not> prefer_conn then (l, Some (Fail ErrKCPClosed))
                 else (l\<lparr>kl_accept := cs\<rparr>, Some (Return c))
      | [] \<Rightarrow> (l, if kl_done l then Some (Fail ErrKCPClosed) else None))"

definition kl_Close :: "klistener \<Rightarrow> klistener" where
  "kl_Close l = l\<lparr>kl_done := True\<rparr>"

text \<open>Every state of a listener after any calls: nothing ever fills the channel \<open>Accept\<close> reads.\<close>

inductive kl_reach :: "klistener \<Rightarrow> bool" where
  listened: "kcp_Listen resolved socket = Return l \<Longrightarrow> kl_reach l"
| accepted: "kl_reach l \<Longrightarrow> kl_reach (fst (kl_Accept pick l))"
| closed: "kl_reach l \<Longrightarrow> kl_reach (kl_Close l)"

lemma kl_reach_empty: "kl_reach l \<Longrightarrow> kl_accept l = []"
  by (induction rule: kl_reach.induct)
    (auto simp: kcp_Listen_def go_bind_Return_iff go_map_Return_iff kl_Accept_def kl_Close_def)

lemma kl_Accept_never:
  "kl_reach l \<Longrightarrow> snd (kl_Accept pick l) = (if kl_done l then Some (Fail ErrKCPClosed) else None)"
  by (simp add: kl_Accept_def kl_reach_empty)

section \<open>XHTTP\<close>

text \<open>
  Both ends wrap a TCP connection, given by what will be read from it and how its writes go; the
  first read or write chooses the stream.
\<close>

definition xhttp_wrap :: "stream \<times> (error \<times> nat) option list \<Rightarrow> wrapper" where
  "xhttp_wrap c = \<lparr>xw_conn = NewXHTTPConnection (fst c) (snd c), xw_stream = None\<rparr>"

definition xhttp_Dial :: "(stream \<times> (error \<times> nat) option list) go \<Rightarrow> wrapper go" where
  "xhttp_Dial dialed =
     (case dialed of
        Fail e \<Rightarrow> Fail (Error ''XHTTP: dial'')
      | Panic \<Rightarrow> Panic
      | Return c \<Rightarrow> Return (xhttp_wrap c))"

definition xhttp_Accept :: "(stream \<times> (error \<times> nat) option list) go \<Rightarrow> wrapper go" where
  "xhttp_Accept accepted = go_map xhttp_wrap accepted"

section \<open>WebSocket\<close>

text \<open>
  \<open>upgrade\<close> is \<open>Upgrader.Upgrade\<close> of the package \<open>gorilla/websocket\<close>, which has to take the connection over from
  the response writer: its first argument says whether the writer is a \<open>http.Hijacker\<close>. The writer
  of the listener has the methods \<open>Header\<close>, \<open>Write\<close> and \<open>WriteHeader\<close> only. The second result says whether
  the TCP connection was closed.
\<close>

definition writer_hijackable :: bool where
  "writer_hijackable = False"

definition ws_Accept ::
  "(stream \<Rightarrow> 'q go) \<Rightarrow> (bool \<Rightarrow> 'q \<Rightarrow> 'c go) \<Rightarrow> stream go \<Rightarrow> 'c go \<times> bool" where
  "ws_Accept read_request upgrade accepted =
     (case accepted of
        Fail e \<Rightarrow> (Fail e, False)
      | Panic \<Rightarrow> (Panic, False)
      | Return input \<Rightarrow>
          if length input < 4 then (Fail EOF, True)
          else (case read_request input of
                  Fail e \<Rightarrow> (Fail e, True)
                | Panic \<Rightarrow> (Panic, False)
                | Return req \<Rightarrow>
                    (case upgrade writer_hijackable req of
                       Fail e \<Rightarrow> (Fail e, True)
                     | Panic \<Rightarrow> (Panic, False)
                     | Return c \<Rightarrow> (Return c, False))))"

lemma ws_Accept_never:
  assumes "\<And>req. \<exists>e. upgrade False req = Fail e"
  shows "fst (ws_Accept read_request upgrade accepted) \<noteq> Return c"
  using assms
  by (auto simp: ws_Accept_def writer_hijackable_def split: go.split) (metis go.distinct(1))

section \<open>QUIC\<close>

text \<open>A dial: the connection, then a stream on it; a connection without a stream is closed.\<close>

definition NewQUICConn ::
  "(string \<Rightarrow> quic_tls \<Rightarrow> 'c go) \<Rightarrow> ('c \<Rightarrow> 's go) \<Rightarrow> string \<Rightarrow> quic_tls_settings option \<Rightarrow> ('c \<times> 's) go \<times> 'c option" where
  "NewQUICConn dial open_stream remote settings =
     (case dial remote (quic_dial_tls settings) of
        Fail e \<Rightarrow> (Fail (Error ''quic dial''), None)
      | Panic \<Rightarrow> (Panic, None)
      | Return c \<Rightarrow>
          (case open_stream c of
             Fail e \<Rightarrow> (Fail (Error ''quic open stream''), Some c)
           | Panic \<Rightarrow> (Panic, None)
           | Return s \<Rightarrow> (Return (c, s), None)))"

text \<open>The TLS settings of a listener: without a certificate of its own it has none.\<close>

record quic_server_tls =
  ql_certificate :: "string option"
  ql_NextProtos :: "string list"
  ql_ServerName :: string

record quic_server_settings =
  qv_certificates :: "(string \<times> string) list"
  qv_ALPN :: "string list"
  qv_ServerName :: string

definition quic_listen_tls ::
  "(string \<Rightarrow> string \<Rightarrow> string go) \<Rightarrow> quic_server_settings option \<Rightarrow> quic_server_tls go" where
  "quic_listen_tls load settings =
     (case settings of
        None \<Rightarrow> Return \<lparr>ql_certificate = None, ql_NextProtos = [''h2'', ''http/1.1''], ql_ServerName = []\<rparr>
      | Some s \<Rightarrow>
          let tls = (\<lambda>cert. \<lparr>ql_certificate = cert,
                ql_NextProtos = (if length (qv_ALPN s) > 0 then qv_ALPN s else [''h2'', ''http/1.1'']),
                ql_ServerName = qv_ServerName s\<rparr>)
          in (case qv_certificates s of
                (cert, key) # _ \<Rightarrow>
                  if cert \<noteq> [] \<and> key \<noteq> [] then go_map (\<lambda>c. tls (Some c)) (load cert key)
                  else Return (tls None)
              | [] \<Rightarrow> Return (tls None)))"

text \<open>
  The accept loop: a failed accept ends it only after \<open>Close\<close>, otherwise it accepts again at once.
  The result: the connections handed to their own goroutine, and whether the loop has ended.
\<close>

fun quic_acceptLoop :: "(bool \<times> 'c go) list \<Rightarrow> 'c list \<times> bool" where
  "quic_acceptLoop [] = ([], False)"
| "quic_acceptLoop ((is_done, Return c) # rs) = (case quic_acceptLoop rs of (cs, e) \<Rightarrow> (c # cs, e))"
| "quic_acceptLoop ((is_done, r) # rs) = (if is_done then ([], True) else quic_acceptLoop rs)"

lemma quic_loop_spins:
  "\<forall>(d, r) \<in> set rs. \<not> d \<and> (\<exists>e. r = Fail e) \<Longrightarrow> quic_acceptLoop rs = ([], False)"
  by (induction rs rule: quic_acceptLoop.induct) auto

section \<open>Properties\<close>

text \<open>
  C31: \<open>Close\<close> of a KCP connection whose read loop is in \<open>ReadFrom\<close> waits for the peer. The socket is
  never closed and has no deadline: as long as it gives neither a datagram nor an error, \<open>Close\<close> does
  not return, whatever else runs; and one more datagram that the session can take lets it return.
\<close>

theorem kcp_close_waits:
  assumes "\<not> ks_crashed s" "kn_closed (ks_conn s)" "ks_closing s" "ks_reader s = InReadFrom"
  shows "(\<forall>es s'. ks_run s es s' \<and> (\<forall>e \<in> set es. \<not> from_socket e) \<longrightarrow> ks_closing s') \<and>
    (\<forall>d c. kconn_readLoop_turn d (ks_conn s) = Return c \<longrightarrow>
       (\<exists>es s'. ks_run s (Datagram d # es) s' \<and> \<not> ks_closing s' \<and> set es \<subseteq> {Quiet}))"
  using stuck_run [OF _ assms(4,3)] datagram_ends [OF assms] by blast

theorem kcp_close_waits_witness:
  "\<exists>s. ks_run (new_session (NewKCPConn 7 1350)) [Quiet, Quiet] s \<and> ks_closing s \<and>
     (\<forall>es s'. ks_run s es s' \<and> (\<forall>e \<in> set es. \<not> from_socket e) \<longrightarrow> ks_closing s')"
proof -
  define a where "a = (new_session (NewKCPConn 7 1350))\<lparr>ks_reader := InReadFrom\<rparr>"
  define b where "b = a\<lparr>ks_conn := (ks_conn a)\<lparr>kn_closed := True\<rparr>, ks_closing := True\<rparr>"
  have 1: "ks_step (new_session (NewKCPConn 7 1350)) Quiet a"
    unfolding a_def by (rule check_open) (simp_all add: new_session_def NewKCPConn_def)
  have 2: "ks_step a Quiet b"
    unfolding b_def by (rule closes) (simp_all add: a_def new_session_def NewKCPConn_def)
  have "ks_run (new_session (NewKCPConn 7 1350)) [Quiet, Quiet] b"
    by (rule ks_run.Cons [OF 1 ks_run.Cons [OF 2 ks_run.Nil]])
  moreover have "ks_closing b"
    by (simp add: b_def)
  moreover have "\<forall>es s'. ks_run b es s' \<and> (\<forall>e \<in> set es. \<not> from_socket e) \<longrightarrow> ks_closing s'"
    by (rule conjunct1 [OF kcp_close_waits]) (simp_all add: a_def b_def new_session_def)
  ultimately show ?thesis
    by blast
qed

end
