(* ===== verification/Grpc.thy ===== *)
theory Grpc
  imports Go_Prelude
begin

text \<open>
  \<open>app/transport/grpc.go\<close>: a connection that puts every chunk of at most 64 KiB into a frame with
  a 4-byte length and a flag, with its two buffers. The connection below comes from the library's
  dialler or listener.
\<close>

section \<open>The connection\<close>

definition grpcFrameSize :: nat where [simp]: "grpcFrameSize = 5"
definition grpcMaxDataSize :: nat where "grpcMaxDataSize = 65536"

definition ErrGRPCClosed :: error where
  "ErrGRPCClosed = Error ''gRPC: connection closed''"

record grpc_config =
  gg_ServiceName :: string
  gg_MultiMode :: bool

record grpc_conn =
  gc_conn :: conn
  gc_config :: grpc_config
  gc_readBuf :: bytes
  gc_readPos :: nat
  gc_readLen :: nat
  gc_writeBuf :: bytes
  gc_closed :: bool

text \<open>The two settings override the defaults together.\<close>

definition grpc_config_of :: "(string \<times> bool) option \<Rightarrow> grpc_config" where
  "grpc_config_of settings =
     (case settings of
        None \<Rightarrow> \<lparr>gg_ServiceName = ''TunService'', gg_MultiMode = False\<rparr>
      | Some (name, multi) \<Rightarrow> \<lparr>gg_ServiceName = name, gg_MultiMode = multi\<rparr>)"

definition grpc_wrap :: "conn \<Rightarrow> grpc_config \<Rightarrow> grpc_conn" where
  "grpc_wrap c cfg =
     \<lparr>gc_conn = c, gc_config = cfg, gc_readBuf = replicate 65536 0, gc_readPos = 0, gc_readLen = 0,
      gc_writeBuf = replicate (grpcFrameSize + grpcMaxDataSize) 0, gc_closed = False\<rparr>"

definition NewGRPCConn :: "conn go \<Rightarrow> (string \<times> bool) option \<Rightarrow> grpc_conn go" where
  "NewGRPCConn dialed settings =
     (case dialed of
        Fail e \<Rightarrow> Fail (Error ''gRPC dial'')
      | Panic \<Rightarrow> Panic
      | Return c \<Rightarrow> Return (grpc_wrap c (grpc_config_of settings)))"

definition grpc_Accept :: "grpc_config \<Rightarrow> conn go \<Rightarrow> grpc_conn go" where
  "grpc_Accept cfg accepted = go_map (\<lambda>c. grpc_wrap c cfg) accepted"

section \<open>Reading\<close>

definition grpc_length :: "bytes \<Rightarrow> nat" where
  "grpc_length header = unat (get32 (take 4 header))"

definition grpc_grown :: "nat \<Rightarrow> bytes \<Rightarrow> bytes" where
  "grpc_grown n buf = (if n > length buf then replicate (n + 65536) 0 else buf)"

definition set_input :: "stream \<Rightarrow> grpc_conn \<Rightarrow> grpc_conn" where
  "set_input s c = c\<lparr>gc_conn := (gc_conn c)\<lparr>c_in := s\<rparr>\<rparr>"

definition grpc_drain :: "nat \<Rightarrow> grpc_conn \<Rightarrow> grpc_conn \<times> bytes go" where
  "grpc_drain k c =
     (case go_slice (gc_readBuf c) (int (gc_readPos c)) (int (gc_readPos c + gc_readLen c)) of
        Return src \<Rightarrow>
          let n = min k (length src); len = gc_readLen c - n
          in (c\<lparr>gc_readPos := (if len = 0 then 0 else gc_readPos c + n), gc_readLen := len\<rparr>, Return (take k src))
      | Fail e \<Rightarrow> (c, Fail e)
      | Panic \<Rightarrow> (c, Panic))"

definition grpc_Read :: "nat \<Rightarrow> grpc_conn \<Rightarrow> grpc_conn \<times> bytes go" where
  "grpc_Read k c =
     (if gc_closed c then (c, Fail ErrGRPCClosed)
      else if gc_readLen c > 0 then grpc_drain k c
      else case read_full grpcFrameSize (c_in (gc_conn c)) of
        Fail e \<Rightarrow> (set_input [] c, Fail e)
      | Panic \<Rightarrow> (c, Panic)
      | Return (header, s) \<Rightarrow>
          let dataLen = grpc_length header;
              c1 = c\<lparr>gc_readBuf := grpc_grown dataLen (gc_readBuf c)\<rparr>
          in (case read_full dataLen s of
                Fail e \<Rightarrow> (set_input [] (c1\<lparr>gc_readBuf := blit (gc_readBuf c1) 0 s\<rparr>), Fail e)
              | Panic \<Rightarrow> (c1, Panic)
              | Return (payload, rest) \<Rightarrow>
                  let n = min k dataLen; len = dataLen - n
                  in (set_input rest (c1\<lparr>gc_readBuf := blit (gc_readBuf c1) 0 payload,
                        gc_readPos := (if len = 0 then 0 else n), gc_readLen := len\<rparr>),
                      Return (take k payload))))"

section \<open>Writing\<close>

definition grpc_header :: "nat \<Rightarrow> bytes" where
  "grpc_header n = put32 (word_of_nat n) @ [0]"

text \<open>One chunk: header and data in one write when the buffer holds them, in two otherwise.\<close>

definition grpc_send :: "bytes \<Rightarrow> grpc_conn \<Rightarrow> grpc_conn \<times> error option" where
  "grpc_send chunk c =
     (let total = grpcFrameSize + length chunk
      in if total \<le> length (gc_writeBuf c) then
           let wb = blit (blit (gc_writeBuf c) 0 (grpc_header (length chunk))) grpcFrameSize chunk
           in (case conn_write (take total wb) (gc_conn c) of
                 (conn1, err) \<Rightarrow> (c\<lparr>gc_writeBuf := wb, gc_conn := conn1\<rparr>, err))
         else
           (case conn_write (grpc_header (length chunk)) (gc_conn c) of
              (conn1, Some e) \<Rightarrow> (c\<lparr>gc_conn := conn1\<rparr>, Some e)
            | (conn1, None) \<Rightarrow>
                (case conn_write chunk conn1 of (conn2, err) \<Rightarrow> (c\<lparr>gc_conn := conn2\<rparr>, err))))"

function grpc_write_loop :: "bytes \<Rightarrow> nat \<Rightarrow> grpc_conn \<Rightarrow> grpc_conn \<times> nat \<times> error option" where
  "grpc_write_loop p written c =
     (if p = [] then (c, written, None)
      else
        let k = (if length p > grpcMaxDataSize then grpcMaxDataSize else length p)
        in case grpc_send (take k p) c of
             (c1, Some e) \<Rightarrow> (c1, written, Some e)
           | (c1, None) \<Rightarrow> grpc_write_loop (drop k p) (written + k) c1)"
  by pat_completeness auto
termination
  by (relation "measure (\<lambda>(p, _). length p)") (auto simp: grpcMaxDataSize_def intro: diff_less)

declare grpc_write_loop.simps [simp del]

definition grpc_Write :: "bytes \<Rightarrow> grpc_conn \<Rightarrow> grpc_conn \<times> nat \<times> error option" where
  "grpc_Write p c = (if gc_closed c then (c, 0, Some ErrGRPCClosed) else grpc_write_loop p 0 c)"

definition grpc_Close :: "grpc_conn \<Rightarrow> grpc_conn" where
  "grpc_Close c = c\<lparr>gc_closed := True\<rparr>"

section \<open>Frames\<close>

definition grpc_frame :: "bytes \<Rightarrow> bytes" where
  "grpc_frame chunk = grpc_header (length chunk) @ chunk"

definition grpc_read_frame :: "stream \<Rightarrow> (bytes \<times> stream) go" where
  "grpc_read_frame s = go_bind (read_full grpcFrameSize s) (\<lambda>(header, s1). read_full (grpc_length header) s1)"

definition grpc_fits :: "bytes \<Rightarrow> bool" where
  "grpc_fits chunk \<longleftrightarrow> chunk \<noteq> [] \<and> length chunk \<le> grpcMaxDataSize"

definition gc_pending :: "grpc_conn \<Rightarrow> bytes" where
  "gc_pending c = take (gc_readLen c) (drop (gc_readPos c) (gc_readBuf c))"

definition gc_input :: "grpc_conn \<Rightarrow> stream" where
  "gc_input c = c_in (gc_conn c)"

definition gc_inv :: "grpc_conn \<Rightarrow> bool" where
  "gc_inv c \<longleftrightarrow> \<not> gc_closed c \<and> gc_readPos c + gc_readLen c \<le> length (gc_readBuf c)"

lemma length_grpc_header [simp]: "length (grpc_header n) = 5"
  by (simp add: grpc_header_def)

lemma grpc_length_header [simp]: "n \<le> grpcMaxDataSize \<Longrightarrow> grpc_length (grpc_header n) = n"
  by (simp add: grpc_length_def grpc_header_def grpcMaxDataSize_def unat_of_nat)

lemma length_grpc_grown: "n \<le> length (grpc_grown n buf)"
  by (simp add: grpc_grown_def)

interpretation grpc_reader: framed_reader grpc_frame grpc_read_frame grpc_fits
  "\<lambda>chunk. chunk" grpc_Read gc_pending gc_input gc_inv
proof
  fix chunk rest
  assume "grpc_fits chunk"
  then show "grpc_read_frame (grpc_frame chunk @ rest) = Return (chunk, rest)"
    by (simp add: grpc_read_frame_def grpc_frame_def grpc_fits_def)
next
  fix s x s'
  assume "grpc_read_frame s = Return (x, s')"
  then show "length s' < length s"
    by (auto simp: grpc_read_frame_def go_bind_Return_iff read_full_Return_iff)
next
  fix c k
  assume c: "gc_inv c" "gc_pending c \<noteq> []"
  have len: "length (gc_pending c) = gc_readLen c" "gc_readLen c > 0" "\<not> gc_closed c"
    using c by (auto simp: gc_inv_def gc_pending_def)
  have sl: "go_slice (gc_readBuf c) (int (gc_readPos c)) (int (gc_readPos c + gc_readLen c)) = Return (gc_pending c)"
    using c(1) unfolding slice_of_nat by (simp add: gc_inv_def gc_pending_def)
  define n where "n = min k (gc_readLen c)"
  define c' where "c' = c\<lparr>gc_readPos := (if gc_readLen c - n = 0 then 0 else gc_readPos c + n), gc_readLen := gc_readLen c - n\<rparr>"
  have "grpc_Read k c = (c', Return (take k (gc_pending c)))"
    using len(2,3) by (simp add: grpc_Read_def grpc_drain_def sl [simplified] len(1) Let_def n_def c'_def)
  moreover have "gc_inv c'" "gc_input c' = gc_input c"
    using c by (auto simp: gc_inv_def gc_input_def c'_def n_def)
  moreover have "gc_pending c' = drop k (gc_pending c)"
    by (auto simp: gc_pending_def c'_def n_def drop_take min_def add.commute)
  ultimately show "\<exists>c'. grpc_Read k c = (c', Return (take k (gc_pending c))) \<and> gc_inv c' \<and>
      gc_pending c' = drop k (gc_pending c) \<and> gc_input c' = gc_input c"
    by blast
next
  fix c k chunk rest
  assume c: "gc_inv c" "gc_pending c = []" "gc_input c = grpc_frame chunk @ rest" "grpc_fits chunk"
  have z: "gc_readLen c = 0" "\<not> gc_closed c"
    using c(1,2) by (auto simp: gc_inv_def gc_pending_def)
  let ?n = "length chunk" and ?buf = "grpc_grown (length chunk) (gc_readBuf c)"
  define c' where "c' = set_input rest (c\<lparr>gc_readBuf := blit ?buf 0 chunk,
    gc_readPos := (if ?n - min k ?n = 0 then 0 else min k ?n), gc_readLen := ?n - min k ?n\<rparr>)"
  have "grpc_Read k c = (c', Return (take k chunk))"
    using c(3,4) z by (simp add: grpc_Read_def gc_input_def grpc_frame_def grpc_fits_def Let_def c'_def)
  moreover have "?n \<le> length ?buf"
    by (rule length_grpc_grown)
  then have "gc_inv c'" "gc_input c' = rest" "gc_pending c' = drop k chunk"
    using z(2) by (auto simp: c'_def set_input_def gc_inv_def gc_input_def gc_pending_def blit_fits min_def)
  ultimately show "\<exists>c'. grpc_Read k c = (c', Return (take k chunk)) \<and> gc_inv c' \<and>
      gc_pending c' = drop k chunk \<and> gc_input c' = rest"
    by blast
next
  fix c k
  assume "gc_inv c" "gc_pending c = []" "gc_input c = []"
  then show "snd (grpc_Read k c) = Fail EOF"
    by (auto simp: grpc_Read_def gc_inv_def gc_pending_def gc_input_def read_full_def)
qed

section \<open>The stream is transparent\<close>

definition writer_ok :: "grpc_conn \<Rightarrow> bool" where
  "writer_ok c \<longleftrightarrow> \<not> gc_closed c \<and> c_werr (gc_conn c) = [] \<and> length (gc_writeBuf c) = grpcFrameSize + grpcMaxDataSize"

lemma grpc_send_frame:
  assumes "writer_ok c" "length chunk \<le> grpcMaxDataSize"
  shows "\<exists>c1. grpc_send chunk c = (c1, None) \<and> writer_ok c1 \<and> c_out (gc_conn c1) = c_out (gc_conn c) @ grpc_frame chunk"
proof -
  let ?wb = "blit (blit (gc_writeBuf c) 0 (grpc_header (length chunk))) grpcFrameSize chunk"
  have "take (grpcFrameSize + length chunk) ?wb = grpc_frame chunk" "length ?wb = length (gc_writeBuf c)"
    using assms by (simp_all add: writer_ok_def blit_fits grpc_frame_def)
  then show ?thesis
    using assms by (simp add: grpc_send_def writer_ok_def Let_def conn_write_def)
qed

lemma grpc_write_loop_frames:
  assumes "writer_ok c"
  shows "\<exists>c' chunks. grpc_write_loop p w c = (c', w + length p, None) \<and> writer_ok c' \<and>
    list_all grpc_fits chunks \<and> concat chunks = p \<and> c_out (gc_conn c') = c_out (gc_conn c) @ concat (map grpc_frame chunks)"
  using assms
proof (induction "length p" arbitrary: p w c rule: less_induct)
  case less
  show ?case
  proof (cases "p = []")
    case True
    with less.prems show ?thesis
      by (subst grpc_write_loop.simps) (auto intro!: exI [of _ "[]"])
  next
    case False
    define k where "k = (if length p > grpcMaxDataSize then grpcMaxDataSize else length p)"
    have k: "0 < k" "k \<le> length p" "k \<le> grpcMaxDataSize"
      using False by (auto simp: k_def grpcMaxDataSize_def)
    obtain c1 where c1: "grpc_send (take k p) c = (c1, None)" "writer_ok c1"
        "c_out (gc_conn c1) = c_out (gc_conn c) @ grpc_frame (take k p)"
      using grpc_send_frame [OF less.prems, of "take k p"] k by auto
    have "length (drop k p) < length p"
      using k by simp
    from less.hyps [OF this c1(2), of "w + k"] obtain c' chunks where c':
      "grpc_write_loop (drop k p) (w + k) c1 = (c', w + k + length (drop k p), None)" "writer_ok c'"
      "list_all grpc_fits chunks" "concat chunks = drop k p"
      "c_out (gc_conn c') = c_out (gc_conn c1) @ concat (map grpc_frame chunks)"
      by blast
    have "grpc_write_loop p w c = (c', w + length p, None)"
      using False c1(1) c'(1) k(2) by (subst grpc_write_loop.simps) (simp only: Let_def k_def [symmetric], simp)
    moreover have "grpc_fits (take k p)"
      using k False by (simp add: grpc_fits_def)
    ultimately show ?thesis
      using c' c1(3) by (intro exI [of _ c'] exI [of _ "take k p # chunks"]) simp
  qed
qed

text \<open>A writer's calls, with what each reports.\<close>

fun grpc_writes :: "bytes list \<Rightarrow> grpc_conn \<Rightarrow> grpc_conn \<times> (nat \<times> error option) list" where
  "grpc_writes [] c = (c, [])"
| "grpc_writes (p # ps) c =
     (case grpc_Write p c of (c', r) \<Rightarrow> apsnd (Cons r) (grpc_writes ps c'))"

lemma grpc_writes_frames:
  "writer_ok c \<Longrightarrow> \<exists>c' chunks. grpc_writes ps c = (c', map (\<lambda>p. (length p, None)) ps) \<and>
     list_all grpc_fits chunks \<and> concat chunks = concat ps \<and>
     c_out (gc_conn c') = c_out (gc_conn c) @ concat (map grpc_frame chunks)"
proof (induction ps arbitrary: c)
  case Nil
  then show ?case
    by (intro exI [of _ c] exI [of _ "[]"]) simp
next
  case (Cons p ps)
  obtain c1 xs where c1: "grpc_write_loop p 0 c = (c1, 0 + length p, None)" "writer_ok c1" "list_all grpc_fits xs"
      "concat xs = p" "c_out (gc_conn c1) = c_out (gc_conn c) @ concat (map grpc_frame xs)"
    using grpc_write_loop_frames [OF Cons.prems] by blast
  obtain c' ys where c': "grpc_writes ps c1 = (c', map (\<lambda>p. (length p, None)) ps)" "list_all grpc_fits ys"
      "concat ys = concat ps" "c_out (gc_conn c') = c_out (gc_conn c1) @ concat (map grpc_frame ys)"
    using Cons.IH [OF c1(2)] by blast
  then show ?case
    using c1 Cons.prems
    by (intro exI [of _ c'] exI [of _ "xs @ ys"]) (simp add: grpc_Write_def writer_ok_def)
qed

lemma fits_length: "list_all grpc_fits chunks \<Longrightarrow> length chunks \<le> length (concat chunks)"
proof (induction chunks)
  case (Cons x xs)
  then show ?case
    by (cases x) (auto simp: grpc_fits_def)
qed simp

text \<open>
  C8: two connections of this transport form one byte stream: every write reports all of its
  bytes, however long; what the other side delivers, for any sequence of buffer sizes, is a
  prefix of what was written, and with enough reads it is all of it.
\<close>

theorem grpc_stream_transparent:
  assumes "NewGRPCConn (Return \<lparr>c_in = inp, c_out = [], c_werr = []\<rparr>) settings = Return w"
    and "grpc_writes ps w = (w', rs)"
    and "grpc_Accept cfg (Return \<lparr>c_in = c_out (gc_conn w'), c_out = [], c_werr = es\<rparr>) = Return r"
  shows "rs = map (\<lambda>p. (length p, None)) ps \<and>
    (\<exists>out. reads grpc_Read ks r = Return out \<and> prefix out (concat ps) \<and>
      (list_all (\<lambda>k. k > 0) ks \<and> 2 * length (concat ps) \<le> length ks \<longrightarrow> out = concat ps))"
proof -
  have "writer_ok w" "c_out (gc_conn w) = []"
    using assms(1) by (auto simp: NewGRPCConn_def grpc_wrap_def writer_ok_def)
  then obtain chunks where w: "rs = map (\<lambda>p. (length p, None)) ps" "list_all grpc_fits chunks"
      "concat chunks = concat ps" "c_out (gc_conn w') = concat (map grpc_frame chunks)"
    using grpc_writes_frames [of w ps] assms(2) by auto
  have r: "gc_inv r" "gc_input r = concat (map grpc_frame chunks)" "gc_pending r = []"
    using assms(3) w(4) by (auto simp: grpc_Accept_def grpc_wrap_def gc_inv_def gc_input_def gc_pending_def)
  from grpc_reader.reads_prefix [OF r(1,2) w(2), of ks] show ?thesis
    using w(1,3) fits_length [OF w(2)] by (auto simp: r(3))
qed

theorem grpc_stream_transparent_witness:
  "\<exists>w w' r. NewGRPCConn (Return \<lparr>c_in = [], c_out = [], c_werr = []\<rparr>) None = Return w \<and>
     grpc_writes [[1, 2, 3], [], [4]] w = (w', [(3, None), (0, None), (1, None)]) \<and>
     grpc_Accept (gc_config w) (Return \<lparr>c_in = c_out (gc_conn w'), c_out = [], c_werr = []\<rparr>) = Return r \<and>
     reads grpc_Read (replicate 8 2) r = Return [1, 2, 3, 4]"
proof -
  obtain w where w: "NewGRPCConn (Return \<lparr>c_in = [], c_out = [], c_werr = []\<rparr>) None = Return w"
    by (simp add: NewGRPCConn_def)
  obtain w' rs where ws: "grpc_writes [[1, 2, 3], [], [4]] w = (w', rs)"
    by (metis surj_pair)
  obtain r where r: "grpc_Accept (gc_config w) (Return \<lparr>c_in = c_out (gc_conn w'), c_out = [], c_werr = []\<rparr>) = Return r"
    by (simp add: grpc_Accept_def)
  from grpc_stream_transparent [OF w ws r, of "replicate 8 2"] w ws r show ?thesis
    by (auto simp: list_all_iff)
qed

end
