(* ===== verification/Dccp_Packet.thy ===== *)
theory Dccp_Packet
  imports Go_Prelude
begin

text \<open>
  \<open>app/transport/dccp/dccp.go\<close> and \<open>packet.go\<close>: the packet constants, the header and option
  records, the encoder, the decoder with its option parser, the Internet checksum, the
  packet builders and the stream reader. The lemmas give the byte layout of every packet
  the encoder can build, the exact inputs on which encoder and decoder panic, the round
  trip, and what the checksum guarantees.
\<close>

section \<open>Constants and types\<close>

definition ErrPacketTooSmall :: error where
  "ErrPacketTooSmall = Error ''dccp: packet too small''"

definition ErrInvalidOption :: error where
  "ErrInvalidOption = Error ''dccp: invalid option''"

definition HeaderSize :: nat where [simp]: "HeaderSize = 12"

text \<open>\<open>PacketType\<close>, \<open>CCID\<close> and \<open>OptionType\<close> are named bytes; any byte may occur on the wire.\<close>

type_synonym packet_type = byte
type_synonym ccid = byte
type_synonym option_type = byte
type_synonym service_code = bytes

definition PktDCCPRequest :: packet_type where [simp]: "PktDCCPRequest = 0"
definition PktDCCPResponse :: packet_type where [simp]: "PktDCCPResponse = 1"
definition PktDCCPData :: packet_type where [simp]: "PktDCCPData = 2"
definition PktDCCPAck :: packet_type where [simp]: "PktDCCPAck = 3"
definition PktDCCPDataAck :: packet_type where [simp]: "PktDCCPDataAck = 4"
definition PktDCCPCloseReq :: packet_type where [simp]: "PktDCCPCloseReq = 5"
definition PktDCCPClose :: packet_type where [simp]: "PktDCCPClose = 6"
definition PktDCCPReset :: packet_type where [simp]: "PktDCCPReset = 7"
definition PktDCCPSync :: packet_type where [simp]: "PktDCCPSync = 8"
definition PktDCCPSyncAck :: packet_type where [simp]: "PktDCCPSyncAck = 9"

definition CCID2 :: ccid where [simp]: "CCID2 = 2"
definition CCID3 :: ccid where [simp]: "CCID3 = 3"
definition CCID4 :: ccid where [simp]: "CCID4 = 4"

definition OptPadding :: option_type where [simp]: "OptPadding = 0"
definition OptSlowReceiver :: option_type where [simp]: "OptSlowReceiver = 2"
definition OptChangeL :: option_type where [simp]: "OptChangeL = 32"
definition OptConfirmL :: option_type where [simp]: "OptConfirmL = 33"
definition OptChangeR :: option_type where [simp]: "OptChangeR = 34"
definition OptConfirmR :: option_type where [simp]: "OptConfirmR = 35"
definition OptAckVector :: option_type where [simp]: "OptAckVector = 37"
definition OptDataDropped :: option_type where [simp]: "OptDataDropped = 39"
definition OptTimestamp :: option_type where [simp]: "OptTimestamp = 40"
definition OptTimestampEcho :: option_type where [simp]: "OptTimestampEcho = 41"
definition OptElapsedTime :: option_type where [simp]: "OptElapsedTime = 42"
definition OptDataChecksum :: option_type where [simp]: "OptDataChecksum = 43"
definition OptMinCSUM :: option_type where [simp]: "OptMinCSUM = 44"
definition OptInitCookie :: option_type where [simp]: "OptInitCookie = 45"
definition OptFeature :: option_type where [simp]: "OptFeature = 46"
definition OptFeatureAck :: option_type where [simp]: "OptFeatureAck = 47"

record dccp_header =
  h_src :: u16
  h_dst :: u16
  h_off :: byte
  h_ccval :: byte
  h_cov :: u16
  h_sum :: u16
  h_res :: byte
  h_type :: packet_type
  h_ext :: byte
  h_seq :: u64

definition SetExtendedSequence :: "dccp_header \<Rightarrow> u64 \<Rightarrow> dccp_header" where
  "SetExtendedSequence h sq = h\<lparr>h_ext := 1, h_seq := sq\<rparr>"

definition GetSequenceNumber :: "dccp_header \<Rightarrow> u64" where
  "GetSequenceNumber h = h_seq h"

record dccp_option =
  o_type :: option_type
  o_len :: byte
  o_data :: bytes

section \<open>Checksum\<close>

text \<open>
  The sum runs over the 16-bit words of the data in a \<open>uint32\<close>, an odd last byte counts as
  the high byte of a word, and the carries are folded back until the sum fits 16 bits.
\<close>

fun checksum_sum :: "bytes \<Rightarrow> u32 \<Rightarrow> u32" where
  "checksum_sum (a # b # rest) s = checksum_sum rest (s + ucast (get16 [a, b]))"
| "checksum_sum [a] s = s + push_bit 8 (ucast a)"
| "checksum_sum [] s = s"

text \<open>Folding the carries shrinks the sum, so the loop ends.\<close>

lemma unat_low_high:
  fixes s :: u32
  shows "unat (s AND 0xFFFF) = unat s mod 65536" and "unat (drop_bit 16 s) = unat s div 65536"
proof -
  have "s AND 0xFFFF = take_bit 16 s"
    by (simp add: take_bit_eq_mask mask_eq_exp_minus_1)
  then show "unat (s AND 0xFFFF) = unat s mod 65536"
    by (simp add: unat_mod_distrib take_bit_eq_mod)
  show "unat (drop_bit 16 s) = unat s div 65536"
    by (simp add: unat_div_distrib drop_bit_eq_div)
qed

lemma unat_carry_fold:
  fixes s :: u32
  shows "unat ((s AND 0xFFFF) + drop_bit 16 s) = unat s mod 65536 + unat s div 65536"
proof -
  have "unat s div 65536 < 65536"
    using unat_bound [of s] by simp
  then have "unat s mod 65536 + unat s div 65536 < 2 ^ 32"
    using mod_less_divisor [of 65536 "unat s"] by simp
  then show ?thesis
    by (simp add: unat_word_ariths unat_low_high)
qed

lemma carry_fold_less:
  fixes s :: u32
  assumes "drop_bit 16 s \<noteq> 0"
  shows "unat ((s AND 0xFFFF) + drop_bit 16 s) < unat s"
proof -
  have "unat s div 65536 \<noteq> 0"
    using assms unat_low_high(2) [of s] by (metis unat_eq_zero)
  then have "unat s mod 65536 + unat s div 65536 < unat s"
    using div_mult_mod_eq [of "unat s" 65536] by linarith
  then show ?thesis by (simp add: unat_carry_fold)
qed

function checksum_fold :: "u32 \<Rightarrow> u32" where
  "checksum_fold s =
     (if drop_bit 16 s \<noteq> 0 then checksum_fold ((s AND 0xFFFF) + drop_bit 16 s) else s)"
  by pat_completeness auto
termination
  by (relation "measure unat") (auto intro: carry_fold_less)

declare checksum_fold.simps [simp del]

definition computeChecksum :: "bytes \<Rightarrow> u16" where
  "computeChecksum data = NOT (ucast (checksum_fold (checksum_sum data 0)))"

section \<open>Encoder\<close>

fun encode_options :: "bytes \<Rightarrow> nat \<Rightarrow> dccp_option list \<Rightarrow> (bytes \<times> nat) go" where
  "encode_options b off [] = Return (b, off)"
| "encode_options b off (opt # opts) =
     (if off + 1 < length b then
        let b1 = b[off := o_type opt, off + 1 := o_len opt];
            l = unat (o_len opt)
        in go_bind (go_slice b1 (int (off + 2)) (int (off + l))) (\<lambda>dst.
             encode_options (blit b1 (off + 2) (take (length dst) (o_data opt))) (off + l) opts)
      else Panic)"

definition options_size :: "dccp_option list \<Rightarrow> nat" where
  "options_size opts = sum_list (map (\<lambda>opt. unat (o_len opt)) opts)"

definition padding_size :: "nat \<Rightarrow> nat" where
  "padding_size n = (4 - n mod 4) mod 4"

definition data_offset :: "dccp_option list \<Rightarrow> byte" where
  "data_offset opts =
     (let n = options_size opts;
          d = word_of_nat ((HeaderSize + (n + padding_size n)) div 4)
      in if d > 15 then 15 else d)"

definition EncodeDCCPPacket :: "dccp_header \<Rightarrow> dccp_option list \<Rightarrow> bytes \<Rightarrow> bytes go" where
  "EncodeDCCPPacket hdr opts payload =
     (let n = options_size opts;
          pad = padding_size n;
          total = HeaderSize + (n + pad) + length payload;
          b0 = replicate total 0;
          b1 = blit (blit b0 0 (put16 (h_src hdr))) 2 (put16 (h_dst hdr));
          b2 = b1[4 := (push_bit 4 (data_offset opts)) OR (h_ccval hdr AND 0x0F),
                  5 := (h_type hdr AND 0x0F) OR push_bit 7 (h_ext hdr AND 0x01)];
          b3 = blit b2 6 (put16 (h_sum hdr))
      in go_bind
           (if h_ext hdr = 1
            then go_bind (go_slice b3 8 16) (\<lambda>_. Return (blit b3 8 (put64 (h_seq hdr))))
            else Return b3) (\<lambda>b4.
         go_bind (encode_options b4 HeaderSize opts) (\<lambda>(b5, off).
           let b6 = blit b5 off (replicate pad OptPadding);
               b7 = blit b6 (off + pad) payload
           in Return (blit b7 6 (put16 (computeChecksum b7))))))"

section \<open>Decoder\<close>

function parse_options_from ::
  "bytes \<Rightarrow> nat \<Rightarrow> dccp_option list \<Rightarrow> (dccp_option list \<times> nat) go" where
  "parse_options_from data off acc =
     (if off < length data then
        if data ! off = OptPadding then parse_options_from data (off + 1) acc
        else if off + 1 \<ge> length data then Return (acc, off)
        else let l = unat (data ! (off + 1)) in
          if l < 2 then Fail ErrInvalidOption
          else if off + l > length data then Return (acc, off)
          else parse_options_from data (off + l)
                 (acc @ [\<lparr>o_type = data ! off, o_len = data ! (off + 1),
                          o_data = take (l - 2) (drop (off + 2) data)\<rparr>])
      else Return (acc, off))"
  by pat_completeness auto
termination
  by (relation "measure (\<lambda>(data, off, acc). length data - off)") auto

declare parse_options_from.simps [simp del]

definition parseOptions :: "bytes \<Rightarrow> (dccp_option list \<times> nat) go" where
  "parseOptions data = parse_options_from data 0 []"

definition DecodeDCCPPacket :: "bytes \<Rightarrow> (dccp_header \<times> dccp_option list \<times> bytes) go" where
  "DecodeDCCPPacket data =
     (if length data < HeaderSize then Fail ErrPacketTooSmall
      else
        let hdr = \<lparr>h_src = get16 (take 2 data), h_dst = get16 (take 2 (drop 2 data)),
                   h_off = drop_bit 4 (data ! 4) AND 0x0F, h_ccval = data ! 4 AND 0x0F,
                   h_cov = 0, h_sum = get16 (take 2 (drop 6 data)), h_res = 0,
                   h_type = data ! 5 AND 0x0F, h_ext = drop_bit 7 (data ! 5) AND 0x01, h_seq = 0\<rparr>
        in if h_ext hdr = 1 \<and> length data < 16 then Fail ErrPacketTooSmall
        else
          let hdr1 = (if h_ext hdr = 1 then hdr\<lparr>h_seq := get64 (take 8 (drop 8 data))\<rparr> else hdr);
              stored = h_sum hdr1;
              zeroed = blit data 6 (put16 0);
              computed = computeChecksum zeroed;
              data1 = blit zeroed 6 (put16 stored);
              headerEnd = min (unat (h_off hdr1) * 4) (length data1)
          in go_bind (go_slice data1 (int HeaderSize) (int headerEnd)) (\<lambda>region.
             go_bind (parseOptions region) (\<lambda>(opts, optEnd).
             go_bind (go_slice data1 (int (HeaderSize + optEnd)) (int (length data1))) (\<lambda>payload.
               Return (hdr1, opts, payload)))))"

section \<open>Packet builders and the stream reader\<close>

definition packet_header :: "u16 \<Rightarrow> u16 \<Rightarrow> packet_type \<Rightarrow> u64 \<Rightarrow> dccp_header" where
  "packet_header src dst t sq =
     \<lparr>h_src = src, h_dst = dst, h_off = 0, h_ccval = 0, h_cov = 0, h_sum = 0, h_res = 0,
      h_type = t, h_ext = 1, h_seq = sq\<rparr>"

definition BuildRequestPacket :: "u16 \<Rightarrow> u16 \<Rightarrow> service_code \<Rightarrow> u64 \<Rightarrow> bytes go" where
  "BuildRequestPacket src dst sc initSeq =
     EncodeDCCPPacket (packet_header src dst PktDCCPRequest initSeq)
       [\<lparr>o_type = OptInitCookie, o_len = 6, o_data = [0, 0] @ sc\<rparr>,
        \<lparr>o_type = OptFeature, o_len = 5, o_data = [CCID4, 0, 0]\<rparr>,
        \<lparr>o_type = OptTimestamp, o_len = 10, o_data = replicate 8 0\<rparr>] []"

definition BuildResponsePacket :: "u16 \<Rightarrow> u16 \<Rightarrow> service_code \<Rightarrow> u64 \<Rightarrow> u64 \<Rightarrow> bytes go" where
  "BuildResponsePacket src dst sc respSeq initSeq =
     EncodeDCCPPacket (packet_header src dst PktDCCPResponse respSeq)
       [\<lparr>o_type = OptInitCookie, o_len = 6, o_data = [0, 0] @ sc\<rparr>,
        \<lparr>o_type = OptConfirmL, o_len = 6, o_data = replicate 4 0\<rparr>,
        \<lparr>o_type = OptTimestampEcho, o_len = 10, o_data = replicate 8 0\<rparr>] []"

definition BuildDataPacket :: "u16 \<Rightarrow> u16 \<Rightarrow> u64 \<Rightarrow> bytes \<Rightarrow> bytes go" where
  "BuildDataPacket src dst sq payload =
     EncodeDCCPPacket (packet_header src dst PktDCCPData sq) [] payload"

definition BuildAckPacket :: "u16 \<Rightarrow> u16 \<Rightarrow> u64 \<Rightarrow> bytes go" where
  "BuildAckPacket src dst ackSeq = EncodeDCCPPacket (packet_header src dst PktDCCPAck ackSeq) [] []"

definition BuildClosePacket :: "u16 \<Rightarrow> u16 \<Rightarrow> u64 \<Rightarrow> bytes go" where
  "BuildClosePacket src dst sq = EncodeDCCPPacket (packet_header src dst PktDCCPClose sq) [] []"

definition BuildResetPacket :: "u16 \<Rightarrow> u16 \<Rightarrow> u64 \<Rightarrow> byte \<Rightarrow> bytes go" where
  "BuildResetPacket src dst sq reason =
     EncodeDCCPPacket (packet_header src dst PktDCCPReset sq) [] [reason]"

definition ReadFullDCCPPacket ::
  "stream \<Rightarrow> ((dccp_header \<times> dccp_option list \<times> bytes) \<times> stream) go" where
  "ReadFullDCCPPacket s =
     go_bind (read_full HeaderSize s) (\<lambda>(hdrBuf, s1).
       let dataOffset = (drop_bit 4 (hdrBuf ! 4) AND 0x0F) * 4;
           needed = unat dataOffset - HeaderSize
       in go_bind
            (if needed > 0 then read_full needed s1 else Return ([], s1)) (\<lambda>(rest, s2).
          go_map (\<lambda>r. (r, s2)) (DecodeDCCPPacket (hdrBuf @ rest))))"

section \<open>Layout of encoded packets\<close>

text \<open>
  An option the encoder can write in full: the length byte counts type and length bytes,
  and at least as much data as announced is there (surplus data is dropped).
\<close>

definition opt_ok :: "dccp_option \<Rightarrow> bool" where
  "opt_ok opt \<longleftrightarrow> 2 \<le> unat (o_len opt) \<and> unat (o_len opt) - 2 \<le> length (o_data opt)"

definition opt_bytes :: "dccp_option \<Rightarrow> bytes" where
  "opt_bytes opt = [o_type opt, o_len opt] @ take (unat (o_len opt) - 2) (o_data opt)"

definition options_bytes :: "dccp_option list \<Rightarrow> bytes" where
  "options_bytes opts = concat (map opt_bytes opts)"

lemma options_size_simps [simp]:
  "options_size [] = 0"
  "options_size (opt # opts) = unat (o_len opt) + options_size opts"
  by (simp_all add: options_size_def)

lemma length_opt_bytes [simp]: "opt_ok opt \<Longrightarrow> length (opt_bytes opt) = unat (o_len opt)"
  by (auto simp: opt_ok_def opt_bytes_def)

lemma length_options_bytes [simp]:
  "list_all opt_ok opts \<Longrightarrow> length (options_bytes opts) = options_size opts"
  by (induction opts) (simp_all add: options_bytes_def)

lemma padding_size_bound: "padding_size n < 4"
  by (simp add: padding_size_def)

lemma padding_size_dvd: "4 dvd n + padding_size n"
proof (cases "n mod 4 = 0")
  case True
  then show ?thesis by (auto simp: padding_size_def)
next
  case False
  then have "padding_size n = 4 - n mod 4"
    by (simp add: padding_size_def)
  then have "n + padding_size n = 4 * (n div 4) + 4"
    using div_mult_mod_eq [of n 4] mod_less_divisor [of 4 n] by linarith
  then show ?thesis by simp
qed

lemma encode_options_layout:
  "list_all opt_ok opts \<Longrightarrow> options_size opts \<le> length t \<Longrightarrow>
     encode_options (pre @ t) (length pre) opts =
       Return (pre @ options_bytes opts @ drop (options_size opts) t, length pre + options_size opts)"
proof (induction opts arbitrary: pre t)
  case Nil
  then show ?case by (simp add: options_bytes_def)
next
  case (Cons opt opts)
  let ?l = "unat (o_len opt)"
  have ok: "2 \<le> ?l" "?l - 2 \<le> length (o_data opt)" and l: "?l \<le> length t"
    using Cons.prems by (simp_all add: opt_ok_def)
  then obtain a c d r where t: "t = a # c # d @ r" and d: "length d = ?l - 2"
  proof -
    have "t = hd t # hd (tl t) # take (?l - 2) (drop 2 t) @ drop (?l - 2) (drop 2 t)"
      using ok l by (cases t; cases "tl t") (auto simp: append_take_drop_id)
    then show ?thesis using that ok l by simp
  qed
  let ?b = "(pre @ t)[length pre := o_type opt, length pre + 1 := o_len opt]"
  have b: "?b = (pre @ [o_type opt, o_len opt]) @ d @ r"
    by (simp add: t list_update_append)
  have sl: "go_slice ?b (int (length pre + 2)) (int (length pre + ?l)) = Return d"
    using ok(1) d by (simp only: b slice_of_nat) simp
  have bl: "blit ?b (length pre + 2) (take (length d) (o_data opt)) = (pre @ opt_bytes opt) @ r"
    unfolding b using ok d by (subst blit_middle) (simp_all add: opt_bytes_def)
  have off: "length pre + ?l = length (pre @ opt_bytes opt)"
    using Cons.prems(1) by simp
  have lt: "length pre + 1 < length (pre @ t)"
    by (simp add: t)
  have r: "options_size opts \<le> length r" "drop ?l t = r"
    using Cons.prems ok d by (simp_all add: t drop_Cons' numeral_2_eq_2)
  have "encode_options (pre @ t) (length pre) (opt # opts) =
      encode_options ((pre @ opt_bytes opt) @ r) (length (pre @ opt_bytes opt)) opts"
    by (simp only: encode_options.simps Let_def lt if_True sl go_bind.simps bl) (simp only: off)
  also have "\<dots> = Return ((pre @ opt_bytes opt) @ options_bytes opts @ drop (options_size opts) r,
      length (pre @ opt_bytes opt) + options_size opts)"
    by (rule Cons.IH) (use Cons.prems r in simp_all)
  finally have "encode_options (pre @ t) (length pre) (opt # opts) = \<dots>" .
  moreover have "drop (options_size (opt # opts)) t = drop (options_size opts) r"
    using r(2) by (simp add: add.commute flip: drop_drop)
  ultimately show ?case
    using Cons.prems(1) by (simp add: options_bytes_def)
qed

text \<open>The encoder's output, byte by byte.\<close>

definition seq_bytes :: "dccp_header \<Rightarrow> bytes" where
  "seq_bytes hdr = (if h_ext hdr = 1 then take 4 (put64 (h_seq hdr)) else replicate 4 0)"

definition body_bytes :: "dccp_option list \<Rightarrow> bytes \<Rightarrow> bytes" where
  "body_bytes opts payload =
     options_bytes opts @ replicate (padding_size (options_size opts)) 0 @ payload"

definition packet_bytes :: "u16 \<Rightarrow> dccp_header \<Rightarrow> dccp_option list \<Rightarrow> bytes \<Rightarrow> bytes" where
  "packet_bytes ck hdr opts payload =
     put16 (h_src hdr) @ put16 (h_dst hdr) @
     [push_bit 4 (data_offset opts) OR (h_ccval hdr AND 0x0F),
      (h_type hdr AND 0x0F) OR push_bit 7 (h_ext hdr AND 0x01)] @
     put16 ck @ seq_bytes hdr @ body_bytes opts payload"

lemma length_seq_bytes [simp]: "length (seq_bytes hdr) = 4"
  by (simp add: seq_bytes_def)

lemma header_words:
  "blit ((blit (blit (replicate (8 + m) 0) 0 (put16 a)) 2 (put16 b))[4 := x, 5 := y]) 6 (put16 c) =
     (put16 a @ put16 b @ [x, y] @ put16 c) @ replicate m 0"
  by (simp add: put16_bytes blit_def copied_def eval_nat_numeral)

lemma extended_words:
  assumes "length pre = 8" and "8 \<le> m"
  shows "go_slice (pre @ replicate m (0 :: byte)) 8 16 = Return (replicate 8 0)"
    and "blit (pre @ replicate m 0) 8 (put64 s) = pre @ put64 s @ replicate (m - 8) 0"
proof -
  show "go_slice (pre @ replicate m (0 :: byte)) 8 16 = Return (replicate 8 0)"
    using assms by (simp add: go_slice_def)
  have "replicate m (0 :: byte) = replicate 8 0 @ replicate (m - 8) 0"
    using assms(2) by (simp flip: replicate_add)
  then show "blit (pre @ replicate m 0) 8 (put64 s) = pre @ put64 s @ replicate (m - 8) 0"
    using assms(1) by (simp only:) (subst blit_middle, simp_all)
qed

lemma packet_bytes_sum:
  "blit (packet_bytes c hdr opts payload) 6 (put16 c') = packet_bytes c' hdr opts payload"
  unfolding packet_bytes_def by (simp add: put16_bytes blit_def copied_def eval_nat_numeral)

lemma append_regroup: "s @ d = w \<Longrightarrow> pre @ w @ z = (pre @ s) @ d @ z"
  by auto

lemma extended_step:
  assumes pre: "length pre = 8" and m: "h_ext hdr = 1 \<Longrightarrow> 4 \<le> m"
  shows "\<exists>t. length t = m \<and>
    (if h_ext hdr = 1
     then go_bind (go_slice (pre @ replicate (4 + m) 0) 8 16)
            (\<lambda>_. Return (blit (pre @ replicate (4 + m) 0) 8 (put64 (h_seq hdr))))
     else Return (pre @ replicate (4 + m) 0)) = Return ((pre @ seq_bytes hdr) @ t)"
proof (cases "h_ext hdr = 1")
  case True
  then have m8: "8 \<le> 4 + m" using m by simp
  let ?t = "drop 4 (put64 (h_seq hdr)) @ replicate (4 + m - 8) 0"
  have "seq_bytes hdr @ drop 4 (put64 (h_seq hdr)) = put64 (h_seq hdr)"
    by (simp only: seq_bytes_def True simp_thms if_True append_take_drop_id)
  then have "pre @ put64 (h_seq hdr) @ replicate (4 + m - 8) 0 = (pre @ seq_bytes hdr) @ ?t"
    by (rule append_regroup)
  then have "length ?t = m \<and> (if h_ext hdr = 1
     then go_bind (go_slice (pre @ replicate (4 + m) 0) 8 16)
            (\<lambda>_. Return (blit (pre @ replicate (4 + m) 0) 8 (put64 (h_seq hdr))))
     else Return (pre @ replicate (4 + m) 0)) = Return ((pre @ seq_bytes hdr) @ ?t)"
    using m8 by (simp only: True simp_thms if_True extended_words [OF pre m8] go_bind.simps) simp
  then show ?thesis by (rule exI)
next
  case False
  then have "length (replicate m 0) = m \<and> (if h_ext hdr = 1
     then go_bind (go_slice (pre @ replicate (4 + m) 0) 8 16)
            (\<lambda>_. Return (blit (pre @ replicate (4 + m) 0) 8 (put64 (h_seq hdr))))
     else Return (pre @ replicate (4 + m) 0)) = Return ((pre @ seq_bytes hdr) @ replicate m 0)"
    by (simp add: seq_bytes_def replicate_add)
  then show ?thesis by (rule exI)
qed

theorem EncodeDCCPPacket_layout:
  assumes ok: "list_all opt_ok opts"
    and room: "h_ext hdr = 1 \<Longrightarrow> 4 \<le> length (body_bytes opts payload)"
  shows "EncodeDCCPPacket hdr opts payload =
    Return (packet_bytes (computeChecksum (packet_bytes (h_sum hdr) hdr opts payload)) hdr opts payload)"
proof -
  define n where "n = options_size opts"
  define p where "p = padding_size n"
  define m where "m = n + p + length payload"
  let ?x = "push_bit 4 (data_offset opts) OR (h_ccval hdr AND 0x0F)"
  let ?y = "(h_type hdr AND 0x0F) OR push_bit 7 (h_ext hdr AND 0x01)"
  let ?pre = "put16 (h_src hdr) @ put16 (h_dst hdr) @ [?x, ?y] @ put16 (h_sum hdr)"
  have body: "length (body_bytes opts payload) = m"
    using ok by (simp add: body_bytes_def m_def n_def p_def)
  have total: "HeaderSize + (n + p) + length payload = 8 + (4 + m)"
    by (simp add: m_def)
  have len: "length ?pre = 8" by simp
  have m4: "4 \<le> m" if "h_ext hdr = 1"
    using room [OF that] body by simp
  from extended_step [OF len m4] obtain t where t: "length t = m" and
    b4: "(if h_ext hdr = 1
          then go_bind (go_slice (?pre @ replicate (4 + m) 0) 8 16)
                 (\<lambda>_. Return (blit (?pre @ replicate (4 + m) 0) 8 (put64 (h_seq hdr))))
          else Return (?pre @ replicate (4 + m) 0)) = Return ((?pre @ seq_bytes hdr) @ t)"
    by blast
  have pre12: "length (?pre @ seq_bytes hdr) = HeaderSize"
    by simp
  have enc: "encode_options ((?pre @ seq_bytes hdr) @ t) HeaderSize opts =
      Return ((?pre @ seq_bytes hdr) @ options_bytes opts @ drop n t, HeaderSize + n)"
    using encode_options_layout [OF ok, of t "?pre @ seq_bytes hdr"] t
    unfolding pre12 by (simp only: n_def m_def)
  obtain u v where uv: "drop n t = u @ v" "length u = p" "length v = length payload"
  proof
    show "drop n t = take p (drop n t) @ drop p (drop n t)"
      by (rule append_take_drop_id [symmetric])
    show "length (take p (drop n t)) = p" "length (drop p (drop n t)) = length payload"
      using t by (simp_all add: m_def)
  qed
  have pad: "blit (((?pre @ seq_bytes hdr) @ options_bytes opts) @ u @ v) (HeaderSize + n)
      (replicate p OptPadding) = ((?pre @ seq_bytes hdr) @ options_bytes opts) @ replicate p 0 @ v"
    using uv(2) ok by (subst blit_middle) (simp_all add: n_def)
  have pay: "blit ((((?pre @ seq_bytes hdr) @ options_bytes opts) @ replicate p 0) @ v @ []) (HeaderSize + n + p)
      payload = packet_bytes (h_sum hdr) hdr opts payload"
    using uv(3) ok by (subst blit_middle) (simp_all add: n_def p_def packet_bytes_def body_bytes_def)
  show ?thesis
    unfolding EncodeDCCPPacket_def
    apply (simp only: Let_def flip: n_def p_def)
    apply (simp only: total header_words b4 enc go_bind.simps prod.case uv(1))
    using pad pay by (simp add: packet_bytes_sum)
qed

section \<open>When the encoder panics\<close>

lemma encode_options_panic:
  "\<exists>opt \<in> set opts. unat (o_len opt) < 2 \<Longrightarrow> encode_options b off opts = Panic"
proof (induction opts arbitrary: b off)
  case Nil
  then show ?case by simp
next
  case (Cons opt opts)
  let ?b = "b[off := o_type opt, off + 1 := o_len opt]"
  show ?case
  proof (cases "unat (o_len opt) < 2")
    case True
    then have "go_slice ?b (int (off + 2)) (int (off + unat (o_len opt))) = Panic"
      by (simp only: slice_of_nat) simp
    then show ?thesis
      by (simp only: encode_options.simps Let_def go_bind.simps if_cancel)
  next
    case False
    with Cons.prems have "\<And>b off. encode_options b off opts = Panic"
      by (auto intro: Cons.IH)
    then show ?thesis
      by (cases "go_slice ?b (int (off + 2)) (int (off + unat (o_len opt)))") (simp_all add: Let_def)
  qed
qed

lemma encode_options_total:
  "\<forall>opt \<in> set opts. 2 \<le> unat (o_len opt) \<Longrightarrow> off + options_size opts \<le> length b \<Longrightarrow>
     \<exists>b'. encode_options b off opts = Return (b', off + options_size opts) \<and> length b' = length b"
proof (induction opts arbitrary: b off)
  case Nil
  then show ?case by simp
next
  case (Cons opt opts)
  let ?b = "b[off := o_type opt, off + 1 := o_len opt]"
  let ?l = "unat (o_len opt)"
  let ?b' = "\<lambda>dst. blit ?b (off + 2) (take (length dst) (o_data opt))"
  have l: "2 \<le> ?l" "off + ?l + options_size opts \<le> length b"
    using Cons.prems by simp_all
  then obtain dst where sl: "go_slice ?b (int (off + 2)) (int (off + ?l)) = Return dst"
    by (simp only: slice_of_nat) simp
  have len: "length (?b' dst) = length b" and lt: "off + 1 < length b"
    using l by simp_all
  have "\<exists>b'. encode_options (?b' dst) (off + ?l) opts = Return (b', off + ?l + options_size opts) \<and>
      length b' = length (?b' dst)"
    by (rule Cons.IH) (use Cons.prems l len in simp_all)
  with len lt show ?case
    by (simp only: encode_options.simps Let_def if_True sl go_bind.simps options_size_simps add.assoc)
qed

lemma extended_slice:
  "length b = n \<Longrightarrow>
     (if h_ext hdr = 1 then go_bind (go_slice b 8 16) (\<lambda>_. Return (blit b 8 (put64 (h_seq hdr))))
      else Return b) =
     (if h_ext hdr = 1 \<and> n < 16 then Panic
      else Return (if h_ext hdr = 1 then blit b 8 (put64 (h_seq hdr)) else b))"
  by (simp add: go_slice_def)

text \<open>When the encoder panics, and how long the packet is otherwise.\<close>

lemma EncodeDCCPPacket_cases:
  "if (\<exists>opt \<in> set opts. unat (o_len opt) < 2) \<or>
      h_ext hdr = 1 \<and> options_size opts + padding_size (options_size opts) + length payload < 4
   then EncodeDCCPPacket hdr opts payload = Panic
   else \<exists>pkt. EncodeDCCPPacket hdr opts payload = Return pkt \<and>
     length pkt = HeaderSize + options_size opts + padding_size (options_size opts) + length payload"
proof -
  define n where "n = options_size opts"
  define p where "p = padding_size n"
  define tot where "tot = HeaderSize + (n + p) + length payload"
  define b3 where "b3 = blit ((blit (blit (replicate tot 0) 0 (put16 (h_src hdr))) 2 (put16 (h_dst hdr)))
      [4 := push_bit 4 (data_offset opts) OR (h_ccval hdr AND 0x0F),
       5 := (h_type hdr AND 0x0F) OR push_bit 7 (h_ext hdr AND 0x01)]) 6 (put16 (h_sum hdr))"
  define b4 where "b4 = (if h_ext hdr = 1 then blit b3 8 (put64 (h_seq hdr)) else b3)"
  have len3: "length b3 = tot" and len4: "length b4 = tot"
    by (simp_all add: b3_def b4_def tot_def)
  have enc: "EncodeDCCPPacket hdr opts payload =
    go_bind (if h_ext hdr = 1 \<and> tot < 16 then Panic else Return b4) (\<lambda>b4.
    go_bind (encode_options b4 HeaderSize opts) (\<lambda>(b5, off).
      let b7 = blit (blit b5 off (replicate p OptPadding)) (off + p) payload
      in Return (blit b7 6 (put16 (computeChecksum b7)))))"
    unfolding EncodeDCCPPacket_def
    by (simp only: Let_def n_def [symmetric] p_def [symmetric] tot_def [symmetric]
        b3_def [symmetric] extended_slice [OF len3] b4_def [symmetric])
  show ?thesis
  proof (cases "h_ext hdr = 1 \<and> tot < 16")
    case True
    then have "h_ext hdr = 1 \<and> n + p + length payload < 4"
      by (simp add: tot_def)
    with True show ?thesis
      by (simp add: enc n_def p_def)
  next
    case False
    then have small: "\<not> (h_ext hdr = 1 \<and> n + p + length payload < 4)"
      by (simp add: tot_def add.assoc)
    show ?thesis
    proof (cases "\<exists>opt \<in> set opts. unat (o_len opt) < 2")
      case True
      with False show ?thesis
        by (auto simp: enc encode_options_panic)
    next
      case ok: False
      then have "\<forall>opt \<in> set opts. 2 \<le> unat (o_len opt)" by auto
      from encode_options_total [OF this, of HeaderSize b4] obtain b5 where
        b5: "encode_options b4 HeaderSize opts = Return (b5, HeaderSize + n)" "length b5 = tot"
        by (auto simp: len4 tot_def n_def)
      have len: "length (blit (blit b5 (HeaderSize + n) (replicate p OptPadding)) (HeaderSize + n + p) payload) = tot"
        using b5(2) by (simp add: tot_def)
      have "12 \<le> tot" by (simp add: tot_def)
      with False ok small b5 len show ?thesis
        by (simp only: enc if_False go_bind.simps prod.case Let_def n_def [symmetric] p_def [symmetric]
            HOL.simp_thms) (simp add: tot_def)
    qed
  qed
qed

section \<open>The checksum detects what the Internet checksum detects\<close>

text \<open>The sum of the 16-bit words, as a natural number.\<close>

fun word_sum :: "bytes \<Rightarrow> nat" where
  "word_sum (a # b # rest) = unat (get16 [a, b]) + word_sum rest"
| "word_sum [a] = 256 * unat a"
| "word_sum [] = 0"

text \<open>The one's-complement reduction of a sum: the representative modulo 65535, 0 only for 0.\<close>

definition ones_sum :: "nat \<Rightarrow> nat" where
  "ones_sum n = (if n = 0 then 0 else if n mod 65535 = 0 then 65535 else n mod 65535)"

lemma word_sum_bound: "word_sum data \<le> 65535 * ((length data + 1) div 2)"
proof (induction data rule: word_sum.induct)
  case (1 a b rest)
  have "unat (get16 [a, b]) \<le> 65535"
    using unat_bound [of "get16 [a, b]"] by simp
  with 1 show ?case by simp
next
  case (2 a)
  show ?case
    using unat_bound [of a] by simp
next
  case 3
  show ?case by simp
qed

lemma unat_checksum_sum:
  "unat s + word_sum data < 2 ^ 32 \<Longrightarrow> unat (checksum_sum data s) = unat s + word_sum data"
proof (induction data s rule: checksum_sum.induct)
  case (1 a b rest s)
  have cast: "unat (ucast (get16 [a, b]) :: u32) = unat (get16 [a, b])"
    by (simp add: unat_ucast_up)
  with 1 have "unat (s + ucast (get16 [a, b]) :: u32) = unat s + unat (get16 [a, b])"
    by (simp add: unat_word_ariths)
  with 1 show ?case by simp
next
  case (2 a s)
  have "unat (push_bit 8 (ucast a :: u32)) = 256 * unat a"
    using unat_bound [of a] by (simp add: push_bit_eq_mult unat_word_ariths unat_ucast_up)
  with 2 show ?case by (simp add: unat_word_ariths)
next
  case (3 s)
  then show ?case by simp
qed

lemma ones_sum_fold:
  assumes "65536 \<le> n"
  shows "ones_sum (n mod 65536 + n div 65536) = ones_sum n"
proof -
  let ?m = "n mod 65536 + n div 65536"
  have "n = ?m + 65535 * (n div 65536)"
    using div_mult_mod_eq [of n 65536] by simp
  then have "n mod 65535 = ?m mod 65535"
    by (metis mod_mult_self2)
  moreover have "0 < n div 65536"
    using assms by (simp add: div_greater_zero_iff)
  ultimately show ?thesis
    using assms by (simp add: ones_sum_def)
qed

lemma ones_sum_small: "n < 65536 \<Longrightarrow> ones_sum n = n"
  by (cases "n = 65535") (simp_all add: ones_sum_def)

lemma unat_checksum_fold: "unat (checksum_fold s) = ones_sum (unat s)"
proof (induction s rule: checksum_fold.induct)
  case (1 s)
  show ?case
  proof (cases "drop_bit 16 s = 0")
    case True
    then have "unat s div 65536 = 0"
      using unat_low_high(2) [of s] by simp
    then have "unat s < 65536"
      by (simp add: div_eq_0_iff)
    with True show ?thesis
      by (simp add: checksum_fold.simps [of s] ones_sum_small)
  next
    case False
    then have "unat s div 65536 \<noteq> 0"
      using unat_low_high(2) [of s] by (metis unat_eq_zero)
    then have "65536 \<le> unat s"
      by (simp add: div_eq_0_iff)
    with 1 [OF False] False show ?thesis
      by (simp add: checksum_fold.simps [of s] unat_carry_fold ones_sum_fold)
  qed
qed

lemma ones_sum_bound: "ones_sum n \<le> 65535"
  using mod_less_divisor [of 65535 n] by (simp add: ones_sum_def)

lemma ones_sum_complement: "ones_sum (65535 - ones_sum w + w) = 65535"
proof (cases "w = 0")
  case True
  then show ?thesis by (simp add: ones_sum_def)
next
  case False
  have le: "ones_sum w \<le> w"
    using False mod_less_eq_dividend [of w 65535] by (auto simp: ones_sum_def dest: dvd_imp_le)
  have "(w - ones_sum w) mod 65535 = 0"
    using False le by (auto simp: ones_sum_def mod_eq_0_iff_dvd minus_mod_eq_mult_div)
  moreover have "65535 - ones_sum w + w = (w - ones_sum w) + 65535"
    using le ones_sum_bound [of w] by simp
  ultimately show ?thesis
    by (simp add: ones_sum_def)
qed

lemma unat_complement16:
  fixes w :: u16
  shows "unat (NOT w) = 65535 - unat w"
proof -
  have "NOT w = (- 1) - w"
    by (simp add: not_eq_complement)
  moreover have "unat ((- 1 :: u16) - w) = unat (- 1 :: u16) - unat w"
    by (rule unat_sub) simp
  ultimately show ?thesis
    by (simp add: unsigned_minus_1_eq_mask mask_eq_exp_minus_1)
qed

theorem unat_computeChecksum:
  assumes "length data \<le> 131072"
  shows "unat (computeChecksum data) = 65535 - ones_sum (word_sum data)"
proof -
  have "(length data + 1) div 2 \<le> 65536"
    using assms by simp
  then have "word_sum data < 2 ^ 32"
    using word_sum_bound [of data] by simp
  then have sum: "unat (checksum_sum data 0) = word_sum data"
    using unat_checksum_sum [of 0 data] by simp
  let ?f = "checksum_fold (checksum_sum data 0)"
  have f: "unat ?f = ones_sum (word_sum data)"
    by (simp add: unat_checksum_fold sum)
  then have "unat ?f < 2 ^ 16"
    using ones_sum_bound [of "word_sum data"] by simp
  then have "unat (ucast ?f :: u16) = unat ?f"
    by (simp add: unsigned_ucast_eq take_bit_nat_eq_self)
  then show ?thesis
    by (simp add: computeChecksum_def unat_complement16 f)
qed

lemma word_sum_packet:
  "word_sum (packet_bytes c hdr opts payload) = unat c + word_sum (packet_bytes 0 hdr opts payload)"
proof -
  have "c = get16 [ucast (drop_bit 8 c), ucast c]"
    by (metis get16_put16 put16_bytes)
  then show ?thesis
    by (simp add: packet_bytes_def put16_bytes be_get_def)
qed

lemma length_packet_bytes:
  "list_all opt_ok opts \<Longrightarrow> length (packet_bytes c hdr opts payload) =
     HeaderSize + options_size opts + padding_size (options_size opts) + length payload"
  by (simp add: packet_bytes_def body_bytes_def)

lemma padding_multiple: "m + padding_size m = 4 * ((m + 3) div 4)"
proof -
  define q r where "q = m div 4" and "r = m mod 4"
  have m: "m = 4 * q + r" and r: "r < 4"
    by (simp_all add: q_def r_def)
  from r have "r = 0 \<or> r = 1 \<or> r = 2 \<or> r = 3"
    by linarith
  then show ?thesis
    unfolding padding_size_def m by auto
qed

text \<open>
  The encoder never returns an error: it panics exactly when an option announces less
  than its own two header bytes, or when an extended header is followed by fewer than four
  bytes (the 8-byte sequence number is written into a 12-byte header at offset 8), and
  otherwise returns a packet of the announced size.
\<close>

lemma EncodeDCCPPacket_outcome:
  "(EncodeDCCPPacket hdr opts payload = Panic \<longleftrightarrow>
      (\<exists>opt \<in> set opts. unat (o_len opt) < 2) \<or>
      h_ext hdr = 1 \<and> options_size opts = 0 \<and> length payload < 4) \<and>
   (\<nexists>e. EncodeDCCPPacket hdr opts payload = Fail e) \<and>
   go_map length (EncodeDCCPPacket hdr opts payload) \<in>
     {Panic, Return (HeaderSize + 4 * ((options_size opts + 3) div 4) + length payload)}"
proof -
  have "4 \<le> options_size opts + padding_size (options_size opts)" if "options_size opts \<noteq> 0"
    using that by (cases "options_size opts") (simp_all add: padding_multiple)
  moreover have "padding_size 0 = 0"
    by (simp add: padding_size_def)
  ultimately have "options_size opts + padding_size (options_size opts) + length payload < 4 \<longleftrightarrow>
      options_size opts = 0 \<and> length payload < 4"
    by (cases "options_size opts = 0") auto
  then show ?thesis
    using EncodeDCCPPacket_cases [of opts hdr payload]
    by (cases "EncodeDCCPPacket hdr opts payload")
       (auto simp: add.assoc padding_multiple split: if_splits)
qed

lemma EncodeDCCPPacket_Return:
  assumes "EncodeDCCPPacket hdr opts payload = Return pkt" and ok: "list_all opt_ok opts"
  shows "pkt = packet_bytes (computeChecksum (packet_bytes (h_sum hdr) hdr opts payload)) hdr opts payload"
proof -
  have "4 \<le> length (body_bytes opts payload)" if "h_ext hdr = 1"
    using assms that EncodeDCCPPacket_cases [of opts hdr payload]
    by (auto simp: body_bytes_def split: if_splits)
  from EncodeDCCPPacket_layout [OF ok this] assms(1) show ?thesis
    by simp
qed

lemma packet_sum_field: "take 2 (drop 6 (packet_bytes c hdr opts payload)) = put16 c"
  by (simp add: packet_bytes_def put16_bytes)

text \<open>
  A packet the encoder returns verifies: summed with its stored checksum in place (and
  a zero checksum in the header given to the encoder, as every builder does) it checks to
  zero, and the stored checksum is the checksum of the packet with the field zeroed.
\<close>

lemma encoded_packet_verifies:
  assumes enc: "EncodeDCCPPacket hdr opts payload = Return pkt" and ok: "list_all opt_ok opts"
    and zero: "h_sum hdr = 0" and len: "length pkt \<le> 131072"
  shows "computeChecksum pkt = 0 \<and> get16 (take 2 (drop 6 pkt)) = computeChecksum (blit pkt 6 (put16 0))"
proof -
  let ?p0 = "packet_bytes 0 hdr opts payload"
  define ck where "ck = computeChecksum ?p0"
  define w where "w = word_sum ?p0"
  have pkt: "pkt = packet_bytes ck hdr opts payload"
    using EncodeDCCPPacket_Return [OF enc ok] zero by (simp add: ck_def)
  have len0: "length ?p0 \<le> 131072"
    using len ok by (simp add: pkt length_packet_bytes)
  have "word_sum pkt = 65535 - ones_sum w + w"
    using unat_computeChecksum [OF len0] word_sum_packet [of ck hdr opts payload]
    by (simp add: pkt ck_def w_def)
  then have "ones_sum (word_sum pkt) = 65535"
    by (simp add: ones_sum_complement)
  then have "computeChecksum pkt = 0"
    using unat_computeChecksum [OF len] by (metis diff_self_eq_0 unat_eq_zero)
  then show ?thesis
    by (simp add: pkt packet_sum_field packet_bytes_sum ck_def)
qed

section \<open>Decoding\<close>

lemma offset_byte_bits:
  fixes d c t e :: byte
  shows "(push_bit 4 d OR (c AND 15)) AND 15 = c AND 15"
    and "drop_bit 4 (push_bit 4 d OR (c AND 15)) AND 15 = d AND 15"
    and "((t AND 15) OR push_bit 7 (e AND 1)) AND 15 = t AND 15"
    and "drop_bit 7 ((t AND 15) OR push_bit 7 (e AND 1)) AND 1 = e AND 1"
proof -
  have m: "(15 :: byte) = mask 4" "(1 :: byte) = mask 1"
    by (simp_all add: mask_eq_exp_minus_1)
  show "(push_bit 4 d OR (c AND 15)) AND 15 = c AND 15"
    unfolding m by (rule bit_word_eqI) (auto simp: bit_simps)
  show "drop_bit 4 (push_bit 4 d OR (c AND 15)) AND 15 = d AND 15"
    unfolding m by (rule bit_word_eqI) (auto simp: bit_simps)
  show "((t AND 15) OR push_bit 7 (e AND 1)) AND 15 = t AND 15"
    unfolding m by (rule bit_word_eqI) (auto simp: bit_simps)
  show "drop_bit 7 ((t AND 15) OR push_bit 7 (e AND 1)) AND 1 = e AND 1"
    unfolding m by (rule bit_word_eqI) (auto simp: bit_simps)
qed

lemma unat_data_offset:
  assumes "options_size opts + padding_size (options_size opts) \<le> 48"
  shows "unat (data_offset opts) * 4 = HeaderSize + options_size opts + padding_size (options_size opts)"
    and "data_offset opts AND 15 = data_offset opts"
proof -
  let ?N = "options_size opts + padding_size (options_size opts)"
  define q where "q = (12 + ?N) div 4"
  have q15: "q \<le> 15" using assms by (simp add: q_def)
  then have u: "unat (word_of_nat q :: byte) = q"
    by (simp add: unat_of_nat)
  then have "\<not> (15 :: byte) < word_of_nat q"
    using q15 by (simp add: word_less_nat_alt)
  then have d: "data_offset opts = word_of_nat q"
    by (simp add: data_offset_def Let_def q_def)
  have "4 dvd 12 + ?N"
    by (rule dvd_add [OF _ padding_size_dvd]) simp
  then have "q * 4 = 12 + ?N"
    by (simp add: q_def)
  then show "unat (data_offset opts) * 4 = HeaderSize + options_size opts + padding_size (options_size opts)"
    by (simp add: d u)
  have "data_offset opts AND 15 = take_bit 4 (data_offset opts)"
    by (simp add: take_bit_eq_mask mask_eq_exp_minus_1)
  also have "\<dots> = data_offset opts"
  proof (rule unsigned_word_eqI)
    show "unat (take_bit 4 (data_offset opts)) = unat (data_offset opts)"
      using q15 u by (simp only: d unsigned_take_bit_eq) (simp add: take_bit_nat_eq_self)
  qed
  finally show "data_offset opts AND 15 = data_offset opts" .
qed

text \<open>What the parser recovers of an option: the data cut to the announced length.\<close>

definition trunc_opt :: "dccp_option \<Rightarrow> dccp_option" where
  "trunc_opt opt = opt\<lparr>o_data := take (unat (o_len opt) - 2) (o_data opt)\<rparr>"

lemma trunc_opt_eq:
  "trunc_opt opt = \<lparr>o_type = o_type opt, o_len = o_len opt,
     o_data = take (unat (o_len opt) - 2) (o_data opt)\<rparr>"
  by (cases opt) (simp add: trunc_opt_def)

lemma parse_padding:
  "parse_options_from (pre @ replicate p 0) (length pre) acc = Return (acc, length pre + p)"
proof (induction p arbitrary: pre)
  case 0
  show ?case by (simp add: parse_options_from.simps)
next
  case (Suc p)
  from Suc.IH [of "pre @ [0]"] show ?case
    by (subst parse_options_from.simps) (simp add: nth_append)
qed

lemma parse_option_at:
  assumes "off + l \<le> length data" and "2 \<le> l" and "data ! off = t" and "t \<noteq> 0"
    and "data ! (off + 1) = b" and "unat b = l"
  shows "parse_options_from data off acc = parse_options_from data (off + l)
    (acc @ [\<lparr>o_type = t, o_len = b, o_data = take (l - 2) (drop (off + 2) data)\<rparr>])"
  using assms by (subst parse_options_from.simps) (simp add: Let_def)

lemma parse_option_step:
  assumes ok: "opt_ok opt" and ty: "o_type opt \<noteq> 0"
  shows "parse_options_from (pre @ opt_bytes opt @ rest) (length pre) acc =
    parse_options_from (pre @ opt_bytes opt @ rest) (length pre + unat (o_len opt)) (acc @ [trunc_opt opt])"
proof -
  have "take (unat (o_len opt) - 2) (drop (length pre + 2) (pre @ opt_bytes opt @ rest)) =
      take (unat (o_len opt) - 2) (o_data opt)"
    using ok by (simp add: opt_bytes_def opt_ok_def min.absorb2)
  moreover have "length pre + unat (o_len opt) \<le> length (pre @ opt_bytes opt @ rest)"
    using ok by simp
  moreover have "(pre @ opt_bytes opt @ rest) ! length pre = o_type opt"
    "(pre @ opt_bytes opt @ rest) ! (length pre + 1) = o_len opt"
    by (simp_all add: opt_bytes_def nth_append)
  moreover have "2 \<le> unat (o_len opt)"
    using ok by (simp add: opt_ok_def)
  ultimately show ?thesis
    using parse_option_at [OF _ _ _ ty _ refl, of "length pre" "o_len opt" "pre @ opt_bytes opt @ rest" acc]
    by (simp only: trunc_opt_eq simp_thms)
qed

lemma parse_options_bytes:
  "list_all opt_ok opts \<Longrightarrow> list_all (\<lambda>opt. o_type opt \<noteq> 0) opts \<Longrightarrow>
     parse_options_from (pre @ options_bytes opts @ replicate p 0) (length pre) acc =
       Return (acc @ map trunc_opt opts, length pre + options_size opts + p)"
proof (induction opts arbitrary: pre acc)
  case Nil
  then show ?case by (simp add: options_bytes_def parse_padding)
next
  case (Cons opt opts)
  let ?rest = "options_bytes opts @ replicate p 0"
  have "parse_options_from (pre @ options_bytes (opt # opts) @ replicate p 0) (length pre) acc =
      parse_options_from ((pre @ opt_bytes opt) @ ?rest) (length (pre @ opt_bytes opt)) (acc @ [trunc_opt opt])"
    using Cons.prems parse_option_step [of opt pre ?rest acc] by (simp add: options_bytes_def)
  also have "\<dots> = Return ((acc @ [trunc_opt opt]) @ map trunc_opt opts,
      length (pre @ opt_bytes opt) + options_size opts + p)"
    by (rule Cons.IH) (use Cons.prems in simp_all)
  finally show ?case
    using Cons.prems by (simp add: add.assoc)
qed

lemma packet_fields:
  "take 2 (packet_bytes ck hdr opts payload) = put16 (h_src hdr)"
  "take 2 (drop 2 (packet_bytes ck hdr opts payload)) = put16 (h_dst hdr)"
  "packet_bytes ck hdr opts payload ! 4 = push_bit 4 (data_offset opts) OR (h_ccval hdr AND 15)"
  "packet_bytes ck hdr opts payload ! 5 = (h_type hdr AND 15) OR push_bit 7 (h_ext hdr AND 1)"
  "take 8 (drop 8 (packet_bytes ck hdr opts payload)) = seq_bytes hdr @ take 4 (body_bytes opts payload)"
  "drop HeaderSize (packet_bytes ck hdr opts payload) = body_bytes opts payload"
  by (simp_all add: packet_bytes_def put16_bytes)

text \<open>The header the decoder reports for an encoded packet.\<close>

definition decoded_header :: "u16 \<Rightarrow> dccp_header \<Rightarrow> dccp_option list \<Rightarrow> bytes \<Rightarrow> dccp_header" where
  "decoded_header ck hdr opts payload =
     \<lparr>h_src = h_src hdr, h_dst = h_dst hdr, h_off = data_offset opts, h_ccval = h_ccval hdr AND 15,
      h_cov = 0, h_sum = ck, h_res = 0, h_type = h_type hdr AND 15, h_ext = h_ext hdr AND 1,
      h_seq = (if h_ext hdr AND 1 = 1
               then get64 (seq_bytes hdr @ take 4 (body_bytes opts payload)) else 0)\<rparr>"

lemma DecodeDCCPPacket_layout:
  assumes ok: "list_all opt_ok opts" "list_all (\<lambda>opt. o_type opt \<noteq> 0) opts"
    and small: "options_size opts + padding_size (options_size opts) \<le> 48"
    and room: "h_ext hdr AND 1 = 1 \<Longrightarrow> 4 \<le> length (body_bytes opts payload)"
  shows "DecodeDCCPPacket (packet_bytes ck hdr opts payload) =
    Return (decoded_header ck hdr opts payload, map trunc_opt opts, payload)"
proof -
  define P where "P = packet_bytes ck hdr opts payload"
  define N where "N = options_size opts + padding_size (options_size opts)"
  let ?region = "options_bytes opts @ replicate (padding_size (options_size opts)) 0"
  have lenP: "length P = HeaderSize + N + length payload"
    using ok(1) by (simp add: P_def N_def length_packet_bytes)
  have body: "body_bytes opts payload = ?region @ payload" and reg: "length ?region = N"
    using ok(1) by (simp_all add: body_bytes_def N_def)
  have he: "min (unat (data_offset opts AND 15) * 4) (length P) = HeaderSize + N"
    using unat_data_offset [OF small] by (simp add: lenP N_def)
  have restore: "blit (blit P 6 (put16 0)) 6 (put16 ck) = P"
    by (simp only: P_def packet_bytes_sum)
  have s1: "go_slice P (int HeaderSize) (int (HeaderSize + N)) = Return ?region"
    using lenP reg packet_fields(6) [of ck hdr opts payload]
    by (simp only: slice_of_nat P_def [symmetric] body) simp
  have s2: "parseOptions ?region = Return (map trunc_opt opts, N)"
    using parse_options_bytes [OF ok, of "[]" "padding_size (options_size opts)" "[]"]
    by (simp add: parseOptions_def N_def)
  have "drop N (?region @ payload) = payload"
    using reg by (metis append_eq_conv_conj)
  moreover have "drop (HeaderSize + N) P = drop N (drop HeaderSize P)"
    by (simp add: add.commute)
  ultimately have "drop (HeaderSize + N) P = payload"
    by (simp only: P_def packet_fields(6) body)
  then have s3: "go_slice P (int (HeaderSize + N)) (int (length P)) = Return payload"
    by (simp only: slice_of_nat) (simp add: lenP)
  have short: "\<not> (h_ext hdr AND 1 = 1 \<and> length P < 16)"
    using room lenP reg by (auto simp: body)
  note fields = packet_fields [of ck hdr opts payload, folded P_def]
  have ck: "take 2 (drop 6 P) = put16 ck"
    by (simp only: P_def packet_sum_field)
  have len12: "\<not> length P < HeaderSize"
    by (simp add: lenP)
  have bits: "drop_bit 4 (P ! 4) AND 15 = data_offset opts" "P ! 4 AND 15 = h_ccval hdr AND 15"
    "P ! 5 AND 15 = h_type hdr AND 15" "drop_bit 7 (P ! 5) AND 1 = h_ext hdr AND 1"
    by (simp_all only: fields offset_byte_bits unat_data_offset(2) [OF small])
  have he': "min (unat (data_offset opts) * 4) (length P) = HeaderSize + N"
    using he by (simp only: unat_data_offset(2) [OF small])
  have "DecodeDCCPPacket P = Return (decoded_header ck hdr opts payload, map trunc_opt opts, payload)"
    by (cases "h_ext hdr AND 1 = 1")
       (use short in \<open>simp_all only: DecodeDCCPPacket_def Let_def len12 if_False if_True bits fields(1,2,5)
          ck get16_put16 dccp_header.simps he' restore s1 s2 s3 go_bind.simps prod.case simp_thms
          decoded_header_def\<close>)
  then show ?thesis
    by (simp only: P_def)
qed

text \<open>The parser never runs past its input.\<close>

lemma parse_options_from_bound:
  "parse_options_from data off acc = Return (opts, e) \<Longrightarrow> off \<le> length data \<Longrightarrow>
     off \<le> e \<and> e \<le> length data"
proof (induction data off acc rule: parse_options_from.induct)
  case (1 data off acc)
  show ?case
    using 1
    by (subst (asm) (3) parse_options_from.simps)
       (fastforce simp: Let_def split: if_splits)
qed

lemma parse_options_from_not_Panic: "parse_options_from data off acc \<noteq> Panic"
proof (induction data off acc rule: parse_options_from.induct)
  case (1 data off acc)
  then show ?case
    by (subst parse_options_from.simps) (auto simp: Let_def)
qed

lemma decode_tail_panic:
  assumes "e \<le> length data1"
  shows "go_bind (go_slice data1 (int HeaderSize) (int e)) (\<lambda>region.
    go_bind (parseOptions region) (\<lambda>(opts, optEnd).
    go_bind (go_slice data1 (int (HeaderSize + optEnd)) (int (length data1))) (\<lambda>payload.
      Return (h :: dccp_header, opts, payload)))) = Panic \<longleftrightarrow> e < HeaderSize"
proof (cases "e < HeaderSize")
  case True
  then have "go_slice data1 (int HeaderSize) (int e) = Panic"
    by (simp only: slice_of_nat) simp
  with True show ?thesis by simp
next
  case False
  then have sl: "go_slice data1 (int HeaderSize) (int e) = Return (take (e - HeaderSize) (drop HeaderSize data1))"
    (is "_ = Return ?region")
    using assms by (simp only: slice_of_nat) simp
  show ?thesis
  proof (cases "parseOptions ?region")
    case (Return r)
    then obtain opts oe where r: "parseOptions ?region = Return (opts, oe)"
      by (cases r) simp
    then have "oe \<le> length ?region"
      using parse_options_from_bound [of ?region 0 "[]"] by (simp add: parseOptions_def)
    then have "HeaderSize + oe \<le> length data1"
      using False assms by simp
    then have "go_slice data1 (int (HeaderSize + oe)) (int (length data1)) \<noteq> Panic"
      by (simp only: slice_of_nat) simp
    with r sl False show ?thesis
      by (simp only: go_bind.simps prod.case) (simp add: go_bind_Panic_iff)
  next
    case (Fail x)
    with sl False show ?thesis by simp
  next
    case Panic
    then show ?thesis
      using parse_options_from_not_Panic [of ?region 0 "[]"] by (simp add: parseOptions_def)
  qed
qed

text \<open>
  The decoder panics exactly on the inputs that pass its two length checks and carry a
  data offset below three words: the option region then ends before it starts. A data
  offset beyond the end of the packet, truncated options and unknown types do not panic.
\<close>

lemma DecodeDCCPPacket_panics_iff:
  "DecodeDCCPPacket data = Panic \<longleftrightarrow>
     HeaderSize \<le> length data \<and>
     (if drop_bit 7 (data ! 5) AND 1 = 1 then 16 else HeaderSize) \<le> length data \<and>
     unat (drop_bit 4 (data ! 4) AND 15) < 3"
proof (cases "HeaderSize \<le> length data \<and> (if drop_bit 7 (data ! 5) AND 1 = 1 then 16 else HeaderSize) \<le> length data")
  case False
  then show ?thesis
    by (auto simp: DecodeDCCPPacket_def Let_def split: if_splits)
next
  case True
  define w where "w = unat (drop_bit 4 (data ! 4) AND 15)"
  define e where "e = min (w * 4) (length data)"
  define data1 where "data1 = blit (blit data 6 (put16 0)) 6 (put16 (get16 (take 2 (drop 6 data))))"
  have len1: "length data1 = length data"
    using True by (simp add: data1_def)
  have le: "e \<le> length data1"
    by (simp add: e_def len1)
  have "\<exists>h. DecodeDCCPPacket data = go_bind (go_slice data1 (int HeaderSize) (int e)) (\<lambda>region.
    go_bind (parseOptions region) (\<lambda>(opts, optEnd).
    go_bind (go_slice data1 (int (HeaderSize + optEnd)) (int (length data1))) (\<lambda>payload.
      Return (h, opts, payload))))"
    using True by (cases "drop_bit 7 (data ! 5) AND 1 = 1")
      (simp_all only: DecodeDCCPPacket_def Let_def dccp_header.simps w_def [symmetric] len1
         data1_def [symmetric] e_def [symmetric] if_True if_False simp_thms not_le [symmetric]
         ex_simps, auto)
  then have "DecodeDCCPPacket data = Panic \<longleftrightarrow> e < HeaderSize"
    by (elim exE) (simp only: decode_tail_panic [OF le])
  with True show ?thesis
    by (auto simp: e_def w_def)
qed

section \<open>Round trip\<close>

lemma decode_encoded:
  assumes enc: "EncodeDCCPPacket hdr opts payload = Return pkt" and ok: "list_all opt_ok opts"
    and ty: "list_all (\<lambda>opt. o_type opt \<noteq> OptPadding) opts"
    and small: "options_size opts + padding_size (options_size opts) \<le> 48"
    and ext: "h_ext hdr \<le> 1"
  shows "DecodeDCCPPacket pkt =
    Return (decoded_header (computeChecksum (packet_bytes (h_sum hdr) hdr opts payload)) hdr opts payload,
      map trunc_opt opts, payload)"
proof -
  have e: "h_ext hdr AND 1 = h_ext hdr"
    using byte_le_1_cases [OF ext] by auto
  have room: "4 \<le> length (body_bytes opts payload)" if "h_ext hdr AND 1 = 1"
    using enc ok that e EncodeDCCPPacket_cases [of opts hdr payload]
    by (auto simp: body_bytes_def split: if_splits)
  show ?thesis
    using DecodeDCCPPacket_layout [OF ok _ small room, of hdr] EncodeDCCPPacket_Return [OF enc ok] ty
    by simp
qed

text \<open>
  The sequence number does not survive the round trip: of an extended header the
  decoder recovers the upper half of the number, and in place of the lower half the four
  bytes that follow the 12-byte header (the start of the options or of the payload).
\<close>

lemma sequence_number_corrupted:
  assumes enc: "EncodeDCCPPacket hdr opts payload = Return pkt" and ok: "list_all opt_ok opts"
    and ty: "list_all (\<lambda>opt. o_type opt \<noteq> OptPadding) opts"
    and small: "options_size opts + padding_size (options_size opts) \<le> 48"
    and ext: "h_ext hdr = 1"
  shows "\<exists>hdr' os pl. DecodeDCCPPacket pkt = Return (hdr', os, pl) \<and>
    put64 (h_seq hdr') = take 4 (put64 (h_seq hdr)) @ take 4 (drop HeaderSize pkt)"
proof -
  have room: "4 \<le> length (body_bytes opts payload)"
    using enc ok ext EncodeDCCPPacket_cases [of opts hdr payload]
    by (auto simp: body_bytes_def split: if_splits)
  define ck where "ck = computeChecksum (packet_bytes (h_sum hdr) hdr opts payload)"
  have pkt: "pkt = packet_bytes ck hdr opts payload"
    unfolding ck_def by (rule EncodeDCCPPacket_Return [OF enc ok])
  have dec: "DecodeDCCPPacket pkt = Return (decoded_header ck hdr opts payload, map trunc_opt opts, payload)"
    unfolding pkt by (rule DecodeDCCPPacket_layout [OF ok _ small room]) (use ty in simp)
  have "put64 (h_seq (decoded_header ck hdr opts payload)) = seq_bytes hdr @ take 4 (body_bytes opts payload)"
    using room ext by (simp add: decoded_header_def be_put_get)
  also have "\<dots> = take 4 (put64 (h_seq hdr)) @ take 4 (drop HeaderSize pkt)"
    using ext by (simp only: seq_bytes_def pkt packet_fields(6) simp_thms if_True)
  finally show ?thesis
    using dec by blast
qed

text \<open>
  C7: decoding a packet the encoder returns gives back ports, options and payload, the low four bits of
  congestion value and type, and the extension bit; the checksum is the one computed over the packet
  with the caller's checksum in its place. Of the sequence number of an extended header only the upper
  half comes back, followed by the four bytes after the 12-byte header; without the extension it
  comes back as 0. This is for options that are not padding, announce at least their own two bytes
  and at most the data they carry, and fit the 4-bit data offset; option data beyond the announced
  length is cut.
\<close>

theorem decode_encode:
  assumes enc: "EncodeDCCPPacket hdr opts payload = Return pkt" and ok: "list_all opt_ok opts"
    and ty: "list_all (\<lambda>opt. o_type opt \<noteq> OptPadding) opts"
    and small: "options_size opts + padding_size (options_size opts) \<le> 48"
    and ext: "h_ext hdr \<le> 1"
  shows "\<exists>hdr'. DecodeDCCPPacket pkt = Return (hdr', map trunc_opt opts, payload) \<and>
    h_src hdr' = h_src hdr \<and> h_dst hdr' = h_dst hdr \<and> h_ccval hdr' = h_ccval hdr AND 15 \<and>
    h_type hdr' = h_type hdr AND 15 \<and> h_ext hdr' = h_ext hdr \<and> unat (h_off hdr') * 4 + length payload = length pkt \<and>
    h_sum hdr' = computeChecksum (blit pkt 6 (put16 (h_sum hdr))) \<and>
    put64 (h_seq hdr') = (if h_ext hdr = 1 then take 4 (put64 (h_seq hdr)) @ take 4 (drop HeaderSize pkt) else put64 0)"
proof -
  have e: "h_ext hdr AND 1 = h_ext hdr"
    using byte_le_1_cases [OF ext] by auto
  define ck where "ck = computeChecksum (packet_bytes (h_sum hdr) hdr opts payload)"
  note pkt = EncodeDCCPPacket_Return [OF enc ok, folded ck_def]
  have dec: "DecodeDCCPPacket pkt = Return (decoded_header ck hdr opts payload, map trunc_opt opts, payload)"
    using decode_encoded [OF assms] by (simp add: ck_def)
  have "length pkt = HeaderSize + options_size opts + padding_size (options_size opts) + length payload"
    using length_packet_bytes [OF ok] pkt by simp
  moreover have "ck = computeChecksum (blit pkt 6 (put16 (h_sum hdr)))"
    by (simp only: pkt packet_bytes_sum) (simp add: ck_def)
  moreover have "put64 (h_seq (decoded_header ck hdr opts payload)) =
      take 4 (put64 (h_seq hdr)) @ take 4 (drop HeaderSize pkt)" if "h_ext hdr = 1"
    using sequence_number_corrupted [OF enc ok ty small that] dec by auto
  moreover have "h_seq (decoded_header ck hdr opts payload) = 0" if "h_ext hdr \<noteq> 1"
    using that e by (simp add: decoded_header_def)
  ultimately show ?thesis
    using dec e unat_data_offset(1) [OF small] by (auto simp: decoded_header_def)
qed

theorem decode_encode_witness:
  "\<exists>pkt hdr'. EncodeDCCPPacket (packet_header 7 8 PktDCCPRequest 5)
      [\<lparr>o_type = OptFeature, o_len = 5, o_data = [4, 0, 0]\<rparr>] [1, 2] = Return pkt \<and>
    DecodeDCCPPacket pkt = Return (hdr', [\<lparr>o_type = 46, o_len = 5, o_data = [4, 0, 0]\<rparr>], [1, 2]) \<and>
    h_dst hdr' = 8 \<and> take 4 (put64 (h_seq hdr')) = take 4 (put64 5)"
proof -
  let ?h = "packet_header 7 8 PktDCCPRequest 5"
  let ?o = "[\<lparr>o_type = OptFeature, o_len = 5, o_data = [4, 0, 0]\<rparr>]"
  have "\<exists>pkt. EncodeDCCPPacket ?h ?o [1, 2] = Return pkt"
    using EncodeDCCPPacket_cases [of ?o ?h "[1, 2]"] by auto
  then obtain pkt where pkt: "EncodeDCCPPacket ?h ?o [1, 2] = Return pkt"
    by blast
  have ok: "list_all opt_ok ?o" "list_all (\<lambda>opt. o_type opt \<noteq> OptPadding) ?o"
      "options_size ?o + padding_size (options_size ?o) \<le> 48" "h_ext ?h \<le> 1" "h_ext ?h = 1"
    by (simp_all add: opt_ok_def padding_size_def packet_header_def)
  from decode_encode [OF pkt ok(1-4)] obtain hdr' where
    "DecodeDCCPPacket pkt = Return (hdr', map trunc_opt ?o, [1, 2])" "h_dst hdr' = h_dst ?h"
    "put64 (h_seq hdr') = take 4 (put64 (h_seq ?h)) @ take 4 (drop HeaderSize pkt)"
    using ok(5) by auto
  with pkt show ?thesis
    by (auto simp: trunc_opt_eq packet_header_def)
qed

section \<open>The builders\<close>

lemma h_ext_packet_header [simp]: "h_ext (packet_header src dst t sq) = 1"
  by (simp add: packet_header_def)

lemma empty_packet_panics:
  "length payload < 4 \<Longrightarrow> EncodeDCCPPacket (packet_header src dst t sq) [] payload = Panic"
  using EncodeDCCPPacket_cases [of "[]" "packet_header src dst t sq" payload]
  by (simp add: padding_size_def)

lemma BuildAckPacket_panics: "BuildAckPacket src dst sq = Panic"
  and BuildClosePacket_panics: "BuildClosePacket src dst sq = Panic"
  and BuildResetPacket_panics: "BuildResetPacket src dst sq reason = Panic"
  by (simp_all add: BuildAckPacket_def BuildClosePacket_def BuildResetPacket_def empty_packet_panics)

lemma BuildRequestPacket_length: "\<exists>pkt. BuildRequestPacket src dst sc sq = Return pkt \<and> length pkt = 36"
  using EncodeDCCPPacket_cases [of "[\<lparr>o_type = OptInitCookie, o_len = 6, o_data = [0, 0] @ sc\<rparr>,
      \<lparr>o_type = OptFeature, o_len = 5, o_data = [CCID4, 0, 0]\<rparr>,
      \<lparr>o_type = OptTimestamp, o_len = 10, o_data = replicate 8 0\<rparr>]" _ "[]"]
  by (simp add: BuildRequestPacket_def padding_size_def)

lemma BuildResponsePacket_length: "\<exists>pkt. BuildResponsePacket src dst sc sq sq' = Return pkt \<and> length pkt = 36"
  using EncodeDCCPPacket_cases [of "[\<lparr>o_type = OptInitCookie, o_len = 6, o_data = [0, 0] @ sc\<rparr>,
      \<lparr>o_type = OptConfirmL, o_len = 6, o_data = replicate 4 0\<rparr>,
      \<lparr>o_type = OptTimestampEcho, o_len = 10, o_data = replicate 8 0\<rparr>]" _ "[]"]
  by (simp add: BuildResponsePacket_def padding_size_def)

text \<open>
  Acknowledgements, closes and resets can never be built: with no options and at most
  one byte of payload the extended sequence number does not fit, so the builder panics. Data
  packets panic for payloads below four bytes and are built for all others; requests and
  responses are always built.
\<close>

lemma builders_total:
  "BuildAckPacket src dst sq = Panic \<and> BuildClosePacket src dst sq = Panic \<and>
   BuildResetPacket src dst sq reason = Panic \<and>
   (BuildDataPacket src dst sq payload = Panic \<longleftrightarrow> length payload < 4) \<and>
   (\<exists>pkt. BuildRequestPacket src dst sc sq = Return pkt \<and> length pkt = 36) \<and>
   (\<exists>pkt. BuildResponsePacket src dst sc sq sq' = Return pkt \<and> length pkt = 36)"
  using EncodeDCCPPacket_cases [of "[]" "packet_header src dst PktDCCPData sq" payload]
  by (auto simp: BuildAckPacket_panics BuildClosePacket_panics BuildResetPacket_panics
      BuildDataPacket_def padding_size_def BuildRequestPacket_length BuildResponsePacket_length
      split: if_splits)

section \<open>Reading packets from a stream\<close>

text \<open>The stream reader takes the header and the option region, and nothing of the payload.\<close>

lemma packet_split:
  "packet_bytes ck hdr opts payload = take HeaderSize (packet_bytes ck hdr opts []) @ body_bytes opts payload"
  using append_take_drop_id [of HeaderSize "packet_bytes ck hdr opts payload"]
  by (simp add: packet_fields(6) packet_bytes_def put16_bytes)

lemma body_split: "body_bytes opts payload = body_bytes opts [] @ payload"
  by (simp add: body_bytes_def)

lemma ReadFullDCCPPacket_packet:
  assumes ok: "list_all opt_ok opts" and small: "options_size opts + padding_size (options_size opts) \<le> 48"
  shows "ReadFullDCCPPacket (packet_bytes ck hdr opts payload @ rest) =
    go_map (\<lambda>r. (r, payload @ rest)) (DecodeDCCPPacket (packet_bytes ck hdr opts []))"
proof -
  define H where "H = take HeaderSize (packet_bytes ck hdr opts [])"
  define N where "N = options_size opts + padding_size (options_size opts)"
  have lenH: "length H = HeaderSize" and h4: "H ! 4 = push_bit 4 (data_offset opts) OR (h_ccval hdr AND 15)"
    by (simp_all add: H_def packet_bytes_def put16_bytes)
  have lenB: "length (body_bytes opts []) = N"
    using ok by (simp add: body_bytes_def N_def)
  have off: "drop_bit 4 (H ! 4) AND 15 = data_offset opts" "unat (data_offset opts) * 4 = HeaderSize + N"
    using unat_data_offset [OF small] by (simp_all only: h4 offset_byte_bits N_def)
  have "unat (data_offset opts * 4) = HeaderSize + N"
    using off(2) small by (simp add: unat_word_ariths N_def)
  then have needed: "unat ((drop_bit 4 (H ! 4) AND 15) * 4) - HeaderSize = N"
    by (simp only: off(1) diff_add_inverse)
  have P: "packet_bytes ck hdr opts payload @ rest = H @ body_bytes opts [] @ payload @ rest"
    and P': "packet_bytes ck hdr opts [] = H @ body_bytes opts []"
    using packet_split [of ck hdr opts payload] packet_split [of ck hdr opts "[]"]
    by (simp_all only: H_def body_split [of opts payload] append_assoc)
  have "read_full HeaderSize (packet_bytes ck hdr opts payload @ rest) = Return (H, body_bytes opts [] @ payload @ rest)"
    unfolding P by (rule read_full_append [OF lenH])
  moreover have "(if N > 0 then read_full N (body_bytes opts [] @ payload @ rest)
      else Return ([], body_bytes opts [] @ payload @ rest)) = Return (body_bytes opts [], payload @ rest)"
    using lenB by auto
  ultimately show ?thesis
    by (simp only: ReadFullDCCPPacket_def go_bind.simps prod.case Let_def needed P')
qed

text \<open>Reading back an encoded packet without payload.\<close>

lemma ReadFullDCCPPacket_encoded:
  assumes enc: "EncodeDCCPPacket hdr opts [] = Return pkt" and ok: "list_all opt_ok opts"
    and ty: "list_all (\<lambda>opt. o_type opt \<noteq> OptPadding) opts"
    and small: "options_size opts + padding_size (options_size opts) \<le> 48"
    and ext: "h_ext hdr \<le> 1"
  shows "ReadFullDCCPPacket (pkt @ rest) =
    Return ((decoded_header (computeChecksum (packet_bytes (h_sum hdr) hdr opts [])) hdr opts [],
      map trunc_opt opts, []), rest)"
  using ReadFullDCCPPacket_packet [OF ok small, of _ hdr "[]" rest] decode_encoded [OF assms]
    EncodeDCCPPacket_Return [OF enc ok]
  by simp

text \<open>
  The stream reader stops after the option region, so the payload of a packet is never
  delivered with it, and a data packet (which has no options) is never readable at all:
  only its 12 header bytes are taken, and the decoder, which wants 16 bytes for the
  extended sequence number, rejects them.
\<close>

lemma data_packets_unreadable:
  assumes "BuildDataPacket src dst sq payload = Return pkt"
  shows "ReadFullDCCPPacket (pkt @ rest) = Fail ErrPacketTooSmall"
proof -
  let ?h = "packet_header src dst PktDCCPData sq"
  let ?P = "packet_bytes (computeChecksum (packet_bytes (h_sum ?h) ?h [] payload)) ?h []"
  have pkt: "pkt = ?P payload"
    using assms by (intro EncodeDCCPPacket_Return) (simp_all add: BuildDataPacket_def)
  have "DecodeDCCPPacket (?P []) = Fail ErrPacketTooSmall"
    by (simp add: DecodeDCCPPacket_def Let_def packet_bytes_def put16_bytes body_bytes_def
        options_bytes_def padding_size_def packet_header_def seq_bytes_def)
  then show ?thesis
    unfolding pkt by (subst ReadFullDCCPPacket_packet) (simp_all add: padding_size_def)
qed

end
