(* ===== verification/Dccp_Options.thy ===== *)
theory Dccp_Options
  imports Dccp_Packet
begin

text \<open>
  \<open>app/transport/dccp/options.go\<close>: the builders of DCCP options. An option is \<open>exact\<close> when
  its length byte counts all of its data; the encoder writes the announced bytes only, so
  this decides whether the peer sees the whole option.
\<close>

section \<open>The builders\<close>

text \<open>The five feature negotiation builders differ in the option type only.\<close>

definition feature_option :: "option_type \<Rightarrow> byte \<Rightarrow> bytes \<Rightarrow> dccp_option" where
  "feature_option t feature val =
     \<lparr>o_type = t, o_len = word_of_nat (3 + length val),
      o_data = [feature, word_of_nat (length val)] @ val\<rparr>"

definition BuildFeatureOption :: "byte \<Rightarrow> bytes \<Rightarrow> dccp_option" where
  "BuildFeatureOption = feature_option OptFeature"
definition BuildChangeLOption :: "byte \<Rightarrow> bytes \<Rightarrow> dccp_option" where
  "BuildChangeLOption = feature_option OptChangeL"
definition BuildConfirmLOption :: "byte \<Rightarrow> bytes \<Rightarrow> dccp_option" where
  "BuildConfirmLOption = feature_option OptConfirmL"
definition BuildChangeROption :: "byte \<Rightarrow> bytes \<Rightarrow> dccp_option" where
  "BuildChangeROption = feature_option OptChangeR"
definition BuildConfirmROption :: "byte \<Rightarrow> bytes \<Rightarrow> dccp_option" where
  "BuildConfirmROption = feature_option OptConfirmR"

definition BuildFeatureAckOption :: "byte \<Rightarrow> dccp_option" where
  "BuildFeatureAckOption feature = \<lparr>o_type = OptFeatureAck, o_len = 3, o_data = [feature, 0]\<rparr>"

text \<open>The clock is an argument: \<open>now\<close> is the time in microseconds.\<close>

definition BuildTimestampOption :: "u64 \<Rightarrow> dccp_option" where
  "BuildTimestampOption now = \<lparr>o_type = OptTimestamp, o_len = 10, o_data = put64 now\<rparr>"

definition BuildTimestampEchoOption :: "bytes \<Rightarrow> dccp_option" where
  "BuildTimestampEchoOption ts =
     \<lparr>o_type = OptTimestampEcho, o_len = 10,
      o_data = (if length ts \<ge> 8 then take 8 ts else replicate 8 0)\<rparr>"

definition BuildAckVectorOption :: "bytes \<Rightarrow> dccp_option" where
  "BuildAckVectorOption v = \<lparr>o_type = OptAckVector, o_len = word_of_nat (2 + length v), o_data = v\<rparr>"

definition BuildDataChecksumOption :: dccp_option where
  "BuildDataChecksumOption = \<lparr>o_type = OptDataChecksum, o_len = 2, o_data = []\<rparr>"

definition BuildElapsedTimeOption :: dccp_option where
  "BuildElapsedTimeOption = \<lparr>o_type = OptElapsedTime, o_len = 6, o_data = replicate 4 0\<rparr>"

definition BuildSlowReceiverOption :: "u32 \<Rightarrow> dccp_option" where
  "BuildSlowReceiverOption recvRate = \<lparr>o_type = OptSlowReceiver, o_len = 6, o_data = put32 recvRate\<rparr>"

definition BuildDataDroppedOption :: "byte \<Rightarrow> u16 \<Rightarrow> dccp_option" where
  "BuildDataDroppedOption dropCode blockLength =
     \<lparr>o_type = OptDataDropped, o_len = 9,
      o_data = blit ((replicate 7 0)[0 := dropCode]) 1 (put16 blockLength)\<rparr>"

definition BuildMinCSUMOption :: dccp_option where
  "BuildMinCSUMOption = \<lparr>o_type = OptMinCSUM, o_len = 2, o_data = []\<rparr>"

definition BuildInitCookieOption :: "bytes \<Rightarrow> service_code \<Rightarrow> dccp_option" where
  "BuildInitCookieOption cookie sc =
     (let data0 = replicate (2 + length cookie + 4) 0;
          data1 = blit data0 2 cookie;
          data = blit data1 (2 + length cookie) sc
      in \<lparr>o_type = OptInitCookie, o_len = word_of_nat (2 + length data), o_data = data\<rparr>)"

section \<open>Which options reach the peer whole\<close>

definition exact :: "dccp_option \<Rightarrow> bool" where
  "exact opt \<longleftrightarrow> unat (o_len opt) = 2 + length (o_data opt)"

lemma exact_ok: "exact opt \<Longrightarrow> opt_ok opt"
  by (simp add: exact_def opt_ok_def)

lemma exact_trunc: "exact opt \<Longrightarrow> trunc_opt opt = opt"
  by (simp add: exact_def trunc_opt_eq)

lemma unat_byte_of_nat: "unat (word_of_nat n :: byte) = n mod 256"
  by (simp add: unat_of_nat)

lemma unat_byte_of_nat_eq_add: "unat (word_of_nat n :: byte) = n \<longleftrightarrow> n < 256"
  by (auto simp: unat_byte_of_nat)

lemma unat_byte_of_nat_le: "unat (word_of_nat n :: byte) \<le> n"
  by (simp add: unat_of_nat)

lemma not_exact_feature: "\<not> exact (feature_option t f val)"
  using unat_byte_of_nat_le [of "3 + length val"] by (simp add: exact_def feature_option_def)

text \<open>
  Which builders announce exactly the data they carry. Timestamps, elapsed time,
  receiver rate, dropped data, checksum options always do; ack vectors and cookies do as
  long as the length fits a byte; the feature negotiation options and the feature
  acknowledgement never do.
\<close>

lemma option_builders_exact:
  "exact (BuildTimestampOption now) \<and> exact (BuildTimestampEchoOption ts) \<and>
   exact BuildElapsedTimeOption \<and> exact (BuildSlowReceiverOption rate) \<and>
   exact (BuildDataDroppedOption code blk) \<and> exact BuildDataChecksumOption \<and> exact BuildMinCSUMOption \<and>
   (exact (BuildAckVectorOption v) \<longleftrightarrow> length v < 254) \<and>
   (exact (BuildInitCookieOption cookie sc) \<longleftrightarrow> length cookie < 248) \<and>
   \<not> exact (BuildFeatureOption f val) \<and> \<not> exact (BuildChangeLOption f val) \<and>
   \<not> exact (BuildConfirmLOption f val) \<and> \<not> exact (BuildChangeROption f val) \<and>
   \<not> exact (BuildConfirmROption f val) \<and> \<not> exact (BuildFeatureAckOption f)"
proof -
  have "exact (BuildAckVectorOption v) \<longleftrightarrow> length v < 254"
    using unat_byte_of_nat_eq_add [of "2 + length v"]
    by (auto simp: exact_def BuildAckVectorOption_def)
  moreover have "exact (BuildInitCookieOption cookie sc) \<longleftrightarrow> length cookie < 248"
    using unat_byte_of_nat_eq_add [of "8 + length cookie"]
    by (auto simp: exact_def BuildInitCookieOption_def Let_def)
  ultimately show ?thesis
    by (simp add: not_exact_feature BuildFeatureOption_def BuildChangeLOption_def
        BuildConfirmLOption_def BuildChangeROption_def BuildConfirmROption_def)
      (simp add: exact_def BuildTimestampOption_def BuildTimestampEchoOption_def
        BuildElapsedTimeOption_def BuildSlowReceiverOption_def BuildDataDroppedOption_def
        BuildDataChecksumOption_def BuildMinCSUMOption_def BuildFeatureAckOption_def)
qed

text \<open>
  A feature negotiation option loses the last byte of its value on the wire: the
  decoder of the encoded packet sees the feature, the announced value length, and all of
  the value except its last byte.
\<close>

lemma feature_value_truncated:
  assumes "opt \<in> {BuildFeatureOption f val, BuildChangeLOption f val, BuildConfirmLOption f val,
      BuildChangeROption f val, BuildConfirmROption f val}"
    and enc: "EncodeDCCPPacket hdr [opt] payload = Return pkt"
    and len: "val \<noteq> []" "length val \<le> 45" and ext: "h_ext hdr \<le> 1"
  shows "\<exists>hdr' opt'. DecodeDCCPPacket pkt = Return (hdr', [opt'], payload) \<and> o_type opt' = o_type opt \<and>
    o_data opt' = f # word_of_nat (length val) # butlast val"
proof -
  from assms(1) obtain t where t: "t \<noteq> 0" and b: "opt = feature_option t f val"
    by (elim insertE) (auto intro!: that simp: BuildFeatureOption_def BuildChangeLOption_def BuildConfirmLOption_def
        BuildChangeROption_def BuildConfirmROption_def)
  have l: "unat (o_len opt) = 3 + length val"
    using len by (simp only: b feature_option_def dccp_option.simps unat_of_nat) simp
  then have size: "options_size [opt] = 3 + length val"
    by simp
  have small: "options_size [opt] + padding_size (options_size [opt]) \<le> 48"
    using len by (simp add: padding_multiple l)
  have "DecodeDCCPPacket pkt = Return (decoded_header (computeChecksum (packet_bytes (h_sum hdr) hdr [opt] payload))
      hdr [opt] payload, map trunc_opt [opt], payload)"
    using l len t
    by (intro decode_encoded [OF enc _ _ small ext])
       (auto simp: b feature_option_def opt_ok_def)
  moreover have "trunc_opt (opt) = \<lparr>o_type = t, o_len = word_of_nat (3 + length val),
      o_data = f # word_of_nat (length val) # butlast val\<rparr>"
    using len l by (cases "length val") (simp_all add: trunc_opt_eq b feature_option_def butlast_conv_take del: of_nat_add)
  ultimately show ?thesis
    by (auto simp: b feature_option_def)
qed

end
