(* ===== verification/Dccp_Handshake.thy ===== *)
theory Dccp_Handshake
  imports Dccp_Options
begin

text \<open>
  \<open>app/transport/dccp/handshake.go\<close>: the connection state, its table of transitions, and the
  client, server and close handlers as functions on the connection state and the
  connection. Deadlines show as a
  failing read or write; sleeping between attempts has no other effect.
\<close>

section \<open>State\<close>

definition ErrHandshakeFailed :: error where
  "ErrHandshakeFailed = Error ''dccp: handshake failed''"
definition ErrInvalidCookie :: error where
  "ErrInvalidCookie = Error ''dccp: invalid cookie''"

type_synonym handshake_state = byte

definition StateClosed :: handshake_state where [simp]: "StateClosed = 0"
definition StateRequest :: handshake_state where [simp]: "StateRequest = 1"
definition StateRespond :: handshake_state where [simp]: "StateRespond = 2"
definition StateParTOPEN :: handshake_state where [simp]: "StateParTOPEN = 3"
definition StateOpen :: handshake_state where [simp]: "StateOpen = 4"
definition StateCloseReq :: handshake_state where [simp]: "StateCloseReq = 5"
definition StateClosing :: handshake_state where [simp]: "StateClosing = 6"
definition StateTimeWait :: handshake_state where [simp]: "StateTimeWait = 7"

record conn_state =
  cs_State :: handshake_state
  cs_LocalPort :: u16
  cs_RemotePort :: u16
  cs_LocalSeq :: u64
  cs_RemoteSeq :: u64
  cs_LocalAck :: u64
  cs_RemoteAck :: u64
  cs_ServiceCode :: service_code
  cs_CCID :: ccid
  cs_LastActivity :: int
  cs_IsServer :: bool
  cs_NegotiatedCCID :: ccid

definition NewConnState :: "int \<Rightarrow> bool \<Rightarrow> conn_state" where
  "NewConnState now isServer =
     \<lparr>cs_State = StateClosed, cs_LocalPort = 0, cs_RemotePort = 0, cs_LocalSeq = 0, cs_RemoteSeq = 0,
      cs_LocalAck = 0, cs_RemoteAck = 0, cs_ServiceCode = [0, 0, 0, 0], cs_CCID = CCID4,
      cs_LastActivity = now, cs_IsServer = isServer, cs_NegotiatedCCID = 0\<rparr>"

text \<open>The random source fills the 8 bytes \<open>rnd\<close>.\<close>

definition GenerateSequence :: "bytes \<Rightarrow> u64" where
  "GenerateSequence rnd = get64 rnd"

definition AdvanceState :: "handshake_state \<Rightarrow> handshake_state \<Rightarrow> bool" where
  "AdvanceState st new =
     (if st = StateClosed then new = StateRequest \<or> new = StateRespond
      else if st = StateRequest then new = StateRespond \<or> new = StateOpen
      else if st = StateRespond then new = StateParTOPEN \<or> new = StateOpen
      else if st = StateParTOPEN then new = StateOpen
      else if st = StateOpen then new = StateCloseReq \<or> new = StateClosing
      else if st = StateCloseReq then new = StateClosing \<or> new = StateTimeWait
      else if st = StateClosing then new = StateTimeWait
      else if st = StateTimeWait then new = StateClosed
      else False)"

record handshake_config =
  hc_ServiceCode :: service_code
  hc_CCID :: ccid
  hc_MaxRetries :: int

text \<open>The service code \<open>V2RY\<close>; \<open>RetryDelay\<close>, \<open>Timeout\<close> and the unused \<open>InitCookie\<close> have no counterpart.\<close>

definition DefaultHandshakeConfig :: handshake_config where
  "DefaultHandshakeConfig =
     \<lparr>hc_ServiceCode = [0x56, 0x32, 0x52, 0x59], hc_CCID = CCID4, hc_MaxRetries = 3\<rparr>"

section \<open>Reading packets from a connection\<close>

text \<open>
  What the reader leaves of the stream, also when it fails: it takes the header and the
  announced option region, as far as they are there.
\<close>

definition after_packet :: "stream \<Rightarrow> stream" where
  "after_packet s =
     drop (HeaderSize + (unat ((drop_bit 4 (s ! 4) AND 0x0F) * 4) - HeaderSize)) s"

definition conn_read :: "conn \<Rightarrow> conn \<times> (dccp_header \<times> dccp_option list \<times> bytes) go" where
  "conn_read c =
     (c\<lparr>c_in := (if length (c_in c) < HeaderSize then [] else after_packet (c_in c))\<rparr>,
      go_map fst (ReadFullDCCPPacket (c_in c)))"

lemma ReadFull_rest:
  "ReadFullDCCPPacket s = Return (r, s') \<Longrightarrow> s' = after_packet s \<and> HeaderSize \<le> length s"
  by (auto simp: ReadFullDCCPPacket_def after_packet_def read_full_def Let_def go_bind_Return_iff
      go_map_Return_iff add.commute split: if_splits)

section \<open>The handlers\<close>

definition has_cookie :: "dccp_option list \<Rightarrow> bool" where
  "has_cookie opts \<longleftrightarrow> list_ex (\<lambda>opt. o_type opt = OptInitCookie \<and> length (o_data opt) \<ge> 4) opts"

definition negotiate :: "dccp_option list \<Rightarrow> conn_state \<Rightarrow> conn_state" where
  "negotiate opts st =
     fold (\<lambda>opt st. if o_type opt = OptFeature \<and> length (o_data opt) \<ge> 1
                  then st\<lparr>cs_NegotiatedCCID := o_data opt ! 0\<rparr> else st) opts st"

text \<open>The client after a response with a cookie: the acknowledgement is built and sent.\<close>

definition client_established ::
  "u16 \<Rightarrow> u16 \<Rightarrow> u64 \<Rightarrow> dccp_header \<Rightarrow> dccp_option list \<Rightarrow> conn_state \<Rightarrow> conn \<Rightarrow> conn_state \<times> conn \<times> unit go" where
  "client_established src dst localSeq hdr opts st c =
     (let st1 = st\<lparr>cs_RemoteSeq := h_seq hdr, cs_LocalAck := h_seq hdr,
                   cs_RemoteAck := localSeq + 1, cs_State := StateParTOPEN\<rparr>
      in case BuildAckPacket src dst (cs_LocalAck st1) of
           Panic \<Rightarrow> (st1, c, Panic)
         | Fail e \<Rightarrow> (st1, c, Fail e)
         | Return ack \<Rightarrow>
             (let st2 = st1\<lparr>cs_LocalSeq := cs_LocalSeq st1 + 1, cs_State := StateOpen\<rparr>
              in case conn_write ack c of
                   (c1, Some e) \<Rightarrow> (st2, c1, Fail e)
                 | (c1, None) \<Rightarrow> (negotiate opts st2, c1, Return ())))"

function client_loop ::
  "int \<Rightarrow> bytes \<Rightarrow> u16 \<Rightarrow> u16 \<Rightarrow> u64 \<Rightarrow> int \<Rightarrow> conn_state \<Rightarrow> conn \<Rightarrow> conn_state \<times> conn \<times> unit go" where
  "client_loop maxRetries req src dst localSeq attempt st c =
     (if attempt > maxRetries then (st, c, Fail ErrHandshakeFailed)
      else case conn_write req c of
        (c1, Some e) \<Rightarrow>
          if attempt = maxRetries then (st, c1, Fail e)
          else client_loop maxRetries req src dst localSeq (attempt + 1) st c1
      | (c1, None) \<Rightarrow>
         (case conn_read c1 of
            (c2, Panic) \<Rightarrow> (st, c2, Panic)
          | (c2, Fail e) \<Rightarrow>
              if attempt = maxRetries then (st, c2, Fail ErrHandshakeFailed)
              else client_loop maxRetries req src dst localSeq (attempt + 1) st c2
          | (c2, Return (hdr, opts, _)) \<Rightarrow>
              if h_type hdr \<noteq> PktDCCPResponse then
                if attempt = maxRetries then (st, c2, Fail ErrHandshakeFailed)
                else client_loop maxRetries req src dst localSeq (attempt + 1) st c2
              else if \<not> has_cookie opts then (st, c2, Fail ErrInvalidCookie)
              else client_established src dst localSeq hdr opts st c2))"
  by pat_completeness auto
termination
  by (relation "measure (\<lambda>(m, _, _, _, _, a, _). nat (m + 1 - a))") auto

declare client_loop.simps [simp del]

definition ClientHandshake ::
  "handshake_config \<Rightarrow> u16 \<Rightarrow> u16 \<Rightarrow> bytes \<Rightarrow> conn_state \<Rightarrow> conn \<Rightarrow> conn_state \<times> conn \<times> unit go" where
  "ClientHandshake cfg src dst rnd st c =
     (let st1 = st\<lparr>cs_IsServer := False, cs_LocalPort := src, cs_RemotePort := dst,
                   cs_State := StateRequest, cs_LocalSeq := GenerateSequence rnd\<rparr>
      in case BuildRequestPacket src dst (hc_ServiceCode cfg) (cs_LocalSeq st1) of
           Panic \<Rightarrow> (st1, c, Panic)
         | Fail e \<Rightarrow> (st1, c, Fail e)
         | Return req \<Rightarrow> client_loop (hc_MaxRetries cfg) req src dst (cs_LocalSeq st1) 0 st1 c)"

text \<open>The service code the server takes from the cookie options (the last one wins).\<close>

fun server_cookie :: "dccp_option list \<Rightarrow> service_code option \<Rightarrow> service_code option go" where
  "server_cookie [] acc = Return acc"
| "server_cookie (opt # opts) acc =
     (if o_type opt = OptInitCookie \<and> length (o_data opt) \<ge> 4
      then go_bind (go_slice (o_data opt) 2 6) (\<lambda>sc. server_cookie opts (Some sc))
      else server_cookie opts acc)"

definition server_wait_ack :: "u16 \<Rightarrow> u16 \<Rightarrow> conn_state \<Rightarrow> conn \<Rightarrow> conn_state \<times> conn \<times> (u16 \<times> u16) go" where
  "server_wait_ack src dst st c =
     (case conn_read c of
        (c1, Panic) \<Rightarrow> (st, c1, Panic)
      | (c1, Fail e) \<Rightarrow> (st, c1, Fail e)
      | (c1, Return (ackHdr, _, _)) \<Rightarrow>
          if h_type ackHdr \<noteq> PktDCCPAck then (st, c1, Fail ErrHandshakeFailed)
          else (st\<lparr>cs_LocalAck := h_seq ackHdr, cs_State := StateOpen\<rparr>, c1, Return (src, dst)))"

definition server_respond ::
  "dccp_header \<Rightarrow> service_code \<Rightarrow> bytes \<Rightarrow> conn_state \<Rightarrow> conn \<Rightarrow> conn_state \<times> conn \<times> (u16 \<times> u16) go" where
  "server_respond hdr sc rnd st c =
     (let sq = GenerateSequence rnd;
          st1 = st\<lparr>cs_LocalPort := h_dst hdr, cs_RemotePort := h_src hdr, cs_ServiceCode := sc,
                   cs_RemoteSeq := h_seq hdr, cs_LocalSeq := sq, cs_RemoteAck := sq,
                   cs_State := StateRespond\<rparr>
      in case BuildResponsePacket (h_dst hdr) (h_src hdr) sc sq (h_seq hdr) of
           Panic \<Rightarrow> (st1, c, Panic)
         | Fail e \<Rightarrow> (st1, c, Fail e)
         | Return resp \<Rightarrow>
             (case conn_write resp c of
                (c1, Some e) \<Rightarrow> (st1, c1, Fail e)
              | (c1, None) \<Rightarrow> server_wait_ack (h_src hdr) (h_dst hdr) st1 c1))"

definition ServerHandshake :: "bytes \<Rightarrow> conn_state \<Rightarrow> conn \<Rightarrow> conn_state \<times> conn \<times> (u16 \<times> u16) go" where
  "ServerHandshake rnd st c =
     (let st0 = st\<lparr>cs_IsServer := True, cs_State := StateClosed\<rparr>
      in case conn_read c of
           (c1, Panic) \<Rightarrow> (st0, c1, Panic)
         | (c1, Fail e) \<Rightarrow> (st0, c1, Fail e)
         | (c1, Return (hdr, opts, _)) \<Rightarrow>
             if h_type hdr \<noteq> PktDCCPRequest then (st0, c1, Fail ErrHandshakeFailed)
             else case server_cookie opts None of
                    Panic \<Rightarrow> (st0, c1, Panic)
                  | Fail e \<Rightarrow> (st0, c1, Fail e)
                  | Return None \<Rightarrow> (st0, c1, Fail ErrInvalidCookie)
                  | Return (Some sc) \<Rightarrow> server_respond hdr sc rnd st0 c1)"

definition handshake_Close :: "conn_state \<Rightarrow> conn \<Rightarrow> conn_state \<times> conn \<times> unit go" where
  "handshake_Close st c =
     (let st1 = st\<lparr>cs_State := StateClosing\<rparr>
      in case BuildClosePacket (cs_LocalPort st) (cs_RemotePort st) (cs_LocalSeq st) of
           Panic \<Rightarrow> (st1, c, Panic)
         | Fail e \<Rightarrow> (st1, c, Fail e)
         | Return pkt \<Rightarrow>
             (case conn_write pkt c of (c1, err) \<Rightarrow>
                (st1\<lparr>cs_State := StateClosed\<rparr>, c1, case err of None \<Rightarrow> Return () | Some e \<Rightarrow> Fail e)))"

definition handshake_State :: "conn_state \<Rightarrow> handshake_state" where
  "handshake_State st = cs_State st"

section \<open>What the handlers read\<close>

lemma go_slice_cookie [simp]: "length xs = 4 \<Longrightarrow> go_slice xs 2 6 = Panic"
  by (simp add: go_slice_def)

lemma read_request:
  assumes "BuildRequestPacket src dst sc sq = Return req" and "length sc = 4"
  shows "\<exists>hdr opts. ReadFullDCCPPacket (req @ rest) = Return ((hdr, opts, []), rest) \<and>
    h_type hdr = PktDCCPRequest \<and> server_cookie opts None = Panic"
proof -
  let ?o = "[\<lparr>o_type = OptInitCookie, o_len = 6, o_data = [0, 0] @ sc\<rparr>,
      \<lparr>o_type = OptFeature, o_len = 5, o_data = [CCID4, 0, 0]\<rparr>,
      \<lparr>o_type = OptTimestamp, o_len = 10, o_data = replicate 8 0\<rparr>]"
  have "ReadFullDCCPPacket (req @ rest) =
    Return ((decoded_header (computeChecksum (packet_bytes 0 (packet_header src dst PktDCCPRequest sq) ?o []))
        (packet_header src dst PktDCCPRequest sq) ?o [], map trunc_opt ?o, []), rest)"
    using assms ReadFullDCCPPacket_encoded [of "packet_header src dst PktDCCPRequest sq" ?o req rest]
    by (simp add: BuildRequestPacket_def opt_ok_def padding_size_def packet_header_def)
  then show ?thesis
    using assms(2) by (simp add: decoded_header_def packet_header_def trunc_opt_eq)
qed

lemma read_response:
  assumes "BuildResponsePacket src dst sc sq sq' = Return resp" and "length sc = 4"
  shows "\<exists>hdr opts. ReadFullDCCPPacket (resp @ rest) = Return ((hdr, opts, []), rest) \<and>
    h_type hdr = PktDCCPResponse \<and> has_cookie opts"
proof -
  let ?o = "[\<lparr>o_type = OptInitCookie, o_len = 6, o_data = [0, 0] @ sc\<rparr>,
      \<lparr>o_type = OptConfirmL, o_len = 6, o_data = replicate 4 0\<rparr>,
      \<lparr>o_type = OptTimestampEcho, o_len = 10, o_data = replicate 8 0\<rparr>]"
  have "ReadFullDCCPPacket (resp @ rest) =
    Return ((decoded_header (computeChecksum (packet_bytes 0 (packet_header src dst PktDCCPResponse sq) ?o []))
        (packet_header src dst PktDCCPResponse sq) ?o [], map trunc_opt ?o, []), rest)"
    using assms ReadFullDCCPPacket_encoded [of "packet_header src dst PktDCCPResponse sq" ?o resp rest]
    by (simp add: BuildResponsePacket_def opt_ok_def padding_size_def packet_header_def)
  then show ?thesis
    using assms(2) by (simp add: decoded_header_def packet_header_def trunc_opt_eq has_cookie_def)
qed

lemma conn_read_Return:
  "conn_read c = (c', Return r) \<longleftrightarrow>
     ReadFullDCCPPacket (c_in c) = Return (r, c_in c') \<and> c' = c\<lparr>c_in := c_in c'\<rparr>"
  by (cases r) (force simp: conn_read_def go_map_Return_iff dest: ReadFull_rest)

lemma conn_read_packet:
  "ReadFullDCCPPacket s = Return (r, s') \<Longrightarrow> c_in c = s \<Longrightarrow> conn_read c = (c\<lparr>c_in := s'\<rparr>, Return r)"
  by (auto simp: conn_read_Return)

section \<open>Clients\<close>

lemma client_established_panics:
  "client_established src dst localSeq hdr opts st c =
     (st\<lparr>cs_RemoteSeq := h_seq hdr, cs_LocalAck := h_seq hdr, cs_RemoteAck := localSeq + 1,
         cs_State := StateParTOPEN\<rparr>, c, Panic)"
  by (simp add: client_established_def BuildAckPacket_panics Let_def)

lemma client_loop_fails:
  "snd (snd (client_loop maxRetries req src dst localSeq attempt st c)) \<noteq> Return ()"
proof (induction "nat (maxRetries + 1 - attempt)" arbitrary: attempt c rule: less_induct)
  case less
  have "snd (snd (client_loop maxRetries req src dst localSeq (attempt + 1) st c')) \<noteq> Return ()"
    if "\<not> maxRetries < attempt" for c'
    using that by (intro less) simp
  then show ?case
    by (subst client_loop.simps)
      (auto simp: client_established_panics split: prod.split option.split go.split)
qed

text \<open>
  A client handshake never succeeds, whatever the peer answers and however many
  attempts the configuration allows.
\<close>

lemma ClientHandshake_never_succeeds:
  "snd (snd (ClientHandshake cfg src dst rnd st c)) \<noteq> Return ()"
  by (auto simp: ClientHandshake_def Let_def client_loop_fails split: go.split)

text \<open>
  A correct response makes the client panic in the state before open: it has sent its
  request and taken the response, and the acknowledgement packet cannot be built.
\<close>

lemma ClientHandshake_panics_on_response:
  assumes resp: "BuildResponsePacket dst src sc sq sq' = Return resp" "length sc = 4"
    and req: "BuildRequestPacket src dst (hc_ServiceCode cfg) (GenerateSequence rnd) = Return req"
    and conn: "c_in c = resp @ rest" "c_werr c = []" and retries: "hc_MaxRetries cfg \<ge> 0"
  shows "\<exists>st' c'. ClientHandshake cfg src dst rnd st c = (st', c', Panic) \<and>
    handshake_State st' = StateParTOPEN \<and> c_out c' = c_out c @ req \<and> c_in c' = rest"
proof -
  obtain hdr opts where r: "ReadFullDCCPPacket (resp @ rest) = Return ((hdr, opts, []), rest)"
      "h_type hdr = PktDCCPResponse" "has_cookie opts"
    using read_response [OF resp] by blast
  have "conn_write req c = (c\<lparr>c_out := c_out c @ req, c_werr := []\<rparr>, None)"
    using conn by (simp add: conn_write_def)
  moreover have "conn_read (c\<lparr>c_out := c_out c @ req, c_werr := []\<rparr>) =
      (c\<lparr>c_out := c_out c @ req, c_werr := [], c_in := rest\<rparr>, Return (hdr, opts, []))"
    using conn by (subst conn_read_packet [OF r(1)]) simp_all
  ultimately show ?thesis
    using req retries r(2,3)
    by (simp add: ClientHandshake_def Let_def client_loop.simps client_established_panics handshake_State_def)
qed

section \<open>Servers\<close>

text \<open>
  C20: the server panics on the request packet of every client: the cookie option of a
  request announces four data bytes, and the server slices the service code out of
  positions 2 to 6 of them. No response is sent.
\<close>

theorem ServerHandshake_panics_on_request:
  assumes req: "BuildRequestPacket src dst sc sq = Return req" "length sc = 4"
    and conn: "c_in c = req @ rest"
  shows "\<exists>st' c'. ServerHandshake rnd st c = (st', c', Panic) \<and>
    handshake_State st' = StateClosed \<and> c_out c' = c_out c"
proof -
  obtain hdr opts where r: "ReadFullDCCPPacket (req @ rest) = Return ((hdr, opts, []), rest)"
      "h_type hdr = PktDCCPRequest" "server_cookie opts None = Panic"
    using read_request [OF req] by blast
  then show ?thesis
    using conn conn_read_packet [OF r(1) conn]
    by (simp add: ServerHandshake_def Let_def handshake_State_def)
qed

theorem ServerHandshake_panics_on_request_witness:
  "\<exists>req st' c'. BuildRequestPacket 1 2 [1, 2, 3, 4] 7 = Return req \<and>
    ServerHandshake (replicate 8 9) (NewConnState 0 True)
      \<lparr>c_in = req @ [5], c_out = [], c_werr = []\<rparr> = (st', c', Panic) \<and> c_out c' = []"
proof -
  obtain req where req: "BuildRequestPacket 1 2 [1, 2, 3, 4] 7 = Return req"
    using BuildRequestPacket_length by blast
  let ?c = "\<lparr>c_in = req @ [5], c_out = [], c_werr = []\<rparr>"
  have len: "length [1, 2, 3, 4 :: byte] = 4" and "c_in ?c = req @ [5]"
    by simp_all
  from ServerHandshake_panics_on_request [OF req this] req show ?thesis
    by (metis conn.select_convs(2))
qed

lemma server_cookie_length:
  "server_cookie opts acc = Return (Some sc) \<Longrightarrow> (\<And>x. acc = Some x \<Longrightarrow> length x = 4) \<Longrightarrow> length sc = 4"
  by (induction opts acc rule: server_cookie.induct)
     (auto simp: go_bind_Return_iff slice_simps split: if_splits)

lemma conn_read_out: "conn_read c = (c', r) \<Longrightarrow> c_out c' = c_out c"
  by (auto simp: conn_read_def)

lemma server_wait_ack_Return:
  "server_wait_ack src dst st c = (st', c', Return ports) \<Longrightarrow>
     ports = (src, dst) \<and> c_out c' = c_out c \<and>
     (\<exists>sq. st' = st\<lparr>cs_LocalAck := sq, cs_State := StateOpen\<rparr>)"
  by (auto simp: server_wait_ack_def dest: conn_read_out split: prod.splits go.splits if_splits)

lemma server_respond_Return:
  assumes "server_respond hdr sc rnd st c = (st', c', Return ports)"
  shows "\<exists>resp sq. BuildResponsePacket (h_dst hdr) (h_src hdr) sc (GenerateSequence rnd) (h_seq hdr) = Return resp \<and>
    c_out c' = c_out c @ resp \<and> ports = (h_src hdr, h_dst hdr) \<and>
    st' = st\<lparr>cs_LocalPort := h_dst hdr, cs_RemotePort := h_src hdr, cs_ServiceCode := sc,
      cs_RemoteSeq := h_seq hdr, cs_LocalSeq := GenerateSequence rnd,
      cs_RemoteAck := GenerateSequence rnd, cs_LocalAck := sq, cs_State := StateOpen\<rparr>"
  using assms
  by (auto simp: server_respond_def Let_def dest!: server_wait_ack_Return conn_write_None
      split: go.splits prod.splits option.splits)

text \<open>
  When the server handshake does return, with some other peer: it returns the ports of the
  request, the state is open and holds the mirrored ports, the fresh sequence number and
  a 4-byte service code, and exactly one response packet, for these values, was written.
\<close>

lemma ServerHandshake_opens:
  assumes "ServerHandshake rnd st c = (st', c', Return (src, dst))"
  shows "handshake_State st' = StateOpen \<and> cs_IsServer st' \<and>
    cs_LocalPort st' = dst \<and> cs_RemotePort st' = src \<and>
    cs_LocalSeq st' = GenerateSequence rnd \<and> length (cs_ServiceCode st') = 4 \<and>
    (\<exists>resp. BuildResponsePacket dst src (cs_ServiceCode st') (cs_LocalSeq st') (cs_RemoteSeq st') = Return resp \<and>
      c_out c' = c_out c @ resp)"
proof -
  from assms obtain c1 hdr opts sc where "conn_read c = (c1, Return (hdr, opts, []))
      \<or> (\<exists>pl. conn_read c = (c1, Return (hdr, opts, pl)))"
    and sc: "server_cookie opts None = Return (Some sc)"
    and resp: "server_respond hdr sc rnd (st\<lparr>cs_IsServer := True, cs_State := StateClosed\<rparr>) c1 =
      (st', c', Return (src, dst))"
    by (auto simp: ServerHandshake_def Let_def split: prod.splits go.splits if_splits option.splits)
  then have "c_out c1 = c_out c"
    by (auto dest: conn_read_out)
  moreover have "length sc = 4"
    using server_cookie_length [OF sc] by simp
  ultimately show ?thesis
    using server_respond_Return [OF resp] by (auto simp: handshake_State_def)
qed

definition example_exchange :: stream where
  "example_exchange =
     [0, 1, 0, 2, 0x50, 0, 0, 0, 0, 0, 0, 0, 45, 8, 0, 0, 0x56, 0x32, 0x52, 0x59] @
     [0, 1, 0, 2, 0x30, 3, 0, 0, 0, 0, 0, 0]"

lemma example_run:
  "case ServerHandshake (replicate 8 9) (NewConnState 0 True)
      \<lparr>c_in = example_exchange, c_out = [], c_werr = []\<rparr> of (st', c', r) \<Rightarrow>
    r = Return (1, 2) \<and> cs_ServiceCode st' = [0x56, 0x32, 0x52, 0x59]"
  by code_simp

section \<open>The transition table\<close>

text \<open>
  The states a connection can reach through the transitions \<open>AdvanceState\<close> permits, as a
  step relation from the closed state.
\<close>

inductive advance :: "handshake_state \<Rightarrow> handshake_state \<Rightarrow> bool" where
  advance: "AdvanceState st new \<Longrightarrow> advance st new"

inductive_cases advanceE: "advance st new"
inductive_simps advance_from: "advance st new"

inductive reachable :: "handshake_state \<Rightarrow> nat \<Rightarrow> bool" where
  start: "reachable StateClosed 0"
| step: "reachable st n \<Longrightarrow> advance st new \<Longrightarrow> new \<noteq> StateClosed \<Longrightarrow> reachable new (Suc n)"

text \<open>Between two closed states the connection moves up in this order only.\<close>

lemma advance_increases: "advance st new \<Longrightarrow> new \<noteq> StateClosed \<Longrightarrow> st < new \<and> new \<le> StateTimeWait"
  by (auto simp: AdvanceState_def elim!: advanceE split: if_splits)

lemma reachable_bound: "reachable st n \<Longrightarrow> n \<le> unat st \<and> st \<le> StateTimeWait"
proof (induction rule: reachable.induct)
  case start
  show ?case by simp
next
  case (step st n new)
  then have "unat st < unat new" "new \<le> StateTimeWait"
    using advance_increases [of st new] by (auto simp: word_less_nat_alt)
  with step.IH show ?case by linarith
qed

text \<open>
  In the table of legal transitions every connection closes: a run from closed that
  has not come back to closed has at most seven steps, it can only come back through time
  wait, and from every state reached some transition is legal. The handlers do not follow
  the table: the client goes from request to partially open, and closing goes straight to
  closed, and both are not in it.
\<close>

lemma transition_table:
  assumes "reachable st n"
  shows "n \<le> 7 \<and> (\<exists>new. AdvanceState st new) \<and>
    (AdvanceState st StateClosed \<longleftrightarrow> st = StateTimeWait) \<and>
    \<not> AdvanceState StateRequest StateParTOPEN \<and> \<not> AdvanceState StateClosing StateClosed"
proof (intro conjI)
  have st: "n \<le> unat st" "unat st \<le> 7"
    using reachable_bound [OF assms] by (auto simp: word_le_nat_alt)
  then show "n \<le> 7" by simp
  have "st = word_of_nat (unat st)"
    by simp
  with st(2) have "st \<in> word_of_nat ` {0..7}"
    by (metis atLeastAtMost_iff image_eqI le0)
  also have "{0..7 :: nat} = {0, 1, 2, 3, 4, 5, 6, 7}"
    by auto
  finally show "\<exists>new. AdvanceState st new"
    unfolding AdvanceState_def by auto
qed (auto simp: AdvanceState_def)

text \<open>Closing a handshake always panics, with the state left at closing and nothing sent.\<close>

lemma handshake_Close_panics:
  "handshake_Close st c = (st\<lparr>cs_State := StateClosing\<rparr>, c, Panic)"
  by (simp add: handshake_Close_def BuildClosePacket_panics)

end
