(* ===== verification/Go_Float.thy ===== *)
theory Go_Float
  imports Go_Prelude Complex_Main "HOL-Library.Log_Nat" "HOL-Library.Signed_Division"
begin

text \<open>
  Go's \<open>float64\<close>: IEEE 754 binary64 with the two infinities and NaN, rounding to nearest with
  ties to even, and the functions of package \<open>math\<close> the code calls. The sign of zero and the
  payload of NaN are left out; the code never divides by a negative zero. \<open>Duration\<close> is a
  signed 64-bit count of nanoseconds.
\<close>

datatype f64 = NaN | PInf | NInf | Fin real

section \<open>Rounding\<close>

text \<open>The exponent of the binade of a positive number: \<open>2 ^ binade x \<le> x < 2 ^ (binade x + 1)\<close>.\<close>

definition binade :: "real \<Rightarrow> int" where
  "binade x =
     (if x \<ge> 1 then int (floorlog 2 (nat \<lfloor>x\<rfloor>)) - 1 else - int (floorlog 2 (nat (\<lceil>1 / x\<rceil> - 1))))"

text \<open>The exponent of the last of the 53 bits, limited below for subnormal numbers.\<close>

definition last_bit :: "real \<Rightarrow> int" where
  "last_bit x = max (binade x - 52) (- 1074)"

definition round_half_even :: "real \<Rightarrow> int" where
  "round_half_even x =
     (let n = \<lfloor>x\<rfloor>; r = x - of_int n
      in if r < 1 / 2 then n else if r > 1 / 2 then n + 1 else if even n then n else n + 1)"

definition round_at :: "int \<Rightarrow> real \<Rightarrow> real" where
  "round_at e x = of_int (round_half_even (x / 2 powi e)) * 2 powi e"

definition rnd :: "real \<Rightarrow> f64" where
  "rnd x =
     (if x = 0 then Fin 0
      else let y = round_at (last_bit \<bar>x\<bar>) x
           in if \<bar>y\<bar> < 2 ^ 1024 then Fin y else if x > 0 then PInf else NInf)"

section \<open>Operations\<close>

fun f_add :: "f64 \<Rightarrow> f64 \<Rightarrow> f64" where
  "f_add (Fin x) (Fin y) = rnd (x + y)"
| "f_add NaN y = NaN"
| "f_add x NaN = NaN"
| "f_add PInf NInf = NaN"
| "f_add NInf PInf = NaN"
| "f_add PInf y = PInf"
| "f_add NInf y = NInf"
| "f_add x PInf = PInf"
| "f_add x NInf = NInf"

definition f_inf :: "bool \<Rightarrow> f64" where
  "f_inf positive = (if positive then PInf else NInf)"

fun f_mul :: "f64 \<Rightarrow> f64 \<Rightarrow> f64" where
  "f_mul (Fin x) (Fin y) = rnd (x * y)"
| "f_mul NaN y = NaN"
| "f_mul x NaN = NaN"
| "f_mul (Fin x) PInf = (if x = 0 then NaN else f_inf (x > 0))"
| "f_mul (Fin x) NInf = (if x = 0 then NaN else f_inf (x < 0))"
| "f_mul PInf (Fin y) = (if y = 0 then NaN else f_inf (y > 0))"
| "f_mul NInf (Fin y) = (if y = 0 then NaN else f_inf (y < 0))"
| "f_mul PInf PInf = PInf"
| "f_mul PInf NInf = NInf"
| "f_mul NInf PInf = NInf"
| "f_mul NInf NInf = PInf"

fun f_div :: "f64 \<Rightarrow> f64 \<Rightarrow> f64" where
  "f_div NaN y = NaN"
| "f_div x NaN = NaN"
| "f_div (Fin x) (Fin y) =
     (if y = 0 then if x = 0 then NaN else f_inf (x > 0) else rnd (x / y))"
| "f_div (Fin x) y = Fin 0"
| "f_div PInf (Fin y) = f_inf (y \<ge> 0)"
| "f_div NInf (Fin y) = f_inf (y < 0)"
| "f_div x y = NaN"

text \<open>Comparisons with NaN are false, also the one of NaN with itself.\<close>

fun f_less :: "f64 \<Rightarrow> f64 \<Rightarrow> bool" where
  "f_less (Fin x) (Fin y) = (x < y)"
| "f_less NInf (Fin y) = True"
| "f_less NInf PInf = True"
| "f_less (Fin x) PInf = True"
| "f_less x y = False"

definition f_eq :: "f64 \<Rightarrow> f64 \<Rightarrow> bool" where
  "f_eq x y = (x \<noteq> NaN \<and> x = y)"

definition f_le :: "f64 \<Rightarrow> f64 \<Rightarrow> bool" where
  "f_le x y = (f_less x y \<or> f_eq x y)"

text \<open>\<open>math.Max\<close> and \<open>math.Min\<close>: an infinity of the right sign wins even over NaN.\<close>

definition f_max :: "f64 \<Rightarrow> f64 \<Rightarrow> f64" where
  "f_max x y =
     (if x = PInf \<or> y = PInf then PInf else if x = NaN \<or> y = NaN then NaN
      else if f_less y x then x else y)"

definition f_min :: "f64 \<Rightarrow> f64 \<Rightarrow> f64" where
  "f_min x y =
     (if x = NInf \<or> y = NInf then NInf else if x = NaN \<or> y = NaN then NaN
      else if f_less x y then x else y)"

fun f_sqrt :: "f64 \<Rightarrow> f64" where
  "f_sqrt (Fin x) = (if x < 0 then NaN else rnd (sqrt x))"
| "f_sqrt PInf = PInf"
| "f_sqrt x = NaN"

definition MaxFloat64 :: f64 where
  "MaxFloat64 = Fin ((2 ^ 53 - 1) * 2 ^ 971)"

text \<open>Conversions: from integers, and to \<open>int\<close> (defined for values in its range only).\<close>

definition f_of_int :: "int \<Rightarrow> f64" where
  "f_of_int n = rnd (of_int n)"

fun f_to_int :: "f64 \<Rightarrow> int" where
  "f_to_int (Fin x) = (if x \<ge> 0 then \<lfloor>x\<rfloor> else \<lceil>x\<rceil>)"
| "f_to_int x = 0"

section \<open>Durations\<close>

type_synonym duration = "64 word"

definition nanos :: "int \<Rightarrow> duration" where [simp]: "nanos n = word_of_int n"

abbreviation Millisecond :: duration where "Millisecond \<equiv> 1000000"
abbreviation Second :: duration where "Second \<equiv> 1000000000"
abbreviation Hour :: duration where "Hour \<equiv> 3600000000000"

text \<open>\<open>d.Seconds()\<close>: the whole seconds and the nanoseconds are converted separately.\<close>

definition Seconds :: "duration \<Rightarrow> f64" where
  "Seconds d =
     f_add (f_of_int (sint d sdiv 1000000000)) (f_div (f_of_int (sint d smod 1000000000)) (Fin 1000000000))"

section \<open>Rounding lemmas\<close>

lemma binade_bounds:
  assumes "x > 0"
  shows "2 powi binade x \<le> x" and "x < 2 powi (binade x + 1)"
proof -
  have "2 powi binade x \<le> x \<and> x < 2 powi (binade x + 1)"
  proof (cases "x \<ge> 1")
    case True
    define m where "m = nat \<lfloor>x\<rfloor>"
    have m: "m > 0" "real m \<le> x" "x < real m + 1"
      using True unfolding m_def by linarith+
    let ?b = "floorlog 2 m"
    have fl: "2 ^ (?b - 1) \<le> m" "m < 2 ^ ?b"
      using floorlog_bounds [of m 2] m(1) by simp_all
    have b: "?b > 0"
      using fl(2) m(1) by (cases "?b = 0") simp_all
    have lo: "2 ^ (?b - 1) \<le> real m"
      using fl(1) by (metis of_nat_le_iff of_nat_numeral of_nat_power)
    have hi: "real m + 1 \<le> 2 ^ ?b"
      using fl(2) by (metis Suc_leI of_nat_Suc of_nat_le_iff of_nat_numeral of_nat_power add.commute)
    have "2 ^ (?b - 1) \<le> x" "x < 2 ^ ?b"
      using order_trans [OF lo m(2)] order_less_le_trans [OF m(3) hi] by this
    moreover have "binade x = int (?b - 1)" "binade x + 1 = int ?b"
      using True b by (simp_all add: binade_def m_def of_nat_diff)
    ultimately show ?thesis
      by (simp only: power_int_of_nat)
  next
    case False
    define m where "m = nat (\<lceil>1 / x\<rceil> - 1)"
    have gt: "1 / x > 1"
      using False assms by simp
    have m: "m > 0" "real m < 1 / x" "1 / x \<le> real m + 1"
      using gt unfolding m_def by linarith+
    let ?b = "floorlog 2 m"
    have fl: "2 ^ (?b - 1) \<le> m" "m < 2 ^ ?b"
      using floorlog_bounds [of m 2] m(1) by simp_all
    have b: "?b > 0"
      using fl(2) m(1) by (cases "?b = 0") simp_all
    have lo: "2 ^ (?b - 1) \<le> real m"
      using fl(1) by (metis of_nat_le_iff of_nat_numeral of_nat_power)
    have hi: "real m + 1 \<le> 2 ^ ?b"
      using fl(2) by (metis Suc_leI of_nat_Suc of_nat_le_iff of_nat_numeral of_nat_power add.commute)
    have "2 ^ (?b - 1) < 1 / x" "1 / x \<le> 2 ^ ?b"
      using order_le_less_trans [OF lo m(2)] order_trans [OF m(3) hi] by this
    then have *: "1 / 2 ^ ?b \<le> x" "x < 1 / 2 ^ (?b - 1)"
      using assms by (simp_all add: field_simps)
    have eq: "binade x = - int ?b" "binade x + 1 = - int (?b - 1)"
      using False b by (simp_all add: binade_def m_def of_nat_diff)
    show ?thesis
      unfolding eq(2) unfolding eq(1) using * by (simp only: power_int_minus power_int_of_nat divide_inverse mult_1_left)
  qed
  then show "2 powi binade x \<le> x" and "x < 2 powi (binade x + 1)" by simp_all
qed

lemma two_powi_less_iff: "(2 :: real) powi a < 2 powi b \<longleftrightarrow> a < b"
  using power_int_increasing [of b a "2 :: real"] power_int_strict_increasing [of a b "2 :: real"]
  by (metis linorder_not_le one_le_numeral one_less_numeral_iff semiring_norm(76))

lemma binade_unique: "2 powi k \<le> x \<Longrightarrow> x < 2 powi (k + 1) \<Longrightarrow> x > 0 \<Longrightarrow> binade x = k"
  using binade_bounds [of x] two_powi_less_iff [of k "binade x + 1"] two_powi_less_iff [of "binade x" "k + 1"]
  by linarith

lemma binade_mono: "0 < x \<Longrightarrow> x \<le> y \<Longrightarrow> binade x \<le> binade y"
  using binade_bounds [of x] binade_bounds [of y] two_powi_less_iff [of "binade x" "binade y + 1"]
  by linarith

lemma round_half_even_of_int [simp]: "round_half_even (of_int n) = n"
  by (simp add: round_half_even_def)

lemma round_half_even_bounds: "\<lfloor>x\<rfloor> \<le> round_half_even x" "round_half_even x \<le> \<lfloor>x\<rfloor> + 1"
  by (simp_all add: round_half_even_def Let_def)

lemma round_half_even_mono: "x \<le> y \<Longrightarrow> round_half_even x \<le> round_half_even y"
proof -
  assume le: "x \<le> y"
  then have fl: "\<lfloor>x\<rfloor> \<le> \<lfloor>y\<rfloor>"
    by (rule floor_mono)
  show ?thesis
  proof (cases "\<lfloor>x\<rfloor> = \<lfloor>y\<rfloor>")
    case True
    with le show ?thesis
      by (auto simp: round_half_even_def Let_def)
  next
    case False
    with fl show ?thesis
      using round_half_even_bounds [of x] round_half_even_bounds [of y] by linarith
  qed
qed

lemma round_at_mono: "x \<le> y \<Longrightarrow> round_at e x \<le> round_at e y"
  by (simp add: round_at_def divide_right_mono round_half_even_mono)

lemma round_at_exact: "e \<le> k \<Longrightarrow> round_at e (of_int m * 2 powi k) = of_int m * 2 powi k"
proof -
  assume "e \<le> k"
  then have "2 powi k / 2 powi e = (2 :: real) ^ nat (k - e)"
    by (subst power_int_diff [symmetric]) (simp_all add: power_int_def)
  then have "of_int m * 2 powi k / 2 powi e = (of_int (m * 2 ^ nat (k - e)) :: real)"
    by (simp add: times_divide_eq_right [symmetric] del: times_divide_eq_right)
  then show ?thesis
    unfolding round_at_def by (simp only: round_half_even_of_int) (auto simp: field_simps)
qed

lemmas round_at_power = round_at_exact [where m = 1, simplified]

lemma round_mono:
  assumes "0 < x" "x \<le> y"
  shows "round_at (last_bit x) x \<le> round_at (last_bit y) y"
proof (cases "last_bit x = last_bit y")
  case True
  then show ?thesis
    using assms by (simp add: round_at_mono)
next
  case False
  define k where "k = binade y"
  have lt: "binade x < k" "last_bit y = k - 52" "last_bit x \<le> k" "k \<ge> last_bit y"
    using False binade_mono [OF assms] by (auto simp: last_bit_def k_def max_def split: if_splits)
  have "x < 2 powi (binade x + 1)"
    using assms by (simp add: binade_bounds)
  also have "\<dots> \<le> 2 powi k"
    using lt(1) by (intro power_int_increasing) simp_all
  finally have "round_at (last_bit x) x \<le> 2 powi k"
    using round_at_mono [of x "2 powi k" "last_bit x"] round_at_power [OF lt(3)] by simp
  also have "\<dots> \<le> round_at (last_bit y) y"
    using round_at_mono [of "2 powi k" y "last_bit y"] round_at_power [OF lt(4)] assms
      binade_bounds(1) [of y] by (simp add: k_def)
  finally show ?thesis .
qed

lemma rnd_zero [simp]: "rnd 0 = Fin 0"
  by (simp add: rnd_def)

lemma rnd_pos:
  "0 < x \<Longrightarrow> rnd x = (let y = round_at (last_bit x) x in if \<bar>y\<bar> < 2 ^ 1024 then Fin y else PInf)"
  by (simp add: rnd_def)

text \<open>Rounding is monotone: bounds of a number round to bounds of its rounded value.\<close>

lemma rnd_between:
  assumes "rnd a = Fin a'" "rnd b = Fin b'" "0 < a" "a \<le> x" "x \<le> b"
  shows "\<exists>y. rnd x = Fin y \<and> a' \<le> y \<and> y \<le> b'"
proof -
  have "round_at (last_bit b) b = b'" "\<bar>b'\<bar> < 2 ^ 1024" "round_at (last_bit a) a = a'" "\<bar>a'\<bar> < 2 ^ 1024"
    using assms by (auto simp: rnd_pos Let_def split: if_splits)
  then show ?thesis
    using round_mono [of a x] round_mono [of x b] assms by (auto simp: rnd_pos Let_def)
qed

lemma rnd_nonneg:
  assumes "0 \<le> x"
  shows "rnd x = PInf \<or> (\<exists>y \<ge> 0. rnd x = Fin y)"
proof (cases "x = 0")
  case False
  have "round_half_even (x / 2 powi last_bit x) \<ge> 0"
    using round_half_even_bounds(1) [of "x / 2 powi last_bit x"] assms
    by (meson divide_nonneg_nonneg order.trans zero_le_floor zero_le_numeral zero_le_power_int)
  then show ?thesis
    using False assms by (auto simp: rnd_pos round_at_def Let_def)
qed simp

text \<open>Numbers with at most 53 significant bits are representable.\<close>

lemma rnd_exact:
  assumes m: "0 < m" "m \<le> 2 ^ 53" and e: "- 1074 \<le> e" and small: "of_int m * 2 powi e < (2 :: real) ^ 1024"
  shows "rnd (of_int m * 2 powi e) = Fin (of_int m * 2 powi e)"
proof -
  let ?x = "of_int m * 2 powi e :: real"
  have pos: "?x > 0"
    using m by simp
  have "round_at (last_bit ?x) ?x = ?x"
  proof (cases "m = 2 ^ 53")
    case True
    then have x: "?x = of_int 1 * 2 powi (e + 53)"
      by (simp add: power_int_add)
    have "binade ?x = e + 53"
      using pos by (intro binade_unique) (simp_all add: x power_int_add)
    then have "last_bit ?x \<le> e + 53"
      using e by (simp add: last_bit_def)
    then show ?thesis
      unfolding x by (rule round_at_exact)
  next
    case False
    then have "of_int m < (2 :: real) ^ 53"
      using m(2) by (metis of_int_less_iff of_int_numeral of_int_power order_le_neq_trans)
    then have "?x < 2 powi (e + 53)"
      by (simp add: power_int_add mult.commute)
    then have "binade ?x < e + 53"
      using binade_bounds(1) [OF pos] two_powi_less_iff [of "binade ?x" "e + 53"] by linarith
    then have "last_bit ?x \<le> e"
      using e by (simp add: last_bit_def)
    then show ?thesis
      by (rule round_at_exact)
  qed
  then show ?thesis
    using pos small by (simp add: rnd_pos)
qed

lemma rnd_nat:
  assumes "n \<le> 2 ^ 53"
  shows "rnd (real n) = Fin (real n)"
proof (cases "n = 0")
  case False
  have "real n \<le> 2 ^ 53"
    using assms by (metis of_nat_le_iff of_nat_numeral of_nat_power)
  also have "\<dots> < 2 ^ 1024"
    by (intro power_strict_increasing) simp_all
  finally show ?thesis
    using rnd_exact [of "int n" 0] assms False by (simp add: power_int_0_right)
qed simp

lemma rnd_numeral: "numeral n \<le> (2 ^ 53 :: nat) \<Longrightarrow> rnd (numeral n) = Fin (numeral n)"
  using rnd_nat [of "numeral n"] by simp

lemma rnd_one [simp]: "rnd 1 = Fin 1"
  using rnd_nat [of 1] by simp

section \<open>Ranges of floats\<close>

definition f_within :: "real \<Rightarrow> real \<Rightarrow> f64 \<Rightarrow> bool" where
  "f_within lo hi f \<longleftrightarrow> (\<exists>x. f = Fin x \<and> lo \<le> x \<and> x \<le> hi)"

lemma f_within_Fin [simp]: "f_within lo hi (Fin x) \<longleftrightarrow> lo \<le> x \<and> x \<le> hi"
  by (simp add: f_within_def)

lemma f_within_mono: "f_within lo hi f \<Longrightarrow> lo' \<le> lo \<Longrightarrow> hi \<le> hi' \<Longrightarrow> f_within lo' hi' f"
  by (auto simp: f_within_def)

lemma rnd_within:
  "rnd lo = Fin lo' \<Longrightarrow> rnd hi = Fin hi' \<Longrightarrow> 0 < lo \<Longrightarrow> lo \<le> x \<Longrightarrow> x \<le> hi \<Longrightarrow> f_within lo' hi' (rnd x)"
  using rnd_between by (simp add: f_within_def)

lemma f_max_within: "f_within a b x \<Longrightarrow> c \<le> d \<Longrightarrow> f_within (max a c) (max b d) (f_max (Fin c) x)"
  by (auto simp: f_within_def f_max_def)

lemma f_min_within: "f_within a b x \<Longrightarrow> c \<le> d \<Longrightarrow> f_within (min a c) (min b d) (f_min (Fin c) x)"
  by (auto simp: f_within_def f_min_def)

text \<open>Powers of two in the range of normal numbers, and the ranges between two of them.\<close>

lemma rnd_power: "- 1074 \<le> k \<Longrightarrow> k \<le> 1023 \<Longrightarrow> rnd (2 powi k) = Fin (2 powi k)"
  using rnd_exact [of 1 k] two_powi_less_iff [of k 1024] by (simp add: power_int_def)

definition f_exp :: "int \<Rightarrow> int \<Rightarrow> f64 \<Rightarrow> bool" where
  "f_exp a b f = f_within (2 powi a) (2 powi b) f"

lemma rnd_exp:
  assumes "- 1074 \<le> a" "b \<le> 1023" "2 powi a \<le> x" "x \<le> 2 powi b"
  shows "f_exp a b (rnd x)"
proof -
  have "(2 :: real) powi a \<le> 2 powi b"
    using assms by linarith
  then have "a \<le> b"
    using two_powi_less_iff [of b a] by linarith
  then show ?thesis
    using assms unfolding f_exp_def by (intro rnd_within [OF rnd_power rnd_power]) simp_all
qed

lemma f_exp_pos: "f_exp a b f \<Longrightarrow> \<exists>x. f = Fin x \<and> 0 < x"
  unfolding f_exp_def f_within_def by (metis order_less_le_trans zero_less_numeral zero_less_power_int)

lemma f_mul_exp:
  assumes "f_exp a b x" "f_exp c d y" "- 1074 \<le> a + c" "b + d \<le> 1023"
  shows "f_exp (a + c) (b + d) (f_mul x y)"
proof -
  obtain u v where uv: "x = Fin u" "y = Fin v" "2 powi a \<le> u" "u \<le> 2 powi b" "2 powi c \<le> v" "v \<le> 2 powi d"
    using assms(1,2) by (auto simp: f_exp_def f_within_def)
  have "2 powi (a + c) \<le> u * v" "u * v \<le> 2 powi (b + d)"
    using uv(3-6) mult_mono [of "2 powi a" u "2 powi c" v] mult_mono [of u "2 powi b" v "2 powi d"]
      order_trans [of 0 "2 powi a" u] order_trans [of 0 "2 powi c" v]
    by (simp_all add: power_int_add)
  then show ?thesis
    using assms(3,4) uv(1,2) by (simp add: rnd_exp)
qed

lemma f_div_exp:
  assumes "f_exp a b x" "f_exp c d y" "- 1074 \<le> a - d" "b - c \<le> 1023"
  shows "f_exp (a - d) (b - c) (f_div x y)"
proof -
  obtain u v where uv: "x = Fin u" "y = Fin v" "2 powi a \<le> u" "u \<le> 2 powi b" "2 powi c \<le> v" "v \<le> 2 powi d"
    using assms(1,2) by (auto simp: f_exp_def f_within_def)
  have pos: "0 < u" "0 < v"
    using uv(3,5) by (auto intro: less_le_trans [rotated])
  have "2 powi (a - d) \<le> u / v" "u / v \<le> 2 powi (b - c)"
    using uv(3-6) pos frac_le [of u "2 powi a" v "2 powi d"] frac_le [of "2 powi b" u "2 powi c" v]
    by (simp_all add: power_int_diff)
  then show ?thesis
    using assms(3,4) uv(1,2) pos by (simp add: rnd_exp)
qed

lemma f_sqrt_exp:
  assumes "f_exp (2 * a) (2 * b) x" "- 1074 \<le> a" "b \<le> 1023"
  shows "f_exp a b (f_sqrt x)"
proof -
  have sq: "sqrt (2 powi (2 * k)) = 2 powi k" for k
    by (simp add: power_int_mult power_int_commutes mult.commute [of 2 k])
  obtain u where u: "x = Fin u" "2 powi (2 * a) \<le> u" "u \<le> 2 powi (2 * b)"
    using assms(1) by (auto simp: f_exp_def f_within_def)
  have "0 < u"
    using u(2) by (auto intro: less_le_trans [rotated])
  moreover have "2 powi a \<le> sqrt u" "sqrt u \<le> 2 powi b"
    using u(2,3) real_sqrt_le_mono sq by metis+
  ultimately show ?thesis
    using assms(2,3) u(1) by (simp add: rnd_exp)
qed

lemma f_of_int_small: "0 \<le> n \<Longrightarrow> n \<le> 2 ^ 53 \<Longrightarrow> f_of_int n = Fin (of_int n)"
  using rnd_nat [of "nat n"] by (simp add: f_of_int_def)

lemma f_of_word_exp: "w \<noteq> 0 \<Longrightarrow> f_exp 0 64 (f_of_int (uint (w :: 64 word)))"
proof -
  assume "w \<noteq> 0"
  then have "1 \<le> uint w"
    using unsigned_greater_eq [of w] unsigned_eq_0_iff [of w] by (metis int_one_le_iff_zero_less order_le_less)
  moreover have "uint w < 2 ^ 64"
    using uint_lt2p [of w] by simp
  ultimately have "(1 :: real) \<le> of_int (uint w)" "of_int (uint w) \<le> (of_int (2 ^ 64) :: real)"
    by (metis of_int_1_le_iff) (use \<open>uint w < 2 ^ 64\<close> in \<open>simp only: of_int_le_iff\<close>)
  then show ?thesis
    unfolding f_of_int_def by (intro rnd_exp) (simp_all add: power_int_def)
qed

text \<open>A positive duration is between a nanosecond and \<open>2 ^ 63\<close> of them.\<close>

lemma Seconds_exp:
  assumes "0 < sint d"
  shows "f_exp (- 30) 34 (Seconds d)"
proof -
  define a b where ab: "a = sint d div 1000000000" "b = sint d mod 1000000000"
  have "sint d < 2 ^ 63"
    using sint_lt [of d] by simp
  then have a: "0 \<le> a" "a \<le> 2 ^ 34 - 1" and b: "0 \<le> b" "b < 1000000000"
    using assms by (simp_all add: ab zdiv_mono1 [THEN order_trans] pos_imp_zdiv_nonneg_iff)
  have nz: "a \<noteq> 0 \<or> b \<noteq> 0"
    using assms div_mult_mod_eq [of "sint d" 1000000000] by (auto simp: ab)
  have sec: "Seconds d = f_add (Fin (of_int a)) (rnd (of_int b / 1000000000))"
    using a b assms f_of_int_small [of a] f_of_int_small [of b]
    by (simp add: Seconds_def ab signed_divide_int_def signed_modulo_int_def)
  obtain y where y: "rnd (of_int b / 1000000000) = Fin y" "0 \<le> y" "y \<le> 1" "b \<noteq> 0 \<longrightarrow> 2 powi (- 30) \<le> y"
  proof (cases "b = 0")
    case False
    then have "(1 :: real) \<le> of_int b"
      using b(1) by simp
    then have "f_exp (- 30) 0 (rnd (of_int b / 1000000000))"
      using b(2) by (intro rnd_exp) (simp_all add: power_int_def field_simps)
    then obtain y where "rnd (of_int b / 1000000000) = Fin y" "2 powi (- 30) \<le> y" "y \<le> 1"
      by (auto simp: f_exp_def f_within_def)
    moreover from this have "0 \<le> y"
      by (intro order_trans [of 0 "2 powi (- 30)" y]) simp_all
    ultimately show ?thesis
      by (intro that) blast+
  qed (use that [of 0] in simp)
  have "(of_int a :: real) \<le> of_int (2 ^ 34 - 1)"
    using a(2) by (simp only: of_int_le_iff)
  then have "of_int a + y \<le> 2 powi 34"
    using y(3) by (simp add: power_int_def)
  moreover have "2 powi (- 30) \<le> of_int a + y"
  proof (cases "b = 0")
    case True
    then have "1 \<le> (of_int a :: real)"
      using nz a(1) by simp
    moreover have "(2 :: real) powi (- 30) \<le> 1"
      by (simp add: power_int_def power_le_one)
    ultimately show ?thesis
      using y(2) by linarith
  next
    case False
    then show ?thesis
      using y(4) a(1) by (simp add: add_increasing)
  qed
  ultimately show ?thesis
    unfolding sec y by (simp add: rnd_exp)
qed

text \<open>Non-negative floats, infinity included.\<close>

definition f_nonneg :: "f64 \<Rightarrow> bool" where
  "f_nonneg f \<longleftrightarrow> f = PInf \<or> (\<exists>x \<ge> 0. f = Fin x)"

lemma f_nonneg_simps [simp]: "f_nonneg PInf" "f_nonneg (Fin x) \<longleftrightarrow> 0 \<le> x" "\<not> f_nonneg NaN" "\<not> f_nonneg NInf"
  by (auto simp: f_nonneg_def)

lemma f_nonneg_rnd: "0 \<le> x \<Longrightarrow> f_nonneg (rnd x)"
  using rnd_nonneg by (auto simp: f_nonneg_def)

lemma f_nonneg_mul: "f_nonneg f \<Longrightarrow> 0 < y \<Longrightarrow> f_nonneg (f_mul f (Fin y))"
  by (auto simp: f_nonneg_def f_inf_def dest: f_nonneg_rnd [OF mult_nonneg_nonneg])
    (metis f_nonneg_def f_nonneg_rnd less_eq_real_def mult_nonneg_nonneg)

lemma f_nonneg_add: "f_nonneg f \<Longrightarrow> 0 \<le> y \<Longrightarrow> f_nonneg (f_add f (Fin y))"
  by (cases f) (auto simp: f_nonneg_rnd)

lemma f_nonneg_min: "f_nonneg f \<Longrightarrow> f_nonneg g \<Longrightarrow> f_nonneg (f_min f g)"
  by (auto simp: f_nonneg_def f_min_def)

lemma f_within_nonneg: "f_within lo hi f \<Longrightarrow> 0 \<le> lo \<Longrightarrow> f_nonneg f"
  by (auto simp: f_within_def)

lemma f_nonneg_less: "f_nonneg f \<Longrightarrow> f_less f g \<Longrightarrow> f_nonneg g"
  by (cases g) (auto simp: f_nonneg_def)

lemma Seconds_pos: "0 < sint d \<Longrightarrow> \<exists>x > 0. Seconds d = Fin x"
  using f_exp_pos [OF Seconds_exp] by blast

end
