(* ===== verification/Dccp_Congestion.thy ===== *)
theory Dccp_Congestion
  imports Go_Float Dccp_Packet
begin

text \<open>
  \<open>app/transport/dccp/congestion.go\<close>: the three congestion controllers behind the interface
  \<open>CongestionControl\<close> and their registry. The embedded \<open>BaseCongestionControl\<close> is a record the
  controllers extend (its fields \<open>lastRTT\<close>, \<open>rttSum\<close> and \<open>rttCnt\<close> are never used). Times are
  nanoseconds; the clock is an argument of the operations that read it.
\<close>

section \<open>The common part\<close>

record base_cc =
  b_cwnd :: f64
  b_ssthresh :: f64
  b_mss :: int
  b_minRTT :: duration
  b_maxRTT :: duration

definition CWND :: "'a base_cc_scheme \<Rightarrow> f64" where "CWND c = b_cwnd c"
definition SSTHRESH :: "'a base_cc_scheme \<Rightarrow> f64" where "SSTHRESH c = b_ssthresh c"
definition MSS :: "'a base_cc_scheme \<Rightarrow> int" where "MSS c = b_mss c"

text \<open>Quotients of durations are signed and truncated.\<close>

definition d_div :: "duration \<Rightarrow> int \<Rightarrow> duration" where
  "d_div d n = word_of_int (sint d sdiv n)"

definition d_less :: "duration \<Rightarrow> duration \<Rightarrow> bool" where
  "d_less a b = (sint a < sint b)"

text \<open>The smallest and largest round trip seen, and the smoothed round trip and its variation.\<close>

definition note_rtt :: "duration \<Rightarrow> 'a base_cc_scheme \<Rightarrow> 'a base_cc_scheme" where
  "note_rtt rtt c =
     (let c1 = (if d_less rtt (b_minRTT c) then c\<lparr>b_minRTT := rtt\<rparr> else c)
      in if d_less (b_maxRTT c1) rtt then c1\<lparr>b_maxRTT := rtt\<rparr> else c1)"

definition smooth :: "duration \<Rightarrow> duration \<Rightarrow> duration \<Rightarrow> duration \<times> duration" where
  "smooth rtt srtt var =
     (if srtt = 0 then (rtt, d_div rtt 2)
      else let delta = (if d_less (rtt - srtt) 0 then - (rtt - srtt) else rtt - srtt)
           in (d_div (7 * srtt + rtt) 8, d_div (3 * var + delta) 4))"

text \<open>The loop that doubles a timeout once per attempt, six times at most.\<close>

definition backed_off :: "nat \<Rightarrow> duration \<Rightarrow> duration" where
  "backed_off backoff rto = ((\<lambda>d. d * 2) ^^ min backoff 6) rto"

section \<open>CCID 2\<close>

record ccid2 = base_cc +
  c2_inFlight :: u64
  c2_srtt :: duration
  c2_rttvar :: duration
  c2_rto :: duration
  c2_backoff :: nat
  c2_pipe :: u64
  c2_lossWindow :: f64

definition newCCID2CC :: ccid2 where
  "newCCID2CC =
     \<lparr>b_cwnd = Fin 2, b_ssthresh = MaxFloat64, b_mss = 536, b_minRTT = Hour, b_maxRTT = 0,
      c2_inFlight = 0, c2_srtt = 0, c2_rttvar = 0, c2_rto = Second, c2_backoff = 0, c2_pipe = 0,
      c2_lossWindow = Fin 0\<rparr>"

definition c2_OnPacketSent :: "ccid2 \<Rightarrow> ccid2" where
  "c2_OnPacketSent c = c\<lparr>c2_inFlight := c2_inFlight c + 1, c2_pipe := c2_pipe c + 1\<rparr>"

definition c2_drain :: "ccid2 \<Rightarrow> ccid2" where
  "c2_drain c = (if c2_pipe c > 0 then c\<lparr>c2_pipe := c2_pipe c - 1\<rparr> else c)"

definition c2_OnPacketLost :: "ccid2 \<Rightarrow> ccid2" where
  "c2_OnPacketLost c =
     (let half = f_div (b_cwnd c) (Fin 2); k = c2_backoff c + 1
      in c2_drain (c\<lparr>b_ssthresh := f_max (Fin 2) half, c2_lossWindow := b_cwnd c,
                     b_cwnd := f_max (Fin 1) half, c2_backoff := k,
                     c2_rto := backed_off k (c2_rto c)\<rparr>))"

definition c2_OnPacketAcked :: "duration \<Rightarrow> ccid2 \<Rightarrow> ccid2" where
  "c2_OnPacketAcked rtt c =
     (let c1 = note_rtt rtt (c2_drain c);
          (srtt, var) = smooth rtt (c2_srtt c1) (c2_rttvar c1);
          rto = srtt + 4 * var;
          c2 = c1\<lparr>c2_srtt := srtt, c2_rttvar := var,
                  c2_rto := (if d_less rto (200 * Millisecond) then 200 * Millisecond else rto)\<rparr>
      in c2\<lparr>b_cwnd := (if f_less (b_cwnd c2) (b_ssthresh c2) then f_add (b_cwnd c2) (Fin 1)
                       else f_add (b_cwnd c2) (f_div (Fin 1) (b_cwnd c2)))\<rparr>)"

definition c2_OnRTO :: "ccid2 \<Rightarrow> duration" where
  "c2_OnRTO c = backed_off (c2_backoff c) (c2_rto c)"

definition c2_CanSend :: "ccid2 \<Rightarrow> bool" where
  "c2_CanSend c = f_less (f_of_int (uint (c2_pipe c))) (b_cwnd c)"

definition c2_Reset :: "ccid2 \<Rightarrow> ccid2" where
  "c2_Reset c =
     c\<lparr>b_cwnd := Fin 2, b_ssthresh := MaxFloat64, c2_inFlight := 0, c2_pipe := 0, c2_backoff := 0,
       c2_rto := Second\<rparr>"

section \<open>CCID 3\<close>

text \<open>\<open>lastLoss\<close> is the zero time before the first loss; \<open>xRecv\<close> and \<open>tld\<close> are never used.\<close>

record ccid3 = base_cc +
  c3_x :: f64
  c3_tcpWMin :: f64
  c3_rtt :: duration
  c3_lossRate :: f64
  c3_lastLoss :: "int option"
  c3_sendRate :: f64
  c3_bytesSent :: u64
  c3_bytesAcked :: u64
  c3_lossCount :: u64
  c3_totalCount :: u64
  c3_lastRateCalc :: int

definition newCCID3CC :: "int \<Rightarrow> ccid3" where
  "newCCID3CC now =
     \<lparr>b_cwnd = Fin 4, b_ssthresh = MaxFloat64, b_mss = 536, b_minRTT = Hour, b_maxRTT = 0,
      c3_x = Fin 0, c3_tcpWMin = Fin 4, c3_rtt = 0, c3_lossRate = Fin 0, c3_lastLoss = None,
      c3_sendRate = Fin 0, c3_bytesSent = 0, c3_bytesAcked = 0, c3_lossCount = 0, c3_totalCount = 0,
      c3_lastRateCalc = now\<rparr>"

text \<open>\<open>now.Sub(t)\<close> saturates.\<close>

definition time_Sub :: "int \<Rightarrow> int \<Rightarrow> duration" where
  "time_Sub now t = word_of_int (max (- (2 ^ 63)) (min (2 ^ 63 - 1) (now - t)))"

definition c3_OnPacketSent :: "int \<Rightarrow> ccid3 \<Rightarrow> ccid3" where
  "c3_OnPacketSent sz c =
     c\<lparr>c3_bytesSent := c3_bytesSent c + word_of_int sz, c3_totalCount := c3_totalCount c + 1\<rparr>"

definition updateSendRate :: "ccid3 \<Rightarrow> ccid3" where
  "updateSendRate c =
     (if c3_lossCount c = 0 then c\<lparr>c3_sendRate := MaxFloat64\<rparr>
      else let p = f_div (f_of_int (uint (c3_lossCount c))) (f_of_int (uint (c3_totalCount c + 1)))
           in if d_less 0 (c3_rtt c) then
                let rttSec = Seconds (c3_rtt c);
                    x = f_div (f_sqrt (f_div (f_mul (Fin 2) (Fin 1)) (Fin 3))) (f_mul rttSec (f_sqrt p))
                in c\<lparr>c3_x := x, c3_sendRate := f_mul x (f_of_int (b_mss c)),
                     b_cwnd := f_max (c3_tcpWMin c) (f_mul x rttSec)\<rparr>
              else c)"

definition c3_OnPacketLost :: "int \<Rightarrow> ccid3 \<Rightarrow> ccid3" where
  "c3_OnPacketLost now c =
     (let c1 = c\<lparr>c3_lossCount := c3_lossCount c + 1\<rparr>;
          c2 = (case c3_lastLoss c1 of
                  None \<Rightarrow> c1
                | Some t \<Rightarrow>
                    let interval = time_Sub now t
                    in if d_less 0 interval then c1\<lparr>c3_lossRate := f_div (Fin 1) (Seconds interval)\<rparr> else c1)
      in updateSendRate (c2\<lparr>c3_lastLoss := Some now\<rparr>))"

definition c3_OnPacketAcked :: "int \<Rightarrow> duration \<Rightarrow> ccid3 \<Rightarrow> ccid3" where
  "c3_OnPacketAcked now rtt c =
     (let c1 = note_rtt rtt (c\<lparr>c3_bytesAcked := c3_bytesAcked c + word_of_int (b_mss c)\<rparr>);
          c2 = c1\<lparr>c3_rtt := d_div (7 * c3_rtt c1 + rtt) 8\<rparr>
      in if d_less Second (time_Sub now (c3_lastRateCalc c2))
         then (updateSendRate c2)\<lparr>c3_lastRateCalc := now\<rparr> else c2)"

definition c3_OnRTO :: "ccid3 \<Rightarrow> duration" where
  "c3_OnRTO c = (if c3_rtt c = 0 then Second else 4 * c3_rtt c)"

definition c3_CanSend :: "ccid3 \<Rightarrow> bool" where
  "c3_CanSend c = f_less (Fin 0) (c3_sendRate c)"

definition c3_Reset :: "ccid3 \<Rightarrow> ccid3" where
  "c3_Reset c =
     c\<lparr>b_cwnd := Fin 4, b_ssthresh := MaxFloat64, c3_x := Fin 0, c3_lossRate := Fin 0,
       c3_lossCount := 0, c3_totalCount := 0, c3_sendRate := Fin 0\<rparr>"

section \<open>CCID 4\<close>

record ccid4 = base_cc +
  c4_rtt :: duration
  c4_rttVar :: duration
  c4_rto :: duration
  c4_inFlight :: int
  c4_maxInFlight :: int
  c4_backoff :: nat

definition newCCID4CC :: ccid4 where
  "newCCID4CC =
     \<lparr>b_cwnd = Fin 10, b_ssthresh = MaxFloat64, b_mss = 1200, b_minRTT = Hour, b_maxRTT = 0,
      c4_rtt = 0, c4_rttVar = 0, c4_rto = Second, c4_inFlight = 0, c4_maxInFlight = 10, c4_backoff = 0\<rparr>"

definition c4_OnPacketSent :: "ccid4 \<Rightarrow> ccid4" where
  "c4_OnPacketSent c = c\<lparr>c4_inFlight := c4_inFlight c + 1\<rparr>"

text \<open>The constant \<open>0.7\<close> is the float next to it.\<close>

definition c4_OnPacketLost :: "ccid4 \<Rightarrow> ccid4" where
  "c4_OnPacketLost c =
     (let w = f_max (Fin 2) (f_mul (b_cwnd c) (rnd (7 / 10)))
      in c\<lparr>b_cwnd := w, c4_maxInFlight := f_to_int w, c4_backoff := c4_backoff c + 1,
           c4_inFlight := c4_inFlight c - 1\<rparr>)"

definition c4_grow :: "ccid4 \<Rightarrow> f64" where
  "c4_grow c =
     (let w = (if f_less (b_cwnd c) (b_ssthresh c) then f_mul (b_cwnd c) (Fin (3 / 2))
               else f_add (b_cwnd c) (Fin (1 / 2)))
      in if f_less (Fin 1000) w then Fin 1000 else w)"

definition c4_OnPacketAcked :: "duration \<Rightarrow> ccid4 \<Rightarrow> ccid4" where
  "c4_OnPacketAcked rtt c =
     (let n = c4_inFlight c - 1;
          c1 = note_rtt rtt (c\<lparr>c4_inFlight := (if n < 0 then 0 else n)\<rparr>);
          (srtt, var) = smooth rtt (c4_rtt c1) (c4_rttVar c1);
          w = c4_grow c1
      in c1\<lparr>c4_rtt := srtt, c4_rttVar := var, b_cwnd := w, c4_maxInFlight := f_to_int w,
            c4_rto := d_div srtt 2 + 4 * var, c4_backoff := 0\<rparr>)"

definition c4_OnRTO :: "ccid4 \<Rightarrow> duration" where
  "c4_OnRTO c = backed_off (c4_backoff c) (c4_rto c)"

definition c4_CanSend :: "ccid4 \<Rightarrow> bool" where
  "c4_CanSend c = (c4_inFlight c < c4_maxInFlight c)"

definition c4_Reset :: "ccid4 \<Rightarrow> ccid4" where
  "c4_Reset c =
     c\<lparr>b_cwnd := Fin 10, b_ssthresh := MaxFloat64, c4_inFlight := 0, c4_maxInFlight := 10,
       c4_backoff := 0, c4_rto := Second\<rparr>"

section \<open>The interface\<close>

text \<open>The calls that change a controller, and what each controller makes of them at a time.\<close>

datatype cc_call = Sent int | Lost | Acked duration | Restart

fun c2_call :: "cc_call \<Rightarrow> ccid2 \<Rightarrow> ccid2" where
  "c2_call (Sent sz) c = c2_OnPacketSent c"
| "c2_call Lost c = c2_OnPacketLost c"
| "c2_call (Acked rtt) c = c2_OnPacketAcked rtt c"
| "c2_call Restart c = c2_Reset c"

fun c3_call :: "int \<Rightarrow> cc_call \<Rightarrow> ccid3 \<Rightarrow> ccid3" where
  "c3_call now (Sent sz) c = c3_OnPacketSent sz c"
| "c3_call now Lost c = c3_OnPacketLost now c"
| "c3_call now (Acked rtt) c = c3_OnPacketAcked now rtt c"
| "c3_call now Restart c = c3_Reset c"

fun c4_call :: "cc_call \<Rightarrow> ccid4 \<Rightarrow> ccid4" where
  "c4_call (Sent sz) c = c4_OnPacketSent c"
| "c4_call Lost c = c4_OnPacketLost c"
| "c4_call (Acked rtt) c = c4_OnPacketAcked rtt c"
| "c4_call Restart c = c4_Reset c"

section \<open>The registry\<close>

datatype controller = CC2 ccid2 | CC3 ccid3 | CC4 ccid4

definition registerCCID ::
  "ccid \<Rightarrow> (int \<Rightarrow> controller) \<Rightarrow> (ccid \<rightharpoonup> int \<Rightarrow> controller) \<Rightarrow> (ccid \<rightharpoonup> int \<Rightarrow> controller)" where
  "registerCCID i factory reg = reg(i \<mapsto> factory)"

definition ccidRegistry :: "ccid \<rightharpoonup> int \<Rightarrow> controller" where
  "ccidRegistry =
     registerCCID CCID4 (\<lambda>_. CC4 newCCID4CC)
       (registerCCID CCID3 (\<lambda>now. CC3 (newCCID3CC now)) (registerCCID CCID2 (\<lambda>_. CC2 newCCID2CC) Map.empty))"

definition GetCongestionControl :: "ccid \<Rightarrow> int \<Rightarrow> controller" where
  "GetCongestionControl i now =
     (case ccidRegistry i of Some factory \<Rightarrow> factory now | None \<Rightarrow> CC4 newCCID4CC)"

fun cc_do :: "int \<Rightarrow> cc_call \<Rightarrow> controller \<Rightarrow> controller" where
  "cc_do now call (CC2 c) = CC2 (c2_call call c)"
| "cc_do now call (CC3 c) = CC3 (c3_call now call c)"
| "cc_do now call (CC4 c) = CC4 (c4_call call c)"

fun cc_CWND :: "controller \<Rightarrow> f64" where
  "cc_CWND (CC2 c) = CWND c"
| "cc_CWND (CC3 c) = CWND c"
| "cc_CWND (CC4 c) = CWND c"

fun cc_CanSend :: "controller \<Rightarrow> bool" where
  "cc_CanSend (CC2 c) = c2_CanSend c"
| "cc_CanSend (CC3 c) = c3_CanSend c"
| "cc_CanSend (CC4 c) = c4_CanSend c"

fun cc_OnRTO :: "controller \<Rightarrow> duration" where
  "cc_OnRTO (CC2 c) = c2_OnRTO c"
| "cc_OnRTO (CC3 c) = c3_OnRTO c"
| "cc_OnRTO (CC4 c) = c4_OnRTO c"

text \<open>A history of timed calls.\<close>

definition run_calls :: "(int \<Rightarrow> cc_call \<Rightarrow> 's \<Rightarrow> 's) \<Rightarrow> (int \<times> cc_call) list \<Rightarrow> 's \<Rightarrow> 's" where
  "run_calls step calls s = fold (\<lambda>(now, call). step now call) calls s"

text \<open>
  The contract of a controller: an invariant every call keeps, under which the window is a
  finite number with a positive lower bound.
\<close>

locale congestion_control =
  fixes step :: "int \<Rightarrow> cc_call \<Rightarrow> 's \<Rightarrow> 's"
    and window :: "'s \<Rightarrow> f64"
    and inv :: "'s \<Rightarrow> bool"
    and lo hi :: real
  assumes inv_step: "inv s \<Longrightarrow> inv (step now call s)"
    and inv_window: "inv s \<Longrightarrow> \<exists>w. window s = Fin w \<and> lo \<le> w \<and> w \<le> hi"
begin

lemma inv_run: "inv s \<Longrightarrow> inv (run_calls step calls s)"
  unfolding run_calls_def by (induction calls arbitrary: s) (auto intro: inv_step)

lemma window_run: "inv s \<Longrightarrow> \<exists>w. window (run_calls step calls s) = Fin w \<and> lo \<le> w \<and> w \<le> hi"
  by (rule inv_window [OF inv_run])

end

section \<open>Windows\<close>

lemma note_rtt_simps [simp]:
  "b_cwnd (note_rtt rtt c) = b_cwnd c" "b_ssthresh (note_rtt rtt c) = b_ssthresh c"
  "b_mss (note_rtt rtt c) = b_mss c"
  by (simp_all add: note_rtt_def Let_def)

lemma c2_drain_simps [simp]: "b_cwnd (c2_drain c) = b_cwnd c" "b_ssthresh (c2_drain c) = b_ssthresh c"
  by (simp_all add: c2_drain_def)

text \<open>CCID 2: between one packet and \<open>2 ^ 53\<close>, where adding one no longer changes a float.\<close>

definition cwnd_top :: real where "cwnd_top = 2 ^ 53"

definition c2_inv :: "ccid2 \<Rightarrow> bool" where
  "c2_inv c \<longleftrightarrow> f_within 1 cwnd_top (b_cwnd c)"

lemma two_le_cwnd_top [simp]: "2 \<le> cwnd_top"
  by (simp add: cwnd_top_def)

lemma rnd_top: "rnd (2 ^ 53 + 1) = Fin (2 ^ 53)"
proof -
  have "binade (2 ^ 53 + 1) = 53"
    by (rule binade_unique) (simp_all add: power_int_def)
  moreover have "\<lfloor>9007199254740993 / 2 :: real\<rfloor> = 4503599627370496"
    by (simp add: floor_eq_iff)
  ultimately show ?thesis
    by (simp add: rnd_pos last_bit_def round_at_def round_half_even_def Let_def)
qed

lemma rnd_grown: "1 \<le> x \<Longrightarrow> x \<le> cwnd_top + 1 \<Longrightarrow> f_within 1 cwnd_top (rnd x)"
  unfolding cwnd_top_def by (rule rnd_within [OF rnd_one rnd_top]) simp_all

lemma c2_grown:
  assumes "f_within 1 cwnd_top w"
  shows "f_within 1 cwnd_top (f_add w (Fin 1))" and "f_within 1 cwnd_top (f_add w (f_div (Fin 1) w))"
proof -
  from assms obtain x where x: "w = Fin x" "1 \<le> x" "x \<le> cwnd_top"
    by (auto simp: f_within_def)
  then show "f_within 1 cwnd_top (f_add w (Fin 1))"
    by (simp add: rnd_grown)
  have "f_exp (- 53) 0 (rnd (1 / x))"
    using x(2,3) by (intro rnd_exp) (simp_all add: power_int_def field_simps cwnd_top_def)
  then obtain y where y: "rnd (1 / x) = Fin y" "0 \<le> y" "y \<le> 1"
    by (auto simp: f_exp_def f_within_def)
  then show "f_within 1 cwnd_top (f_add w (f_div (Fin 1) w))"
    using x by (simp add: rnd_grown)
qed

lemma c2_halved: "f_within 1 cwnd_top w \<Longrightarrow> f_within 1 cwnd_top (f_max (Fin 1) (f_div w (Fin 2)))"
proof -
  assume "f_within 1 cwnd_top w"
  then have "f_exp 0 53 w" "f_exp 1 1 (Fin 2)"
    by (simp_all add: f_exp_def power_int_def cwnd_top_def)
  then have "f_exp (0 - 1) (53 - 1) (f_div w (Fin 2))"
    by (rule f_div_exp) simp_all
  then have "f_within (2 powi (- 1)) (2 powi 52) (f_div w (Fin 2))"
    by (simp add: f_exp_def)
  from f_max_within [OF this, of 1 1] show ?thesis
    by (rule f_within_mono) (simp_all add: power_int_def cwnd_top_def)
qed

lemma c2_inv_call: "c2_inv c \<Longrightarrow> c2_inv (c2_call call c)"
  by (cases call)
    (simp_all add: c2_inv_def c2_OnPacketSent_def c2_OnPacketLost_def c2_OnPacketAcked_def c2_Reset_def
      Let_def c2_grown c2_halved split: prod.split)

interpretation cc2: congestion_control "\<lambda>_. c2_call" CWND c2_inv 1 cwnd_top
  by unfold_locales (simp_all add: c2_inv_call, simp add: c2_inv_def f_within_def CWND_def)

text \<open>CCID 4: between 2 and 1000 packets, in slow start for ever.\<close>

definition c4_inv :: "ccid4 \<Rightarrow> bool" where
  "c4_inv c \<longleftrightarrow> f_within 2 1000 (b_cwnd c) \<and> b_ssthresh c = MaxFloat64 \<and> c4_maxInFlight c = f_to_int (b_cwnd c)"

lemma c4_shrunk: "f_within 2 1000 w \<Longrightarrow> f_within 2 1000 (f_max (Fin 2) (f_mul w (rnd (7 / 10))))"
proof -
  assume "f_within 2 1000 w"
  then obtain x where x: "w = Fin x" "2 \<le> x" "x \<le> 1000"
    by (auto simp: f_within_def)
  have "f_exp (- 1) 0 (rnd (7 / 10))"
    by (rule rnd_exp) (simp_all add: power_int_def)
  then obtain y where y: "rnd (7 / 10) = Fin y" "1 / 2 \<le> y" "y \<le> 1"
    by (auto simp: f_exp_def f_within_def power_int_def)
  have "1 \<le> x * y" "x * y \<le> 1000"
    using x y mult_mono [of 2 x "1 / 2" y] mult_mono [of x 1000 y 1] by simp_all
  then have "f_within 1 1000 (rnd (x * y))"
    by (intro rnd_within [OF rnd_one rnd_numeral]) simp_all
  from f_max_within [OF this, of 2 2] show ?thesis
    by (simp add: x(1) y(1))
qed

lemma c4_grown: "f_within 2 1000 (b_cwnd c) \<Longrightarrow> f_within 2 1000 (c4_grow c)"
proof -
  assume "f_within 2 1000 (b_cwnd c)"
  then obtain x where x: "b_cwnd c = Fin x" "2 \<le> x" "x \<le> 1000"
    by (auto simp: f_within_def)
  have "f_within 2 1500 (rnd (x * 3 / 2))" "f_within 2 1500 (rnd (x + 1 / 2))"
    using x by (intro rnd_within [OF rnd_numeral rnd_numeral], simp_all)+
  then have "f_within 2 1500 (if f_less (b_cwnd c) (b_ssthresh c) then f_mul (b_cwnd c) (Fin (3 / 2))
      else f_add (b_cwnd c) (Fin (1 / 2)))"
    using x(1) by simp
  then show ?thesis
    by (auto simp: c4_grow_def Let_def f_within_def)
qed

lemma c4_inv_call: "c4_inv c \<Longrightarrow> c4_inv (c4_call call c)"
  by (cases call)
    (simp_all add: c4_inv_def c4_OnPacketSent_def c4_OnPacketLost_def c4_OnPacketAcked_def c4_Reset_def
      Let_def c4_grown c4_shrunk split: prod.split)

interpretation cc4: congestion_control "\<lambda>_. c4_call" CWND c4_inv 2 1000
  by unfold_locales (simp_all add: c4_inv_call, auto simp: c4_inv_def f_within_def CWND_def)

text \<open>CCID 3: never below four packets; the rate formula stays finite.\<close>

definition c3_inv :: "ccid3 \<Rightarrow> bool" where
  "c3_inv c \<longleftrightarrow> c3_tcpWMin c = Fin 4 \<and> f_within 4 (2 powi 97) (b_cwnd c)"

lemma loss_ratio_exp:
  assumes "lost \<noteq> 0"
  shows "f_div (f_of_int (uint (lost :: u64))) (f_of_int (uint (sent :: u64))) = PInf \<or>
    f_exp (- 64) 64 (f_div (f_of_int (uint lost)) (f_of_int (uint sent)))"
proof (cases "sent = 0")
  case True
  from f_of_word_exp [OF assms] obtain x where "f_of_int (uint lost) = Fin x" "1 \<le> x"
    by (auto simp: f_exp_def f_within_def)
  then show ?thesis
    by (simp add: True f_of_int_def f_inf_def)
next
  case False
  from f_div_exp [OF f_of_word_exp [OF assms] f_of_word_exp [OF False]] show ?thesis
    by simp
qed

lemma rate_window:
  assumes rtt: "f_exp (- 30) 34 rttSec" and p: "p = PInf \<or> f_exp (- 64) 64 p"
  shows "f_within 4 (2 powi 97)
    (f_max (Fin 4) (f_mul (f_div (f_sqrt (f_div (f_mul (Fin 2) (Fin 1)) (Fin 3))) (f_mul rttSec (f_sqrt p))) rttSec))"
proof -
  let ?k = "f_sqrt (f_div (f_mul (Fin 2) (Fin 1)) (Fin 3))"
  have "f_exp (- 2) 0 (f_div (f_mul (Fin 2) (Fin 1)) (Fin 3))"
    using rnd_exp [of "- 2" 0 "2 / 3"] rnd_numeral [of "num.Bit0 num.One"]
    by (simp add: power_int_def power2_eq_square)
  then have k: "f_exp (- 1) 0 ?k"
    using f_sqrt_exp [of "- 1" 0] by simp
  from p show ?thesis
  proof
    assume "p = PInf"
    moreover obtain r x where "rttSec = Fin r" "0 < r" "?k = Fin x"
      using f_exp_pos [OF rtt] f_exp_pos [OF k] by blast
    ultimately show ?thesis
      by (simp add: f_max_def f_inf_def power_int_def)
  next
    assume "f_exp (- 64) 64 p"
    then have "f_exp (- 32) 32 (f_sqrt p)"
      using f_sqrt_exp [of "- 32" 32 p] by simp
    then have "f_exp (- 62) 66 (f_mul rttSec (f_sqrt p))"
      using f_mul_exp [OF rtt] by fastforce
    then have "f_exp (- 67) 62 (f_div ?k (f_mul rttSec (f_sqrt p)))"
      using f_div_exp [OF k] by fastforce
    from f_mul_exp [OF this rtt] have
      "f_within (2 powi (- 97)) (2 powi 96) (f_mul (f_div ?k (f_mul rttSec (f_sqrt p))) rttSec)"
      by (simp add: f_exp_def)
    from f_max_within [OF this, of 4 4] show ?thesis
      by (rule f_within_mono) (simp_all add: power_int_def)
  qed
qed

lemma c3_inv_update: "c3_inv c \<Longrightarrow> c3_inv (updateSendRate c)"
  using rate_window [OF Seconds_exp loss_ratio_exp]
  by (simp add: c3_inv_def updateSendRate_def Let_def d_less_def)

lemma c3_inv_call: "c3_inv c \<Longrightarrow> c3_inv (c3_call now call c)"
proof (cases call)
  case Lost
  assume "c3_inv c"
  then show ?thesis
    unfolding Lost c3_call.simps c3_OnPacketLost_def Let_def
    by (intro c3_inv_update) (simp add: c3_inv_def Let_def split: option.split)
next
  case (Acked rtt)
  assume c: "c3_inv c"
  define c2 where "c2 = (note_rtt rtt (c\<lparr>c3_bytesAcked := c3_bytesAcked c + word_of_int (b_mss c)\<rparr>))
    \<lparr>c3_rtt := d_div (7 * c3_rtt (note_rtt rtt (c\<lparr>c3_bytesAcked := c3_bytesAcked c + word_of_int (b_mss c)\<rparr>)) + rtt) 8\<rparr>"
  have "c3_inv c2"
    using c by (simp add: c2_def c3_inv_def note_rtt_def Let_def)
  then show ?thesis
    using c3_inv_update [of c2] by (simp add: Acked c3_OnPacketAcked_def Let_def c2_def [symmetric]) (simp add: c3_inv_def)
qed (simp_all add: c3_inv_def c3_OnPacketSent_def c3_Reset_def power_int_def)

interpretation cc3: congestion_control c3_call CWND c3_inv 4 "2 powi 97"
  by unfold_locales (simp_all add: c3_inv_call, simp add: c3_inv_def f_within_def CWND_def)

section \<open>Properties\<close>

lemma run_calls_simps [simp]:
  "run_calls step [] s = s"
  "run_calls step ((now, call) # calls) s = run_calls step calls (step now call s)"
  by (simp_all add: run_calls_def)

lemma run_cc_do:
  "run_calls cc_do calls (CC2 a) = CC2 (run_calls (\<lambda>_. c2_call) calls a)"
  "run_calls cc_do calls (CC3 b) = CC3 (run_calls c3_call calls b)"
  "run_calls cc_do calls (CC4 c) = CC4 (run_calls (\<lambda>_. c4_call) calls c)"
  by (induction calls arbitrary: a b c) auto

lemma new_inv: "c2_inv newCCID2CC" "c3_inv (newCCID3CC now)" "c4_inv newCCID4CC"
  by (simp_all add: c2_inv_def c3_inv_def c4_inv_def newCCID2CC_def newCCID3CC_def newCCID4CC_def power_int_def)

lemma GetCongestionControl_cases:
  "GetCongestionControl i now =
     (if i = CCID2 then CC2 newCCID2CC else if i = CCID3 then CC3 (newCCID3CC now) else CC4 newCCID4CC)"
  by (simp add: GetCongestionControl_def ccidRegistry_def registerCCID_def)

text \<open>
  C12: whatever identifier a controller is fetched with, and in whatever order packets are
  sent, acknowledged with any round trip, lost, or the controller is reset: its window stays a
  finite number. It is at least 1 for CCID 2, at least 4 for CCID 3 and between 2 and 1000 for
  CCID 4, whose limit of packets in flight is the integral part of the window and whose
  threshold no loss ever lowers, so that it never leaves slow start.
\<close>

theorem congestion_windows:
  "case run_calls cc_do calls (GetCongestionControl i now) of
     CC2 c \<Rightarrow> f_within 1 (2 ^ 53) (CWND c)
   | CC3 c \<Rightarrow> f_within 4 (2 powi 97) (CWND c)
   | CC4 c \<Rightarrow> f_within 2 1000 (CWND c) \<and> SSTHRESH c = MaxFloat64 \<and> c4_maxInFlight c = f_to_int (CWND c)"
  using cc2.window_run [OF new_inv(1), of calls] cc3.window_run [OF new_inv(2), of calls now]
    cc4.inv_run [OF new_inv(3), of calls]
  by (simp only: GetCongestionControl_cases run_cc_do controller.case f_within_def c4_inv_def CWND_def
      SSTHRESH_def cwnd_top_def split: if_split controller.split) simp

lemma backed_off_eq: "backed_off k d = d * 2 ^ min k 6"
proof -
  have "((\<lambda>d. d * 2) ^^ n) d = d * 2 ^ n" for n
    by (induction n) (simp_all add: mult.assoc)
  then show ?thesis
    by (simp add: backed_off_def)
qed

lemma c2_lost_simps [simp]:
  "c2_rto (c2_OnPacketLost c) = c2_rto c * 2 ^ min (c2_backoff c + 1) 6"
  "c2_backoff (c2_OnPacketLost c) = c2_backoff c + 1"
  by (simp_all add: c2_OnPacketLost_def Let_def c2_drain_def backed_off_eq)

lemma c2_losses:
  "c2_rto c = 0 \<Longrightarrow> c2_OnRTO (run_calls (\<lambda>_. c2_call) (replicate k (t, Lost)) c) = 0"
  by (induction k arbitrary: c) (simp_all add: c2_OnRTO_def backed_off_eq)

text \<open>
  The timeout of CCID 2 overflows when losses are reported without an acknowledgement in
  between: each loss multiplies the stored timeout by the whole back-off again, so the
  eighth timeout is a negative duration, and from the eleventh on it is zero.
\<close>

lemma ccid2_timeout_overflows:
  "sint (cc_OnRTO (run_calls cc_do (replicate 8 (t, Lost)) (GetCongestionControl CCID2 now))) < 0 \<and>
   cc_OnRTO (run_calls cc_do (replicate (11 + k) (t, Lost)) (GetCongestionControl CCID2 now)) = 0"
proof -
  let ?run = "\<lambda>n. run_calls (\<lambda>_. c2_call) (replicate n (t, Lost)) newCCID2CC"
  have new: "c2_rto newCCID2CC = Second" "c2_backoff newCCID2CC = 0"
    by (simp_all add: newCCID2CC_def)
  let ?x = "(t, Lost)"
  have r8: "replicate 8 ?x = [?x, ?x, ?x, ?x, ?x, ?x, ?x, ?x]"
    and r11: "replicate 11 ?x = replicate 8 ?x @ [?x, ?x, ?x]"
    by (simp_all add: eval_nat_numeral)
  have "c2_OnRTO (?run 8) = Second * 2 ^ 39"
    unfolding r8 by (simp add: c2_OnRTO_def backed_off_eq new)
  then have "sint (c2_OnRTO (?run 8)) < 0"
    by simp
  moreover have "c2_OnRTO (?run (11 + k)) = 0"
  proof (cases k)
    case 0
    then show ?thesis
      by (simp add: r11 r8 c2_OnRTO_def backed_off_eq new)
  next
    case (Suc j)
    have "replicate (11 + k) ?x = replicate 8 ?x @ ?x # ?x # ?x # ?x # replicate j ?x"
      using r11 by (simp only: Suc add_Suc_right replicate_Suc replicate_add replicate_app_Cons_same
          append_assoc append_Cons append_Nil)
    then show ?thesis
      by (simp add: r8 c2_losses new)
  qed
  ultimately show ?thesis
    by (simp add: GetCongestionControl_cases run_cc_do)
qed

lemma c3_blocked:
  assumes "list_all (\<lambda>(t, call). call \<noteq> Lost \<and> t \<le> now + 1000000000) calls"
    and "c3_sendRate c = Fin 0" "c3_lastRateCalc c = now"
  shows "c3_sendRate (run_calls c3_call calls c) = Fin 0"
  using assms
proof (induction calls arbitrary: c)
  case (Cons x calls)
  obtain t call where x: "x = (t, call)"
    by (cases x)
  have t: "t - now \<le> 1000000000"
    using Cons.prems(1) by (simp add: x)
  have "sint (time_Sub t now) \<le> 1000000000"
  proof -
    have "sint (time_Sub t now) = max (- (2 ^ 63)) (min (2 ^ 63 - 1) (t - now))"
      unfolding time_Sub_def by (simp only: sint_sbintrunc') (rule signed_take_bit_int_eq_self; simp)
    with t show ?thesis
      by simp
  qed
  then have "c3_sendRate (c3_call t call c) = Fin 0 \<and> c3_lastRateCalc (c3_call t call c) = now"
    using Cons.prems
    by (cases call) (simp_all add: x c3_OnPacketSent_def c3_OnPacketAcked_def c3_Reset_def Let_def
        note_rtt_def d_less_def)
  with Cons show ?case
    by (simp add: x)
qed simp

text \<open>
  A CCID 3 controller refuses to send from the start: until a loss is reported, or an
  acknowledgement arrives more than a second after the controller was made, \<open>CanSend\<close> is
  false, however many packets are sent, acknowledged or the controller is reset. A sender that
  asks it first never sends.
\<close>

lemma ccid3_starts_blocked:
  assumes "list_all (\<lambda>(t, call). call \<noteq> Lost \<and> t \<le> now + 1000000000) calls"
  shows "\<not> cc_CanSend (run_calls cc_do calls (GetCongestionControl CCID3 now))"
  using c3_blocked [OF assms, of "newCCID3CC now"]
  by (simp add: GetCongestionControl_cases run_cc_do c3_CanSend_def newCCID3CC_def)

end
