(* ===== verification/Dccp_Transport.thy ===== *)
theory Dccp_Transport
  imports Dccp_Handshake Dccp_Congestion
begin

text \<open>
  The connection over the DCCP packet layer: \<open>app/transport/transport.go\<close> (names with \<open>tr_\<close>), and
  where it differs its older twin \<open>app/transport/dccp/transport.go\<close> (names with \<open>dc_\<close>; \<open>Read\<close>,
  \<open>readNextPacket\<close> and the accessors are the same code there). Deadlines show as failing reads and
  writes, the context only cancels the dialling. A \<open>nil\<close> connection is \<open>None\<close>; the handshake
  handler shares the connection state of the transport. Acknowledgements are sent by goroutines:
  \<open>dt_acks\<close> holds the sequence numbers of those started and not yet run.
\<close>

definition ErrTransportClosed :: error where
  "ErrTransportClosed = Error ''transport connection closed''"

record dccp_settings =
  ds_CCID :: ccid
  ds_ServiceCode :: string
  ds_MaxPacketSize :: int
  ds_MaxRetries :: int

definition DefaultDCCPSettings :: dccp_settings where
  "DefaultDCCPSettings =
     \<lparr>ds_CCID = CCID4, ds_ServiceCode = ''V2RY'', ds_MaxPacketSize = 1500, ds_MaxRetries = 3\<rparr>"

record dccp_transport =
  dt_settings :: "dccp_settings option"
  dt_state :: conn_state
  dt_config :: handshake_config
  dt_cc :: controller
  dt_conn :: "conn option"
  dt_rxBuf :: bytes
  dt_rxOffset :: nat
  dt_rxLen :: nat
  dt_closed :: bool
  dt_connClosed :: bool
  dt_acks :: "u64 list"

definition service_code_of :: "string \<Rightarrow> service_code" where
  "service_code_of code = map of_char (take 4 code)"

definition tr_getServiceCode :: "dccp_settings \<Rightarrow> service_code" where
  "tr_getServiceCode ds =
     (if length (ds_ServiceCode ds) \<ge> 4 then service_code_of (ds_ServiceCode ds) else service_code_of ''V2RY'')"

definition tr_initDCCP :: "int \<Rightarrow> dccp_transport \<Rightarrow> dccp_transport go" where
  "tr_initDCCP now t =
     (case dt_settings t of
        None \<Rightarrow> Panic
      | Some ds \<Rightarrow>
          Return (t\<lparr>dt_state := NewConnState now False, dt_cc := GetCongestionControl (ds_CCID ds) now,
                    dt_config := \<lparr>hc_ServiceCode = tr_getServiceCode ds, hc_CCID = ds_CCID ds,
                                  hc_MaxRetries = ds_MaxRetries ds\<rparr>\<rparr>))"

text \<open>The transport before \<open>initDCCP\<close> fills in the state, the controller and the handshake.\<close>

definition blank_transport :: "int \<Rightarrow> dccp_settings option \<Rightarrow> dccp_transport" where
  "blank_transport now settings =
     \<lparr>dt_settings = settings, dt_state = NewConnState now False, dt_config = DefaultHandshakeConfig,
      dt_cc = CC4 newCCID4CC, dt_conn = None, dt_rxBuf = replicate 65536 0, dt_rxOffset = 0, dt_rxLen = 0,
      dt_closed = False, dt_connClosed = False, dt_acks = []\<rparr>"

definition tr_NewDCCPTransport :: "int \<Rightarrow> dccp_settings option \<Rightarrow> dccp_transport go" where
  "tr_NewDCCPTransport now settings = tr_initDCCP now (blank_transport now settings)"

section \<open>Dialling\<close>

text \<open>
  After the dial: the ports are those of TCP addresses (\<open>None\<close>: the remote address of the
  connection is none, and the type assertion panics), and a failed handshake closes the connection.
\<close>

definition dial_ports :: "u16 option \<Rightarrow> u16 option \<Rightarrow> (u16 \<times> u16) go" where
  "dial_ports remote addr =
     (case remote of
        None \<Rightarrow> Panic
      | Some rp \<Rightarrow> Return (rp, case addr of None \<Rightarrow> rp | Some p \<Rightarrow> p))"

definition run_handshake ::
  "bytes \<Rightarrow> u16 option \<Rightarrow> u16 option \<Rightarrow> conn \<Rightarrow> dccp_transport \<Rightarrow> dccp_transport \<times> unit go" where
  "run_handshake entropy remote addr c t =
     (case dial_ports remote addr of
        Panic \<Rightarrow> (t, Panic)
      | Fail e \<Rightarrow> (t, Fail e)
      | Return (src, dst) \<Rightarrow>
          (case ClientHandshake (dt_config t) src dst entropy (dt_state t) c of
             (st, c1, r) \<Rightarrow>
               let t1 = t\<lparr>dt_state := st, dt_conn := Some c1\<rparr>
               in case r of
                    Panic \<Rightarrow> (t1, Panic)
                  | Fail e \<Rightarrow> (t1\<lparr>dt_connClosed := True\<rparr>, Fail e)
                  | Return u \<Rightarrow> (t1, Return ())))"

definition tr_Dial ::
  "int \<Rightarrow> bytes \<Rightarrow> conn go \<Rightarrow> u16 option \<Rightarrow> u16 option \<Rightarrow> dccp_transport \<Rightarrow> dccp_transport \<times> unit go" where
  "tr_Dial now entropy dialed remote addr t =
     (case dialed of
        Panic \<Rightarrow> (t, Panic)
      | Fail e \<Rightarrow> (t, Fail e)
      | Return c \<Rightarrow>
          let t1 = t\<lparr>dt_conn := Some c\<rparr>
          in case tr_initDCCP now t1 of
               Panic \<Rightarrow> (t1, Panic)
             | Fail e \<Rightarrow> (t1, Fail e)
             | Return t2 \<Rightarrow> run_handshake entropy remote addr c t2)"

section \<open>Writing\<close>

definition port_or_one :: "u16 \<Rightarrow> u16" where
  "port_or_one p = (if p = 0 then 1 else p)"

text \<open>
  The loop that cuts the data into packets: at most \<open>m\<close> bytes each (a negative \<open>m\<close> makes the
  slice panic, and so does the packet builder for \<open>m = 0\<close>). It returns the number of bytes of the
  packets written so far.
\<close>

lemma BuildDataPacket_Nil: "BuildDataPacket src dst sq [] = Panic"
  by (simp add: BuildDataPacket_def empty_packet_panics)

lemma chunk_progress:
  "BuildDataPacket src dst sq (take n p) = Return pkt \<Longrightarrow> length p - n < length p"
  using BuildDataPacket_Nil [of src dst sq] by (cases "n = 0"; cases p) auto

function write_loop ::
  "int \<Rightarrow> int \<Rightarrow> u16 \<Rightarrow> u16 \<Rightarrow> bytes \<Rightarrow> nat \<Rightarrow> dccp_transport \<Rightarrow> dccp_transport \<times> nat \<times> unit go" where
  "write_loop now m src dst p written t =
     (if p = [] then (t, written, Return ())
      else
        let k = (if int (length p) > m then m else int (length p))
        in if k < 0 then (t, written, Panic)
           else
             let chunk = take (nat k) p;
                 sq = cs_LocalSeq (dt_state t) + 1;
                 t1 = t\<lparr>dt_state := (dt_state t)\<lparr>cs_LocalSeq := sq\<rparr>\<rparr>
             in case BuildDataPacket src dst sq chunk of
                  Panic \<Rightarrow> (t1, written, Panic)
                | Fail e \<Rightarrow> (t1, written, Fail e)
                | Return pkt \<Rightarrow>
                    (case dt_conn t1 of
                       None \<Rightarrow> (t1, written, Panic)
                     | Some c \<Rightarrow>
                         (case conn_write pkt c of
                            (c1, Some e) \<Rightarrow> (t1\<lparr>dt_conn := Some c1\<rparr>, written, Fail e)
                          | (c1, None) \<Rightarrow>
                              write_loop now m src dst (drop (nat k) p) (written + nat k)
                                (t1\<lparr>dt_conn := Some c1, dt_cc := cc_do now (Sent (int (length pkt))) (dt_cc t1)\<rparr>))))"
  by pat_completeness auto
termination
  by (relation "measure (\<lambda>(_, _, _, _, p, _). length p)") (auto dest: chunk_progress)

declare write_loop.simps [simp del]

definition tr_Write :: "int \<Rightarrow> bytes \<Rightarrow> dccp_transport \<Rightarrow> dccp_transport \<times> nat \<times> unit go" where
  "tr_Write now p t =
     (if dt_closed t \<or> dt_conn t = None then (t, 0, Fail ErrTransportClosed)
      else case dt_settings t of
        None \<Rightarrow> (t, 0, Panic)
      | Some ds \<Rightarrow>
          write_loop now (ds_MaxPacketSize ds - int HeaderSize - 12)
            (port_or_one (cs_LocalPort (dt_state t))) (port_or_one (cs_RemotePort (dt_state t))) p 0 t)"

section \<open>Reading\<close>

definition markClosed :: "dccp_transport \<Rightarrow> dccp_transport" where
  "markClosed t = t\<lparr>dt_closed := True\<rparr>"

text \<open>\<open>sendClose\<close> ignores the error of the builder and of the connection.\<close>

definition sendClose :: "dccp_transport \<Rightarrow> dccp_transport \<times> unit go" where
  "sendClose t =
     (case BuildClosePacket (cs_LocalPort (dt_state t)) (cs_RemotePort (dt_state t)) (cs_LocalSeq (dt_state t)) of
        Panic \<Rightarrow> (t, Panic)
      | Fail e \<Rightarrow> (t\<lparr>dt_conn := map_option (\<lambda>c. fst (conn_write [] c)) (dt_conn t)\<rparr>, Return ())
      | Return pkt \<Rightarrow> (t\<lparr>dt_conn := map_option (\<lambda>c. fst (conn_write pkt c)) (dt_conn t)\<rparr>, Return ()))"

text \<open>A goroutine started for a packet that wants an acknowledgement.\<close>

definition tr_sendAck :: "u64 \<Rightarrow> dccp_transport \<Rightarrow> dccp_transport \<times> unit go" where
  "tr_sendAck sq t =
     (let t1 = t\<lparr>dt_acks := remove1 sq (dt_acks t)\<rparr>
      in case dt_conn t1 of
           None \<Rightarrow> (t1, Return ())
         | Some c \<Rightarrow>
             (case BuildAckPacket (port_or_one (cs_LocalPort (dt_state t1)))
                     (port_or_one (cs_RemotePort (dt_state t1))) (sq + 1) of
                Panic \<Rightarrow> (t1, Panic)
              | Fail e \<Rightarrow> (t1, Return ())
              | Return pkt \<Rightarrow> (t1\<lparr>dt_conn := Some (fst (conn_write pkt c))\<rparr>, Return ())))"

text \<open>Every packet read shortens what is left to read, so the loop ends.\<close>

lemma conn_read_shorter: "conn_read c = (c1, Return r) \<Longrightarrow> length (c_in c1) < length (c_in c)"
  by (auto simp: conn_read_Return after_packet_def dest!: ReadFull_rest)

definition deliver :: "dccp_header \<Rightarrow> bytes \<Rightarrow> dccp_transport \<Rightarrow> dccp_transport" where
  "deliver hdr payload t =
     (let t1 = t\<lparr>dt_rxOffset := 0, dt_rxBuf := blit (dt_rxBuf t) 0 payload,
                 dt_rxLen := copied (dt_rxBuf t) 0 payload\<rparr>
      in if h_type hdr = PktDCCPDataAck then t1\<lparr>dt_acks := dt_acks t1 @ [h_seq hdr]\<rparr>
         else t1\<lparr>dt_state := (dt_state t1)\<lparr>cs_RemoteAck := h_seq hdr + 1\<rparr>\<rparr>)"

function readNextPacket :: "dccp_transport \<Rightarrow> dccp_transport \<times> unit go" where
  "readNextPacket t =
     (case dt_conn t of
        None \<Rightarrow> (t, Panic)
      | Some c \<Rightarrow>
          (case conn_read c of
             (c1, Panic) \<Rightarrow> (t\<lparr>dt_conn := Some c1\<rparr>, Panic)
           | (c1, Fail e) \<Rightarrow>
               let t1 = t\<lparr>dt_conn := Some c1\<rparr> in (if e = EOF then markClosed t1 else t1, Fail e)
           | (c1, Return (hdr, opts, payload)) \<Rightarrow>
               let t1 = t\<lparr>dt_conn := Some c1\<rparr>
               in if h_type hdr = PktDCCPData \<or> h_type hdr = PktDCCPDataAck then (deliver hdr payload t1, Return ())
                  else if h_type hdr = PktDCCPAck then
                    readNextPacket (t1\<lparr>dt_state := (dt_state t1)\<lparr>cs_LocalAck := h_seq hdr\<rparr>\<rparr>)
                  else if h_type hdr = PktDCCPClose \<or> h_type hdr = PktDCCPCloseReq then
                    (case sendClose t1 of
                       (t2, Return u) \<Rightarrow> (markClosed t2, Fail EOF)
                     | (t2, Fail e) \<Rightarrow> (t2, Fail e)
                     | (t2, Panic) \<Rightarrow> (t2, Panic))
                  else if h_type hdr = PktDCCPReset then (markClosed t1, Fail (Error ''connection reset''))
                  else readNextPacket t1))"
  by pat_completeness auto
termination
  by (relation "measure (\<lambda>t. case dt_conn t of None \<Rightarrow> 0 | Some c \<Rightarrow> length (c_in c))")
    (auto dest: conn_read_shorter [OF sym])

declare readNextPacket.simps [simp del]

text \<open>What a read hands out of the received bytes.\<close>

definition take_received :: "nat \<Rightarrow> dccp_transport \<Rightarrow> dccp_transport \<times> bytes go" where
  "take_received k t =
     (case go_slice (dt_rxBuf t) (int (dt_rxOffset t)) (int (dt_rxOffset t + dt_rxLen t)) of
        Return src \<Rightarrow>
          let n = min k (length src); len = dt_rxLen t - n
          in (t\<lparr>dt_rxOffset := (if len = 0 then 0 else dt_rxOffset t + n), dt_rxLen := len\<rparr>, Return (take k src))
      | Fail e \<Rightarrow> (t, Fail e)
      | Panic \<Rightarrow> (t, Panic))"

definition tr_Read :: "nat \<Rightarrow> dccp_transport \<Rightarrow> dccp_transport \<times> bytes go" where
  "tr_Read k t =
     (if dt_closed t then (t, Fail ErrTransportClosed)
      else if dt_rxLen t = 0 then
        (case readNextPacket t of
           (t1, Return u) \<Rightarrow> take_received k t1
         | (t1, Fail e) \<Rightarrow> (t1, Fail e)
         | (t1, Panic) \<Rightarrow> (t1, Panic))
      else take_received k t)"

definition tr_Close :: "dccp_transport \<Rightarrow> dccp_transport" where
  "tr_Close t =
     (let t1 = markClosed t
      in case dt_conn t1 of None \<Rightarrow> t1 | Some c \<Rightarrow> t1\<lparr>dt_connClosed := True\<rparr>)"

definition tr_IsClosed :: "dccp_transport \<Rightarrow> bool" where
  "tr_IsClosed t = dt_closed t"

section \<open>The older transport\<close>

text \<open>
  Missing settings are filled in for the controller and the handshake, but the service code is
  still taken from the settings that are not there. Disguises are left out.
\<close>

definition dc_getServiceCode :: "dccp_settings option \<Rightarrow> service_code go" where
  "dc_getServiceCode settings =
     (case settings of
        None \<Rightarrow> Panic
      | Some ds \<Rightarrow>
          Return (if length (ds_ServiceCode ds) \<ge> 4 then service_code_of (ds_ServiceCode ds)
                  else service_code_of ''OIWE''))"

definition dc_initDCCP :: "int \<Rightarrow> dccp_transport \<Rightarrow> dccp_transport go" where
  "dc_initDCCP now t =
     (let ds = (case dt_settings t of
                  None \<Rightarrow> \<lparr>ds_CCID = 4, ds_ServiceCode = ''OIWE'', ds_MaxPacketSize = 1500, ds_MaxRetries = 0\<rparr>
                | Some ds \<Rightarrow> ds);
          t1 = t\<lparr>dt_state := NewConnState now False, dt_cc := GetCongestionControl (ds_CCID ds) now\<rparr>
      in go_map (\<lambda>sc. t1\<lparr>dt_config := \<lparr>hc_ServiceCode = sc, hc_CCID = ds_CCID ds,
                                        hc_MaxRetries = ds_MaxRetries ds\<rparr>\<rparr>)
           (dc_getServiceCode (dt_settings t)))"

definition dc_NewDCCPTransport :: "int \<Rightarrow> dccp_settings option \<Rightarrow> dccp_transport go" where
  "dc_NewDCCPTransport now settings = dc_initDCCP now (blank_transport now settings)"

definition dc_Dial ::
  "int \<Rightarrow> bytes \<Rightarrow> conn go \<Rightarrow> u16 option \<Rightarrow> u16 option \<Rightarrow> dccp_transport \<Rightarrow> dccp_transport \<times> unit go" where
  "dc_Dial now entropy dialed remote addr t =
     (case dialed of
        Panic \<Rightarrow> (t, Panic)
      | Fail e \<Rightarrow> (t, Fail e)
      | Return c \<Rightarrow>
          let t1 = t\<lparr>dt_conn := Some c\<rparr>
          in case dc_initDCCP now t1 of
               Panic \<Rightarrow> (t1, Panic)
             | Fail e \<Rightarrow> (t1, Fail e)
             | Return t2 \<Rightarrow> run_handshake entropy remote addr c t2)"

definition dc_ErrTransportClosed :: error where
  "dc_ErrTransportClosed = Error ''dccp: transport closed''"

definition dc_Write :: "int \<Rightarrow> bytes \<Rightarrow> dccp_transport \<Rightarrow> dccp_transport \<times> nat \<times> unit go" where
  "dc_Write now p t =
     (if dt_closed t then (t, 0, Fail dc_ErrTransportClosed)
      else case dt_settings t of
        None \<Rightarrow> (t, 0, Panic)
      | Some ds \<Rightarrow>
          let m = ds_MaxPacketSize ds - int HeaderSize - 12
          in write_loop now (if m \<le> 0 then 1400 else m)
               (port_or_one (cs_LocalPort (dt_state t))) (port_or_one (cs_RemotePort (dt_state t))) p 0 t)"

text \<open>A packet that could not be built is written as an empty one; a \<open>nil\<close> connection panics.\<close>

definition dc_send :: "bytes go \<Rightarrow> dccp_transport \<Rightarrow> dccp_transport \<times> unit go" where
  "dc_send built t =
     (case built of
        Panic \<Rightarrow> (t, Panic)
      | _ \<Rightarrow>
          (case dt_conn t of
             None \<Rightarrow> (t, Panic)
           | Some c \<Rightarrow>
               (t\<lparr>dt_conn := Some (fst (conn_write (case built of Return pkt \<Rightarrow> pkt | _ \<Rightarrow> []) c))\<rparr>, Return ())))"

definition dc_sendAck :: "u64 \<Rightarrow> dccp_transport \<Rightarrow> dccp_transport \<times> unit go" where
  "dc_sendAck sq t =
     (let t1 = t\<lparr>dt_acks := remove1 sq (dt_acks t)\<rparr>
      in dc_send (BuildAckPacket (port_or_one (cs_LocalPort (dt_state t1)))
                    (port_or_one (cs_RemotePort (dt_state t1))) (sq + 1)) t1)"

definition dc_sendClose :: "dccp_transport \<Rightarrow> dccp_transport \<times> unit go" where
  "dc_sendClose t =
     dc_send (BuildClosePacket (cs_LocalPort (dt_state t)) (cs_RemotePort (dt_state t)) (cs_LocalSeq (dt_state t))) t"

definition dc_Close :: "dccp_transport \<Rightarrow> dccp_transport \<times> unit go" where
  "dc_Close t =
     (if dt_closed t then (t, Return ())
      else case dc_sendClose t of
        (t1, Return u) \<Rightarrow> (tr_Close t1, Return ())
      | (t1, Fail e) \<Rightarrow> (t1, Fail e)
      | (t1, Panic) \<Rightarrow> (t1, Panic))"

text \<open>
  The read loop is the same code, with the \<open>sendClose\<close> above; on a connection, and it has one when it
  reads, that is the other \<open>sendClose\<close>.
\<close>

lemma dc_sendClose_eq: "dt_conn t = Some c \<Longrightarrow> dc_sendClose t = sendClose t"
  by (auto simp: dc_sendClose_def dc_send_def sendClose_def split: go.split)

definition dc_readNextPacket :: "dccp_transport \<Rightarrow> dccp_transport \<times> unit go" where
  "dc_readNextPacket t = readNextPacket t"

definition dc_Read :: "nat \<Rightarrow> dccp_transport \<Rightarrow> dccp_transport \<times> bytes go" where
  "dc_Read k t =
     (if dt_closed t then (t, Fail dc_ErrTransportClosed)
      else if dt_rxLen t = 0 then
        (case dc_readNextPacket t of
           (t1, Return u) \<Rightarrow> take_received k t1
         | (t1, Fail e) \<Rightarrow> (t1, Fail e)
         | (t1, Panic) \<Rightarrow> (t1, Panic))
      else take_received k t)"

lemma dc_Read_eq: "\<not> dt_closed t \<Longrightarrow> dc_Read k t = tr_Read k t"
  by (simp add: dc_Read_def tr_Read_def dc_readNextPacket_def)

text \<open>\<open>tls_client\<close>: the TLS handshake on the dialled connection.\<close>

definition dc_DialWithTLS ::
  "int \<Rightarrow> bytes \<Rightarrow> conn go \<Rightarrow> (conn \<Rightarrow> conn go) \<Rightarrow> u16 option \<Rightarrow> u16 option \<Rightarrow> dccp_transport \<Rightarrow>
     dccp_transport \<times> unit go" where
  "dc_DialWithTLS now entropy dialed tls_client remote addr t =
     dc_Dial now entropy (go_bind dialed tls_client) remote addr t"

section \<open>What is written\<close>

lemma write_loop_Nil [simp]: "write_loop now m src dst [] w t = (t, w, Return ())"
  by (simp add: write_loop.simps)

text \<open>The packets of a list of chunks, with whatever sequence numbers they got.\<close>

definition data_packets :: "u16 \<Rightarrow> u16 \<Rightarrow> bytes list \<Rightarrow> bytes list \<Rightarrow> bool" where
  "data_packets src dst chunks pkts \<longleftrightarrow>
     list_all2 (\<lambda>chunk pkt. \<exists>sq. BuildDataPacket src dst sq chunk = Return pkt) chunks pkts"

lemma data_packets_simps [simp]:
  "data_packets src dst [] []"
  "data_packets src dst (x # xs) (y # ys) \<longleftrightarrow>
     (\<exists>sq. BuildDataPacket src dst sq x = Return y) \<and> data_packets src dst xs ys"
  by (simp_all add: data_packets_def)

lemma write_loop_Return:
  assumes "write_loop now m src dst p w t = (t', n, Return ())" "dt_conn t = Some c"
  shows "n = w + length p \<and> (\<exists>c' chunks pkts. dt_conn t' = Some c' \<and> concat chunks = p \<and>
    data_packets src dst chunks pkts \<and> c_out c' = c_out c @ concat pkts)"
  using assms
proof (induction now m src dst p w t arbitrary: c rule: write_loop.induct)
  case (1 now m src dst p w t)
  show ?case
  proof (cases "p = []")
    case True
    then have "n = w" "t' = t"
      using "1.prems"(1) by simp_all
    then show ?thesis
      using True "1.prems"(2) by (intro conjI exI [of _ c] exI [of _ "[]"]) simp_all
  next
    case False
    define k where "k = (if int (length p) > m then m else int (length p))"
    define t1 where "t1 = t\<lparr>dt_state := (dt_state t)\<lparr>cs_LocalSeq := cs_LocalSeq (dt_state t) + 1\<rparr>\<rparr>"
    obtain pkt c1 where pkt: "\<not> k < 0" "BuildDataPacket src dst (cs_LocalSeq (dt_state t) + 1) (take (nat k) p) = Return pkt"
        "conn_write pkt c = (c1, None)"
      and rec: "write_loop now m src dst (drop (nat k) p) (w + nat k)
        (t1\<lparr>dt_conn := Some c1, dt_cc := cc_do now (Sent (int (length pkt))) (dt_cc t1)\<rparr>) = (t', n, Return ())"
      using "1.prems" False unfolding write_loop.simps [of now m src dst p w t] k_def [symmetric]
      by (auto simp: Let_def t1_def split: if_splits go.splits prod.splits option.splits)
    from "1.IH" [OF False k_def pkt(1) refl refl t1_def pkt(2), of c c1 "None", OF _ _ _ rec]
    obtain c' chunks pkts where ih: "n = w + nat k + length (drop (nat k) p)" "dt_conn t' = Some c'"
        "concat chunks = drop (nat k) p" "data_packets src dst chunks pkts" "c_out c' = c_out c1 @ concat pkts"
      using "1.prems"(2) pkt(3) by (auto simp: t1_def)
    have "c_out c1 = c_out c @ pkt"
      using conn_write_None [OF pkt(3)] by simp
    moreover have "nat k \<le> length p"
      by (auto simp: k_def)
    ultimately show ?thesis
      using ih pkt(2) by (intro conjI exI [of _ c'] exI [of _ "take (nat k) p # chunks"] exI [of _ "pkt # pkts"]) auto
  qed
qed

lemma BuildDataPacket_cases:
  "length payload < 4 \<Longrightarrow> BuildDataPacket src dst sq payload = Panic"
  "4 \<le> length payload \<Longrightarrow> \<exists>pkt. BuildDataPacket src dst sq payload = Return pkt"
  using EncodeDCCPPacket_cases [of "[]" "packet_header src dst PktDCCPData sq" payload]
  by (auto simp: BuildDataPacket_def padding_size_def split: if_splits)

text \<open>The number of bytes of a write that go out in packets of \<open>m\<close> bytes, at least four in the last.\<close>

definition sendable :: "nat \<Rightarrow> nat \<Rightarrow> nat" where
  "sendable m n = (if n mod m < 4 then n - n mod m else n)"

lemma sendable_step:
  assumes "4 \<le> m" "m \<le> n"
  shows "sendable m n = m + sendable m (n - m)"
proof -
  obtain d where n: "n = m + d"
    using assms(2) le_Suc_ex by blast
  have "d mod m \<le> d"
    by simp
  then show ?thesis
    by (simp add: sendable_def n)
qed

lemma sendable_small: "4 \<le> m \<Longrightarrow> n < m \<Longrightarrow> sendable m n = (if n < 4 then 0 else n)"
  by (simp add: sendable_def)

lemma write_loop_outcome:
  assumes "4 \<le> m" "dt_conn t = Some c" "c_werr c = []"
  shows "\<exists>t'. write_loop now (int m) src dst p w t =
    (t', w + sendable m (length p), if sendable m (length p) = length p then Return () else Panic)"
  using assms(2,3)
proof (induction "length p" arbitrary: p w t c rule: less_induct)
  case less
  show ?case
  proof (cases "length p < 4")
    case True
    show ?thesis
    proof (cases "p = []")
      case False
      then have "\<not> int (length p) > int m" "sendable m (length p) = 0"
        using True assms(1) by (simp_all add: sendable_small)
      with True False show ?thesis
        by (subst write_loop.simps) (simp add: Let_def BuildDataPacket_cases(1))
    qed (simp add: sendable_def)
  next
    case False
    define k where "k = min m (length p)"
    have k: "(if int (length p) > int m then int m else int (length p)) = int k" "4 \<le> k" "k \<le> length p"
      using False assms(1) by (auto simp: k_def)
    have rest: "sendable m (length p) = k + sendable m (length p - k)"
    proof (cases "m \<le> length p")
      case True
      with assms(1) show ?thesis by (simp add: k_def sendable_step)
    next
      case small: False
      with False assms(1) show ?thesis by (simp add: k_def sendable_small)
    qed
    let ?t1 = "t\<lparr>dt_state := (dt_state t)\<lparr>cs_LocalSeq := cs_LocalSeq (dt_state t) + 1\<rparr>\<rparr>"
    obtain pkt where pkt: "BuildDataPacket src dst (cs_LocalSeq (dt_state t) + 1) (take k p) = Return pkt"
      using BuildDataPacket_cases(2) [of "take k p" src dst "cs_LocalSeq (dt_state t) + 1"] k(2,3) by auto
    let ?c1 = "c\<lparr>c_out := c_out c @ pkt\<rparr>"
    let ?t2 = "?t1\<lparr>dt_conn := Some ?c1, dt_cc := cc_do now (Sent (int (length pkt))) (dt_cc ?t1)\<rparr>"
    have wr: "conn_write pkt c = (?c1, None)"
      using less.prems(2) by (simp add: conn_write_def)
    have step: "write_loop now (int m) src dst p w t = write_loop now (int m) src dst (drop k p) (w + k) ?t2"
      using False pkt less.prems(1) k(2) wr
      by (subst write_loop.simps) (simp only: k(1) Let_def nat_int, auto)
    have "length (drop k p) < length p"
      using k(2,3) by simp
    from less.hyps [OF this, of ?t2 ?c1 "w + k"] less.prems
    obtain t' where "write_loop now (int m) src dst (drop k p) (w + k) ?t2 =
        (t', w + k + sendable m (length p - k), if sendable m (length p - k) = length p - k then Return () else Panic)"
      by (simp split del: if_split) blast
    then show ?thesis
      unfolding step rest using k(3) by (auto simp: add.assoc)
  qed
qed

text \<open>
  Dialling never succeeds, whatever connection the network gives and whatever the peer answers: the
  transport is left with a closed connection, or the dial panics.
\<close>

lemma tr_Dial_fails:
  "snd (tr_Dial now entropy dialed remote addr t) \<noteq> Return ()"
  by (auto simp: tr_Dial_def run_handshake_def Let_def ClientHandshake_def client_loop_fails
      split: go.split prod.split)
     (metis client_loop_fails snd_conv)+

section \<open>Properties\<close>

text \<open>
  On a connection that accepts every write, \<open>Write\<close> cuts the data into packets of the
  configured size less the 24 bytes for headers, and returns their number of bytes; but when one to
  three bytes are left for the last packet it panics, after having sent the others.
\<close>

lemma tr_Write_outcome:
  assumes "dt_conn t = Some c" "c_werr c = []" "\<not> dt_closed t"
    and "dt_settings t = Some ds" "ds_MaxPacketSize ds = int m + 24" "4 \<le> m"
  shows "\<exists>t'. tr_Write now p t = (t', sendable m (length p),
    if 0 < length p mod m \<and> length p mod m < 4 then Panic else Return ())"
proof -
  have "(if r < 4 then n - r else n) = n \<longleftrightarrow> \<not> (0 < r \<and> r < 4)" if "r \<le> n" for r n :: nat
    using that by auto
  then have "sendable m (length p) = length p \<longleftrightarrow> \<not> (0 < length p mod m \<and> length p mod m < 4)"
    by (simp add: sendable_def)
  then show ?thesis
    using write_loop_outcome [OF assms(6,1,2), of now "port_or_one (cs_LocalPort (dt_state t))"
        "port_or_one (cs_RemotePort (dt_state t))" p 0] assms
    by (auto simp: tr_Write_def)
qed

text \<open>
  C21: what one transport writes another never reads: after a successful \<open>Write\<close>, with all
  of its bytes in the stream of the peer, the peer's next \<open>Read\<close> fails because the
  decoder finds the packet too small.
\<close>

theorem written_data_unreadable:
  assumes "tr_Write now p t = (t', n, Return ())" "p \<noteq> []" "dt_conn t = Some c" "dt_conn t' = Some c'"
    and "\<not> dt_closed u" "dt_rxLen u = 0" "dt_conn u = Some d"
    and "c_in d = drop (length (c_out c)) (c_out c') @ rest"
  shows "n = length p \<and> snd (tr_Read k u) = Fail ErrPacketTooSmall"
proof -
  obtain m src dst where loop: "write_loop now m src dst p 0 t = (t', n, Return ())"
    using assms(1) by (auto simp: tr_Write_def split: if_splits option.splits)
  obtain chunks pkts where w: "n = length p" "concat chunks = p" "data_packets src dst chunks pkts"
      "c_out c' = c_out c @ concat pkts"
    using write_loop_Return [OF loop assms(3)] assms(4) by auto
  obtain x chunks' where "chunks = x # chunks'"
    using w(2) assms(2) by (cases chunks) auto
  then obtain y pkts' sq where y: "pkts = y # pkts'" "BuildDataPacket src dst sq x = Return y"
    using w(3) by (cases pkts) (auto simp: data_packets_def)
  have "ReadFullDCCPPacket (c_in d) = Fail ErrPacketTooSmall"
    using data_packets_unreadable [OF y(2)] by (simp add: assms(8) w(4) y(1))
  then have "conn_read d = (fst (conn_read d), Fail ErrPacketTooSmall)"
    by (simp add: conn_read_def)
  then have "snd (readNextPacket u) = Fail ErrPacketTooSmall"
    by (subst readNextPacket.simps) (simp add: assms(7) Let_def split: prod.split, auto)
  then show ?thesis
    using w(1) assms(5,6) by (auto simp: tr_Read_def split: prod.splits)
qed

theorem written_data_unreadable_witness:
  "\<exists>t t' c' u. tr_NewDCCPTransport 0 (Some DefaultDCCPSettings) = Return u \<and>
     tr_Write 0 [1, 2, 3, 4] t = (t', 4, Return ()) \<and> dt_conn t' = Some c' \<and>
     snd (tr_Read 100 (u\<lparr>dt_conn := Some \<lparr>c_in = c_out c', c_out = [], c_werr = []\<rparr>\<rparr>)) = Fail ErrPacketTooSmall"
proof -
  let ?c = "\<lparr>c_in = [], c_out = [], c_werr = []\<rparr>"
  obtain u where u: "tr_NewDCCPTransport 0 (Some DefaultDCCPSettings) = Return u"
      "dt_settings u = Some DefaultDCCPSettings" "\<not> dt_closed u" "dt_rxLen u = 0"
    by (simp add: tr_NewDCCPTransport_def tr_initDCCP_def blank_transport_def)
  let ?t = "u\<lparr>dt_conn := Some ?c\<rparr>" and ?p = "[1, 2, 3, 4] :: bytes"
  obtain t' where t': "tr_Write 0 ?p ?t = (t', 4, Return ())"
    using write_loop_outcome [of 1476 ?t ?c 0 "port_or_one (cs_LocalPort (dt_state u))"
        "port_or_one (cs_RemotePort (dt_state u))" ?p 0] u(2,3)
    by (auto simp: tr_Write_def DefaultDCCPSettings_def sendable_small)
  then obtain c' where c': "dt_conn t' = Some c'"
    using write_loop_Return [of 0 1476 "port_or_one (cs_LocalPort (dt_state u))"
        "port_or_one (cs_RemotePort (dt_state u))" ?p 0 ?t t' 4 ?c] u(2,3)
    by (auto simp: tr_Write_def DefaultDCCPSettings_def)
  let ?u = "u\<lparr>dt_conn := Some \<lparr>c_in = c_out c', c_out = [], c_werr = []\<rparr>\<rparr>"
  have "4 = length ?p \<and> snd (tr_Read 100 ?u) = Fail ErrPacketTooSmall"
    by (rule written_data_unreadable [OF t' _ _ c', where c = ?c and rest = "[]"
          and d = "\<lparr>c_in = c_out c', c_out = [], c_werr = []\<rparr>"]) (simp_all add: u(3,4))
  with u(1) t' c' show ?thesis
    by blast
qed

lemma small_packet:
  assumes "length pkt = 12" "drop_bit 4 (pkt ! 4) AND 0x0F = 3" "drop_bit 7 (pkt ! 5) AND 0x01 = 0"
  shows "\<exists>hdr. ReadFullDCCPPacket (pkt @ rest) = Return ((hdr, [], []), rest) \<and>
    h_type hdr = pkt ! 5 AND 0x0F \<and> h_seq hdr = 0"
proof -
  have "\<exists>hdr. DecodeDCCPPacket pkt = Return (hdr, [], []) \<and> h_type hdr = pkt ! 5 AND 0x0F \<and> h_seq hdr = 0"
    using assms by (simp add: DecodeDCCPPacket_def Let_def go_slice_def parseOptions_def
        parse_options_from.simps)
  then show ?thesis
    using assms by (auto simp: ReadFullDCCPPacket_def Let_def)
qed

lemma sendClose_panics [simp]: "sendClose t = (t, Panic)"
  by (simp add: sendClose_def BuildClosePacket_panics)

text \<open>
  C22: a peer can crash the program with twelve bytes: a header without extended sequence
  number and options that says Close or CloseReq makes \<open>Read\<close> panic, and one that says DataAck
  lets \<open>Read\<close> return nothing and starts a goroutine that panics, because closes and
  acknowledgements cannot be built.
\<close>

theorem tr_peer_can_crash:
  assumes "length pkt = 12" "drop_bit 4 (pkt ! 4) AND 0x0F = 3" "drop_bit 7 (pkt ! 5) AND 0x01 = 0"
    and "\<not> dt_closed t" "dt_rxLen t = 0" "dt_conn t = Some c" "c_in c = pkt @ rest"
  shows "(pkt ! 5 AND 0x0F \<in> {PktDCCPClose, PktDCCPCloseReq} \<longrightarrow> snd (tr_Read k t) = Panic) \<and>
    (pkt ! 5 AND 0x0F = PktDCCPDataAck \<longrightarrow>
      (\<exists>t'. tr_Read k t = (t', Return []) \<and> 0 \<in> set (dt_acks t') \<and> snd (tr_sendAck 0 t') = Panic))"
proof -
  obtain hdr where hdr: "ReadFullDCCPPacket (pkt @ rest) = Return ((hdr, [], []), rest)"
      "h_type hdr = pkt ! 5 AND 0x0F" "h_seq hdr = 0"
    using small_packet [OF assms(1-3)] by blast
  have read: "conn_read c = (c\<lparr>c_in := rest\<rparr>, Return (hdr, [], []))"
    by (rule conn_read_packet [OF hdr(1) assms(7)])
  have "snd (tr_Read k t) = Panic" if "h_type hdr = PktDCCPClose \<or> h_type hdr = PktDCCPCloseReq"
    using that assms(4-6) by (auto simp: tr_Read_def readNextPacket.simps [of t] read Let_def)
  moreover have "\<exists>t'. tr_Read k t = (t', Return []) \<and> 0 \<in> set (dt_acks t') \<and> snd (tr_sendAck 0 t') = Panic"
    if "h_type hdr = PktDCCPDataAck"
    using that assms(4-6)
    by (simp add: tr_Read_def readNextPacket.simps [of t] read Let_def deliver_def take_received_def copied_def
        go_slice_def hdr(3) tr_sendAck_def BuildAckPacket_panics)
  ultimately show ?thesis
    by (simp add: hdr(2))
qed

theorem tr_peer_can_crash_witness:
  "\<exists>t. tr_NewDCCPTransport 0 (Some DefaultDCCPSettings) = Return t \<and>
     snd (tr_Read 10 (t\<lparr>dt_conn := Some \<lparr>c_in = [0, 0, 0, 0, 0x30, 6, 0, 0, 0, 0, 0, 0],
       c_out = [], c_werr = []\<rparr>\<rparr>)) = Panic"
proof -
  obtain t where t: "tr_NewDCCPTransport 0 (Some DefaultDCCPSettings) = Return t" "\<not> dt_closed t" "dt_rxLen t = 0"
    by (simp add: tr_NewDCCPTransport_def tr_initDCCP_def blank_transport_def)
  let ?p = "[0, 0, 0, 0, 0x30, 6, 0, 0, 0, 0, 0, 0] :: bytes"
  let ?t = "t\<lparr>dt_conn := Some \<lparr>c_in = ?p, c_out = [], c_werr = []\<rparr>\<rparr>"
  have "(?p ! 5 AND 0x0F \<in> {PktDCCPClose, PktDCCPCloseReq} \<longrightarrow> snd (tr_Read 10 ?t) = Panic) \<and>
    (?p ! 5 AND 0x0F = PktDCCPDataAck \<longrightarrow>
      (\<exists>t'. tr_Read 10 ?t = (t', Return []) \<and> 0 \<in> set (dt_acks t') \<and> snd (tr_sendAck 0 t') = Panic))"
    by (rule tr_peer_can_crash [where c = "\<lparr>c_in = ?p, c_out = [], c_werr = []\<rparr>" and rest = "[]"])
      (simp_all add: t(2,3))
  then show ?thesis
    using t(1) by simp
qed

lemma dc_Close_panics: "\<not> dt_closed t \<Longrightarrow> snd (dc_Close t) = Panic"
  by (simp add: dc_Close_def dc_sendClose_def dc_send_def BuildClosePacket_panics)

end
