(* ===== verification/Disguise.thy ===== *)
theory Disguise
  imports Dccp_Handshake
begin

text \<open>
  \<open>app/transport/dccp/disguise/\<close> \<open>disguise.go\<close>, \<open>extra.go\<close>, \<open>ws_h2_grpc_df.go\<close>, \<open>tls.go\<close>: what the
  disguises of a DCCP connection send and expect when they dial, and what they listen with.
  Dialling, TLS and the parser of HTTP responses are the library's: \<open>dialed\<close>, \<open>tls_client\<close> and
  \<open>read_response\<close>, which gives the status and the number of bytes the buffered reader has taken
  from the connection. Addresses are texts; contexts and timeouts show as failing dials.
\<close>

section \<open>Methods and configuration\<close>

type_synonym method_name = string

definition disguise_methods :: "method_name list" where
  "disguise_methods =
     [''none'', ''tls'', ''websocket'', ''http2'', ''grpc'', ''domain_fronting'', ''dtls'', ''wireguard'',
      ''https'', ''dns'', ''http_upgrade'', ''traffic_shape'']"

record disguise_config =
  dg_TargetHost :: string
  dg_ServerName :: string
  dg_UserAgent :: string
  dg_Path :: string
  dg_ServiceName :: string
  dg_ALPN :: "string list"

record disguise_tls =
  dx_ServerName :: string
  dx_InsecureSkipVerify :: bool
  dx_NextProtos :: "string list"

record disguise =
  dg_method :: method_name
  dg_config :: disguise_config
  dg_tls :: "disguise_tls option"

definition NewTLSDisguise :: "disguise_config \<Rightarrow> disguise" where
  "NewTLSDisguise config =
     \<lparr>dg_method = ''tls'', dg_config = config,
      dg_tls = Some \<lparr>dx_ServerName = dg_ServerName config, dx_InsecureSkipVerify = True,
                     dx_NextProtos = (if length (dg_ALPN config) > 0 then dg_ALPN config else [''h2'', ''http/1.1''])\<rparr>\<rparr>"

text \<open>Every other constructor sets its own method and keeps the configuration.\<close>

definition plain_disguise :: "method_name \<Rightarrow> disguise_config \<Rightarrow> disguise" where
  "plain_disguise m config = \<lparr>dg_method = m, dg_config = config, dg_tls = None\<rparr>"

definition NewWebSocketDisguise :: "disguise_config \<Rightarrow> disguise" where
  [simp]: "NewWebSocketDisguise config = plain_disguise ''websocket'' config"

definition NewHTTP2Disguise :: "disguise_config \<Rightarrow> disguise" where
  [simp]: "NewHTTP2Disguise config = plain_disguise ''http2'' config"

definition NewGRPCDisguise :: "disguise_config \<Rightarrow> disguise" where
  [simp]: "NewGRPCDisguise config = plain_disguise ''grpc'' config"

definition NewDomainFrontingDisguise :: "disguise_config \<Rightarrow> disguise" where
  [simp]: "NewDomainFrontingDisguise config = plain_disguise ''domain_fronting'' config"

definition NewDTLSDisguise :: "disguise_config \<Rightarrow> disguise" where
  [simp]: "NewDTLSDisguise config = plain_disguise ''dtls'' config"

definition NewWireGuardDisguise :: "disguise_config \<Rightarrow> disguise" where
  [simp]: "NewWireGuardDisguise config = plain_disguise ''wireguard'' config"

definition NewHTTPSDisguise :: "disguise_config \<Rightarrow> disguise" where
  [simp]: "NewHTTPSDisguise config = plain_disguise ''https'' config"

definition NewDNSDisguise :: "disguise_config \<Rightarrow> disguise" where
  [simp]: "NewDNSDisguise config = plain_disguise ''dns'' config"

definition NewHTTPUpgradeDisguise :: "disguise_config \<Rightarrow> disguise" where
  [simp]: "NewHTTPUpgradeDisguise config = plain_disguise ''http_upgrade'' config"

definition NewTrafficShapeDisguise :: "disguise_config \<Rightarrow> disguise" where
  [simp]: "NewTrafficShapeDisguise config = plain_disguise ''traffic_shape'' config"

definition NewNoneDisguise :: "disguise_config \<Rightarrow> disguise" where
  [simp]: "NewNoneDisguise config = plain_disguise ''none'' config"

definition NewDisguise :: "method_name \<Rightarrow> disguise_config \<Rightarrow> disguise" where
  "NewDisguise m config =
     (if m = ''tls'' then NewTLSDisguise config
      else if m = ''websocket'' then NewWebSocketDisguise config
      else if m = ''http2'' then NewHTTP2Disguise config
      else if m = ''grpc'' then NewGRPCDisguise config
      else if m = ''domain_fronting'' then NewDomainFrontingDisguise config
      else if m = ''dtls'' then NewDTLSDisguise config
      else if m = ''wireguard'' then NewWireGuardDisguise config
      else if m = ''https'' then NewHTTPSDisguise config
      else if m = ''dns'' then NewDNSDisguise config
      else if m = ''http_upgrade'' then NewHTTPUpgradeDisguise config
      else if m = ''traffic_shape'' then NewTrafficShapeDisguise config
      else NewNoneDisguise config)"

section \<open>Requests\<close>

definition crlf :: string where "crlf = [CHR 0x0D, CHR 0x0A]"

definition or_default :: "string \<Rightarrow> string \<Rightarrow> string" where
  "or_default s d = (if s = [] then d else s)"

definition http_upgrade_request :: "disguise_config \<Rightarrow> string \<Rightarrow> string" where
  "http_upgrade_request cfg addr =
     ''GET '' @ or_default (dg_Path cfg) ''/'' @ '' HTTP/1.1'' @ crlf @
     ''Host: '' @ or_default (dg_TargetHost cfg) addr @ crlf @
     ''Upgrade: oiwest-dccp'' @ crlf @ ''Connection: Upgrade'' @ crlf @ crlf"

definition websocket_request :: "disguise_config \<Rightarrow> string \<Rightarrow> string" where
  "websocket_request cfg addr =
     ''GET '' @ or_default (dg_Path cfg) ''/ws'' @ '' HTTP/1.1'' @ crlf @
     ''Host: '' @ or_default (dg_TargetHost cfg) addr @ crlf @
     ''Upgrade: websocket'' @ crlf @ ''Connection: Upgrade'' @ crlf @
     ''Sec-WebSocket-Key: dGhlIHNhbXBsZSBub25jZQ=='' @ crlf @ ''Sec-WebSocket-Version: 13'' @ crlf @ crlf"

definition http2_preface :: string where
  "http2_preface = ''PRI * HTTP/2.0'' @ crlf @ crlf @ ''SM'' @ crlf @ crlf"

definition grpc_request :: "disguise_config \<Rightarrow> string \<Rightarrow> string" where
  "grpc_request cfg addr =
     ''POST /'' @ or_default (dg_ServiceName cfg) ''grpc.service'' @ ''/Tun HTTP/1.1'' @ crlf @
     ''Host: '' @ or_default (dg_TargetHost cfg) addr @ crlf @
     ''Content-Type: application/grpc'' @ crlf @ ''Transfer-Encoding: chunked'' @ crlf @
     ''TE: trailers'' @ crlf @ crlf"

definition connect_request :: "disguise_config \<Rightarrow> string" where
  "connect_request cfg =
     (let host = or_default (dg_ServerName cfg) (dg_TargetHost cfg)
      in ''CONNECT '' @ host @ '':443 HTTP/1.1'' @ crlf @ ''Host: '' @ host @ crlf @
         (if dg_UserAgent cfg = [] then [] else ''User-Agent: '' @ dg_UserAgent cfg @ crlf) @ crlf)"

definition text_bytes :: "string \<Rightarrow> bytes" where
  "text_bytes s = map of_char s"

section \<open>Dialling\<close>

text \<open>What a method writes first, and the statuses it accepts for the response it waits for.\<close>

definition disguise_request :: "disguise \<Rightarrow> string \<Rightarrow> string" where
  "disguise_request d addr =
     (let m = dg_method d; cfg = dg_config d
      in if m = ''http_upgrade'' then http_upgrade_request cfg addr
         else if m = ''websocket'' then websocket_request cfg addr
         else if m = ''http2'' then http2_preface
         else if m = ''grpc'' then grpc_request cfg addr
         else if m = ''domain_fronting'' then connect_request cfg
         else [])"

definition awaited :: "method_name \<Rightarrow> (int \<Rightarrow> bool) option" where
  "awaited m =
     (if m = ''websocket'' then Some (\<lambda>status. status = 101)
      else if m = ''grpc'' then Some (\<lambda>_. True)
      else if m = ''domain_fronting'' then Some (\<lambda>status. status = 200) else None)"

text \<open>
  The response is read through a buffer; what the buffer holds beyond it is lost with the
  buffer, so the connection returned continues after all bytes the buffer has taken.
\<close>

definition await_response ::
  "(stream \<Rightarrow> (int \<times> nat) go) \<Rightarrow> method_name \<Rightarrow> conn \<Rightarrow> conn \<times> unit go" where
  "await_response read_response m c =
     (case awaited m of
        None \<Rightarrow> (c, Return ())
      | Some accepted \<Rightarrow>
          (case read_response (c_in c) of
             Return (status, taken) \<Rightarrow>
               (c\<lparr>c_in := drop taken (c_in c)\<rparr>,
                if accepted status then Return () else Fail (Error ''upgrade failed''))
           | Fail e \<Rightarrow> (c, Fail e)
           | Panic \<Rightarrow> (c, Panic)))"

text \<open>A method that sends nothing does not write.\<close>

definition send_request :: "bytes \<Rightarrow> conn \<Rightarrow> conn \<times> error option" where
  "send_request req c = (if req = [] then (c, None) else conn_write req c)"

text \<open>The connection as it is left, and whether it is handed out; a failed dial has none.\<close>

definition disguise_Dial ::
  "(disguise_tls \<Rightarrow> conn \<Rightarrow> conn go) \<Rightarrow> (stream \<Rightarrow> (int \<times> nat) go) \<Rightarrow> conn go \<Rightarrow> disguise \<Rightarrow> string \<Rightarrow>
     conn option \<times> unit go" where
  "disguise_Dial tls_client read_response dialed d addr =
     (case dialed of
        Fail e \<Rightarrow> (None, Fail e)
      | Panic \<Rightarrow> (None, Panic)
      | Return c \<Rightarrow>
          (case dg_tls d of
             Some cfg \<Rightarrow>
               (case tls_client cfg c of
                  Return c1 \<Rightarrow> (Some c1, Return ())
                | Fail e \<Rightarrow> (Some c, Fail e)
                | Panic \<Rightarrow> (Some c, Panic))
           | None \<Rightarrow>
               (case send_request (text_bytes (disguise_request d addr)) c of
                  (c1, Some e) \<Rightarrow> (Some c1, Fail e)
                | (c1, None) \<Rightarrow> (case await_response read_response (dg_method d) c1 of (c2, r) \<Rightarrow> (Some c2, r)))))"

section \<open>The methods one by one\<close>

text \<open>What the \<open>Dial\<close> of each type does, as it is written there.\<close>

definition refused :: "'a go \<Rightarrow> conn option \<times> unit go" where
  "refused r = (None, go_map (\<lambda>_. ()) r)"

definition None_Dial :: "conn go \<Rightarrow> conn option \<times> unit go" where
  "None_Dial dialed = (case dialed of Return c \<Rightarrow> (Some c, Return ()) | r \<Rightarrow> refused r)"

definition TLS_Dial :: "(disguise_tls \<Rightarrow> conn \<Rightarrow> conn go) \<Rightarrow> disguise_tls \<Rightarrow> conn go \<Rightarrow> conn option \<times> unit go" where
  "TLS_Dial tls_client cfg dialed =
     (case dialed of
        Return c \<Rightarrow>
          (case tls_client cfg c of
             Return c1 \<Rightarrow> (Some c1, Return ())
           | Fail e \<Rightarrow> (Some c, Fail e)
           | Panic \<Rightarrow> (Some c, Panic))
      | r \<Rightarrow> refused r)"

definition HTTPUpgrade_Dial :: "conn go \<Rightarrow> disguise_config \<Rightarrow> string \<Rightarrow> conn option \<times> unit go" where
  "HTTPUpgrade_Dial dialed cfg addr =
     (case dialed of
        Return c \<Rightarrow>
          (case conn_write (text_bytes (http_upgrade_request cfg addr)) c of
             (c1, Some e) \<Rightarrow> (Some c1, Fail e)
           | (c1, None) \<Rightarrow> (Some c1, Return ()))
      | r \<Rightarrow> refused r)"

definition HTTP2_Dial :: "conn go \<Rightarrow> conn option \<times> unit go" where
  "HTTP2_Dial dialed =
     (case dialed of
        Return c \<Rightarrow>
          (case conn_write (text_bytes http2_preface) c of
             (c1, Some e) \<Rightarrow> (Some c1, Fail e)
           | (c1, None) \<Rightarrow> (Some c1, Return ()))
      | r \<Rightarrow> refused r)"

definition WebSocket_Dial ::
  "(stream \<Rightarrow> (int \<times> nat) go) \<Rightarrow> conn go \<Rightarrow> disguise_config \<Rightarrow> string \<Rightarrow> conn option \<times> unit go" where
  "WebSocket_Dial read_response dialed cfg addr =
     (case dialed of
        Return c \<Rightarrow>
          (case conn_write (text_bytes (websocket_request cfg addr)) c of
             (c1, Some e) \<Rightarrow> (Some c1, Fail e)
           | (c1, None) \<Rightarrow>
               (case read_response (c_in c1) of
                  Return (status, taken) \<Rightarrow>
                    (Some (c1\<lparr>c_in := drop taken (c_in c1)\<rparr>), if status = 101 then Return () else Fail (Error ''upgrade failed''))
                | Fail e \<Rightarrow> (Some c1, Fail e)
                | Panic \<Rightarrow> (Some c1, Panic)))
      | r \<Rightarrow> refused r)"

definition GRPC_Dial ::
  "(stream \<Rightarrow> (int \<times> nat) go) \<Rightarrow> conn go \<Rightarrow> disguise_config \<Rightarrow> string \<Rightarrow> conn option \<times> unit go" where
  "GRPC_Dial read_response dialed cfg addr =
     (case dialed of
        Return c \<Rightarrow>
          (case conn_write (text_bytes (grpc_request cfg addr)) c of
             (c1, Some e) \<Rightarrow> (Some c1, Fail e)
           | (c1, None) \<Rightarrow>
               (case read_response (c_in c1) of
                  Return (status, taken) \<Rightarrow>
                    (Some (c1\<lparr>c_in := drop taken (c_in c1)\<rparr>), Return ())
                | Fail e \<Rightarrow> (Some c1, Fail e)
                | Panic \<Rightarrow> (Some c1, Panic)))
      | r \<Rightarrow> refused r)"

definition DomainFronting_Dial ::
  "(stream \<Rightarrow> (int \<times> nat) go) \<Rightarrow> conn go \<Rightarrow> disguise_config \<Rightarrow> conn option \<times> unit go" where
  "DomainFronting_Dial read_response dialed cfg =
     (case dialed of
        Return c \<Rightarrow>
          (case conn_write (text_bytes (connect_request cfg)) c of
             (c1, Some e) \<Rightarrow> (Some c1, Fail e)
           | (c1, None) \<Rightarrow>
               (case read_response (c_in c1) of
                  Return (status, taken) \<Rightarrow>
                    (Some (c1\<lparr>c_in := drop taken (c_in c1)\<rparr>), if status = 200 then Return () else Fail (Error ''upgrade failed''))
                | Fail e \<Rightarrow> (Some c1, Fail e)
                | Panic \<Rightarrow> (Some c1, Panic)))
      | r \<Rightarrow> refused r)"

lemma requests_sent:
  "text_bytes (http_upgrade_request cfg addr) \<noteq> []" "text_bytes (websocket_request cfg addr) \<noteq> []"
  "text_bytes http2_preface \<noteq> []" "text_bytes (grpc_request cfg addr) \<noteq> []" "text_bytes (connect_request cfg) \<noteq> []"
  by (simp_all add: text_bytes_def http_upgrade_request_def websocket_request_def http2_preface_def grpc_request_def
      connect_request_def Let_def)

lemma Dial_by_method:
  "disguise_Dial tls rr dialed (plain_disguise ''http_upgrade'' cfg) addr = HTTPUpgrade_Dial dialed cfg addr"
  "disguise_Dial tls rr dialed (plain_disguise ''websocket'' cfg) addr = WebSocket_Dial rr dialed cfg addr"
  "disguise_Dial tls rr dialed (plain_disguise ''http2'' cfg) addr = HTTP2_Dial dialed"
  "disguise_Dial tls rr dialed (plain_disguise ''grpc'' cfg) addr = GRPC_Dial rr dialed cfg addr"
  "disguise_Dial tls rr dialed (plain_disguise ''domain_fronting'' cfg) addr = DomainFronting_Dial rr dialed cfg"
  "dg_tls d = Some tc \<Longrightarrow> disguise_Dial tls rr dialed d addr = TLS_Dial tls tc dialed"
  "m \<in> {''none'', ''dtls'', ''wireguard'', ''https'', ''dns'', ''traffic_shape''} \<Longrightarrow>
     disguise_Dial tls rr dialed (plain_disguise m cfg) addr = None_Dial dialed"
  using requests_sent
  by (auto simp: disguise_Dial_def plain_disguise_def disguise_request_def awaited_def await_response_def send_request_def
      HTTPUpgrade_Dial_def WebSocket_Dial_def HTTP2_Dial_def GRPC_Dial_def DomainFronting_Dial_def TLS_Dial_def None_Dial_def
      refused_def text_bytes_def Let_def split: go.split prod.split option.split)

section \<open>Listening\<close>

text \<open>Listeners accept TCP connections and hand them out as they are; only TLS answers anything.\<close>

datatype listener_kind = PlainListener | TLSListener

definition disguise_Listen :: "disguise \<Rightarrow> listener_kind" where
  "disguise_Listen d = (if dg_tls d = None then PlainListener else TLSListener)"

definition disguise_WrapConn :: "(disguise_tls \<Rightarrow> conn \<Rightarrow> conn) \<Rightarrow> disguise \<Rightarrow> conn \<Rightarrow> conn" where
  "disguise_WrapConn wrap d c = (case dg_tls d of None \<Rightarrow> c | Some cfg \<Rightarrow> wrap cfg c)"

section \<open>What a listener of the same method receives\<close>

lemma Dial_sends:
  assumes "disguise_Dial tls_client rr (Return c) d addr = (Some c', r)" "dg_tls d = None" "c_werr c = []"
  shows "c_out c' = c_out c @ text_bytes (disguise_request d addr)"
  using assms
  by (auto simp: disguise_Dial_def send_request_def conn_write_def await_response_def
      split: if_splits option.splits go.splits)

lemma read_bad_offset:
  assumes "12 \<le> length s" "unat (drop_bit 4 (s ! 4) AND 15) < 3" "drop_bit 7 (s ! 5) AND 1 = 0"
  shows "ReadFullDCCPPacket s = Panic"
proof -
  have "unat ((drop_bit 4 (s ! 4) AND 15) * 4) \<le> 12"
  proof -
    have "unat ((drop_bit 4 (s ! 4) AND 15) * 4) = unat (drop_bit 4 (s ! 4) AND 15) * 4 mod 256"
      by (simp add: unat_word_ariths)
    also have "\<dots> \<le> 12"
      using assms(2) by simp
    finally show ?thesis .
  qed
  moreover have "DecodeDCCPPacket (take 12 s) = Panic"
    using assms by (subst DecodeDCCPPacket_panics_iff) (simp add: HeaderSize_def)
  ultimately show ?thesis
    using assms(1) by (simp add: ReadFullDCCPPacket_def read_full_def HeaderSize_def Let_def)
qed

text \<open>Paths a request line can have: the default, or a slash and text.\<close>

definition path_ok :: "string \<Rightarrow> bool" where
  "path_ok p \<longleftrightarrow> (p = [] \<or> hd p = CHR ''/'') \<and> list_all (\<lambda>c. (of_char c :: nat) < 128) p"

lemma ascii_bit:
  assumes "(of_char c :: nat) < 128"
  shows "drop_bit 7 (of_char c :: byte) AND 1 = 0"
proof -
  have "(of_char c :: byte) = word_of_nat (of_char c)"
    by (rule of_nat_of_char [symmetric])
  then have "unat (of_char c :: byte) = of_char c"
    using assms by (simp only: unat_of_nat) simp
  then have "unat (drop_bit 7 (of_char c :: byte)) = 0"
    using assms by (simp add: drop_bit_eq_div unat_div)
  then have "drop_bit 7 (of_char c :: byte) = 0"
    by (simp add: unat_eq_zero)
  then show ?thesis
    by simp
qed

text \<open>A text that starts like these requests is not a packet: its data offset is two words.\<close>

lemma request_panics:
  assumes "\<exists>a b c d e f rest. req = [a, b, c, d, e, f] @ rest \<and> e \<in> {CHR ''/'', CHR ''*'', CHR '' ''} \<and>
      (of_char f :: nat) < 128 \<and> 6 \<le> length rest"
  shows "ReadFullDCCPPacket (text_bytes req @ later) = Panic"
proof -
  obtain a b c d e f rest where req: "req = [a, b, c, d, e, f] @ rest" "6 \<le> length rest"
      and e: "e \<in> {CHR ''/'', CHR ''*'', CHR '' ''}" and f: "(of_char f :: nat) < 128"
    using assms by blast
  have "unat (drop_bit 4 (of_char e :: byte) AND 15) = 2"
    using e by auto
  moreover have "(text_bytes req @ later) ! 4 = of_char e" "(text_bytes req @ later) ! 5 = of_char f"
    by (simp_all add: req text_bytes_def)
  moreover have "12 \<le> length (text_bytes req @ later)"
    using req(2) by (simp add: req(1) text_bytes_def)
  ultimately show ?thesis
    using ascii_bit [OF f] by (intro read_bad_offset) simp_all
qed

lemma disguise_request_shape:
  assumes "m \<in> {''http_upgrade'', ''websocket'', ''http2'', ''grpc''}" "path_ok (dg_Path cfg)"
  shows "\<exists>a b c d e f rest. disguise_request (plain_disguise m cfg) addr = [a, b, c, d, e, f] @ rest \<and>
    e \<in> {CHR ''/'', CHR ''*'', CHR '' ''} \<and> (of_char f :: nat) < 128 \<and> 6 \<le> length rest"
proof -
  have get: "\<exists>a b c d e f rest. ''GET '' @ or_default (dg_Path cfg) p @ '' HTTP/1.1'' @ tail = [a, b, c, d, e, f] @ rest \<and>
      e \<in> {CHR ''/'', CHR ''*'', CHR '' ''} \<and> (of_char f :: nat) < 128 \<and> 6 \<le> length rest"
    if "p \<in> {''/'', ''/ws''}" for p tail
  proof -
    have "\<exists>q. or_default (dg_Path cfg) p = CHR ''/'' # q \<and> list_all (\<lambda>c. (of_char c :: nat) < 128) q"
      using assms(2) that by (cases "dg_Path cfg") (auto simp: path_ok_def or_default_def)
    then obtain q where q: "or_default (dg_Path cfg) p = CHR ''/'' # q" "list_all (\<lambda>c. (of_char c :: nat) < 128) q"
      by blast
    then show ?thesis
      by (cases q) auto
  qed
  consider "m = ''http_upgrade''" | "m = ''websocket''" | "m = ''http2''" | "m = ''grpc''"
    using assms(1) by blast
  then show ?thesis
  proof cases
    case 1
    then obtain tail where "disguise_request (plain_disguise m cfg) addr =
        ''GET '' @ or_default (dg_Path cfg) ''/'' @ '' HTTP/1.1'' @ tail"
      by (simp add: disguise_request_def plain_disguise_def http_upgrade_request_def)
    with get [of "''/''" tail] show ?thesis
      by simp
  next
    case 2
    then obtain tail where "disguise_request (plain_disguise m cfg) addr =
        ''GET '' @ or_default (dg_Path cfg) ''/ws'' @ '' HTTP/1.1'' @ tail"
      by (simp add: disguise_request_def plain_disguise_def websocket_request_def)
    with get [of "''/ws''" tail] show ?thesis
      by simp
  next
    case 3
    then show ?thesis
      by (simp add: disguise_request_def plain_disguise_def http2_preface_def crlf_def)
  next
    case 4
    then show ?thesis
      by (simp add: disguise_request_def plain_disguise_def grpc_request_def)
  qed
qed

text \<open>
  The request of domain fronting starts with \<open>CONNECT\<close>, whose fifth byte stands for a data offset of
  four words and whose sixth for a packet that is not a request.
\<close>

lemma decoded_type:
  "DecodeDCCPPacket data = Return (hdr, opts, payload) \<Longrightarrow> h_type hdr = data ! 5 AND 15"
  by (auto simp: DecodeDCCPPacket_def Let_def go_bind_Return_iff split: if_splits)

lemma read_offset_four:
  assumes "16 \<le> length s" "s ! 4 = 0x45"
  shows "ReadFullDCCPPacket s = go_map (\<lambda>r. (r, drop 16 s)) (DecodeDCCPPacket (take 16 s))"
proof -
  have "read_full HeaderSize s = Return (take 12 s, drop 12 s)" "read_full 4 (drop 12 s) = Return (take 4 (drop 12 s), drop 16 s)"
    using assms(1) by (simp_all add: read_full_def HeaderSize_def)
  moreover have "take 12 s @ take 4 (drop 12 s) = take 16 s"
    using take_add [of 12 4 s] by simp
  ultimately show ?thesis
    using assms(2) by (simp add: ReadFullDCCPPacket_def HeaderSize_def Let_def)
qed

lemma connect_fails:
  fixes req :: string
  assumes "req = ''CONNECT '' @ rest" "8 \<le> length rest"
  shows "(\<exists>e. ReadFullDCCPPacket (text_bytes req @ later) = Fail e) \<or>
    (\<exists>hdr opts payload s. ReadFullDCCPPacket (text_bytes req @ later) = Return ((hdr, opts, payload), s) \<and>
       h_type hdr \<noteq> PktDCCPRequest)"
proof -
  let ?s = "text_bytes req @ later"
  have s: "?s ! 4 = 0x45" "?s ! 5 = 0x43" "16 \<le> length ?s"
    using assms by (simp_all add: text_bytes_def)
  note read = read_offset_four [OF s(3,1)]
  have "DecodeDCCPPacket (take 16 ?s) \<noteq> Panic"
    using s nth_take [of 4 16 ?s] by (simp add: DecodeDCCPPacket_panics_iff HeaderSize_def del: take_append)
  moreover have "h_type hdr = 3" if "DecodeDCCPPacket (take 16 ?s) = Return (hdr, opts, payload)" for hdr opts payload
    using decoded_type [OF that] s(2) nth_take [of 5 16 ?s] by (simp del: take_append)
  ultimately show ?thesis
    unfolding read by (cases "DecodeDCCPPacket (take 16 ?s)") auto
qed

text \<open>
  C23: no server can take the disguised connections of its own clients. The listeners of all
  disguises but TLS hand out the connection with the request of the client (which was written
  whole) still unread, and a server
  handshake on it takes the request for a packet: for the HTTP upgrade, WebSocket, HTTP/2 and gRPC
  disguises, with the default path or another one of ASCII that starts with a slash, its data
  starts inside its header and the handshake panics; for domain fronting the handshake fails.
\<close>

theorem disguised_dial_crashes_server:
  assumes "disguise_Dial tls_client rr (Return c) (NewDisguise m cfg) addr = (Some c', r)" "c_werr c = []" "c_out c = []"
    and "m \<in> {''http_upgrade'', ''websocket'', ''http2'', ''grpc'', ''domain_fronting''}" "path_ok (dg_Path cfg)"
    and "c_in s = c_out c' @ later"
  shows "disguise_Listen (NewDisguise m cfg) = PlainListener \<and>
    (if m = ''domain_fronting'' then \<exists>e. snd (snd (ServerHandshake random st s)) = Fail e
     else snd (snd (ServerHandshake random st s)) = Panic)"
proof -
  have d: "NewDisguise m cfg = plain_disguise m cfg" "dg_tls (plain_disguise m cfg) = None"
    using assms(4) by (auto simp: NewDisguise_def disguise_methods_def plain_disguise_def)
  have out: "c_in s = text_bytes (disguise_request (plain_disguise m cfg) addr) @ later"
    using Dial_sends [OF assms(1) _ assms(2)] assms(3,6) by (simp add: d)
  show ?thesis
  proof (cases "m = ''domain_fronting''")
    case True
    obtain rest where "disguise_request (plain_disguise m cfg) addr = ''CONNECT '' @ rest" "8 \<le> length rest"
      by (simp add: True disguise_request_def plain_disguise_def connect_request_def Let_def)
    from connect_fails [OF this, of later] show ?thesis
      by (auto simp: True disguise_Listen_def d [unfolded True] ServerHandshake_def conn_read_def out [unfolded True] Let_def)
  next
    case False
    then have "ReadFullDCCPPacket (c_in s) = Panic"
      using request_panics [OF disguise_request_shape [OF _ assms(5)]] assms(4) by (auto simp: out)
    with False show ?thesis
      by (simp add: disguise_Listen_def d ServerHandshake_def conn_read_def Let_def)
  qed
qed

theorem disguised_dial_crashes_server_witness:
  "snd (snd (ServerHandshake (replicate 8 9) (NewConnState 0 True)
     \<lparr>c_in = text_bytes (http2_preface) @ [1, 2, 3], c_out = [], c_werr = []\<rparr>)) = Panic"
proof -
  let ?cfg = "\<lparr>dg_TargetHost = [], dg_ServerName = [], dg_UserAgent = [], dg_Path = [], dg_ServiceName = [], dg_ALPN = []\<rparr>"
  let ?c = "\<lparr>c_in = [], c_out = [], c_werr = []\<rparr>"
  have dial: "disguise_Dial (\<lambda>_ c. Return c) (\<lambda>_. Fail EOF) (Return ?c) (NewDisguise ''http2'' ?cfg) ''a:1'' =
      (Some (?c\<lparr>c_out := text_bytes http2_preface\<rparr>), Return ())"
    by (simp add: disguise_Dial_def NewDisguise_def disguise_methods_def plain_disguise_def send_request_def
        disguise_request_def conn_write_def await_response_def awaited_def text_bytes_def http2_preface_def Let_def)
  show ?thesis
    using disguised_dial_crashes_server [OF dial, of "\<lparr>c_in = text_bytes (http2_preface) @ [1, 2, 3], c_out = [], c_werr = []\<rparr>"
        "[1, 2, 3]" "replicate 8 9" "NewConnState 0 True"]
    by (simp add: path_ok_def)
qed

end
