(* ===== verification/Protocol.thy ===== *)
theory Protocol
  imports Buf
begin

text \<open>
  \<open>app/common/protocol/protocol.go\<close>: the request header, and the sniffers that guess the
  protocol of a connection from its first bytes: HTTP methods, TLS client hello with its
  server name, DNS queries. A sniffer answers, passes (no result), or asks for more bytes
  (an error, which \<open>Sniff\<close> treats like a pass). The lemmas show which sniffer wins, that
  no input makes any of them panic, and that the server name extractor finds the name in
  every well-formed client hello.
\<close>

section \<open>Request header\<close>

record request_header =
  rh_Version :: byte
  rh_Command :: byte
  rh_Port :: u16

definition ParseRequestHeader :: "stream \<Rightarrow> (request_header \<times> stream) go" where
  "ParseRequestHeader s =
     go_bind (read_full 4 s) (\<lambda>(hdr, s1).
       Return (\<lparr>rh_Version = hdr ! 0, rh_Command = hdr ! 1, rh_Port = get16 (take 2 (drop 2 hdr))\<rparr>, s1))"

definition WriteRequestHeader :: "byte \<Rightarrow> u16 \<Rightarrow> conn \<Rightarrow> conn \<times> error option" where
  "WriteRequestHeader cmd port c = conn_write (blit [1, cmd, 0, 0] 2 (put16 port)) c"

section \<open>Sniffers\<close>

definition ProtoHTTP :: byte where [simp]: "ProtoHTTP = 0"
definition ProtoTLS :: byte where [simp]: "ProtoTLS = 1"
definition ProtoDNS :: byte where [simp]: "ProtoDNS = 4"
definition ProtoUnknown :: byte where [simp]: "ProtoUnknown = 99"

record sniff_result =
  sr_Protocol :: byte
  sr_Domain :: bytes

definition http_methods :: "bytes list" where
  "http_methods = map (map of_char)
     [''GET '', ''POST'', ''HEAD'', ''PUT '', ''DELE'', ''OPTI'', ''CONN'', ''PATC'']"

text \<open>A sniffer: a result, no result, an error, or a panic.\<close>

type_synonym sniffer = "buffer \<Rightarrow> sniff_result option go"

definition httpSniffer :: sniffer where
  "httpSniffer b =
     (if buffer_Len b < 4 then Fail UnexpectedEOF
      else go_bind (buffer_Bytes b) (\<lambda>data.
        if length data \<ge> 4 \<and> take 4 data \<in> set http_methods
        then Return (Some \<lparr>sr_Protocol = ProtoHTTP, sr_Domain = []\<rparr>) else Return None))"

text \<open>
  The extension list: each extension has a type, a length and its data; the server name
  extension (type 0) is decided by its first entry, also when that fails.
\<close>

function sni_extensions :: "bytes \<Rightarrow> nat \<Rightarrow> nat \<Rightarrow> bytes" where
  "sni_extensions payload offset end =
     (if offset + 4 \<le> end \<and> offset + 4 \<le> length payload then
        let extType = get16 (take 2 (drop offset payload));
            extDataLen = unat (get16 (take 2 (drop (offset + 2) payload)));
            offset' = offset + 4
        in if extType = 0 then
             if offset' + extDataLen > end \<or> offset' + extDataLen > length payload then []
             else let sniData = take extDataLen (drop offset' payload)
                  in if length sniData > 5 \<and> sniData ! 0 = 0 then
                       let sniLen = unat (get16 (take 2 (drop 3 sniData)))
                       in if 5 + sniLen \<le> length sniData then take sniLen (drop 5 sniData) else []
                     else []
           else sni_extensions payload (offset' + extDataLen) end
      else [])"
  by pat_completeness auto
termination
  by (relation "measure (\<lambda>(p, off, e). e - off)") auto

declare sni_extensions.simps [simp del]

text \<open>The handshake message's 24-bit length, and what follows it: random, session id, suites, compression.\<close>

definition hello_length :: "bytes \<Rightarrow> nat" where
  "hello_length data = unat (data ! 1) * 65536 + unat (data ! 2) * 256 + unat (data ! 3)"

definition sni_payload :: "bytes \<Rightarrow> bytes go" where
  "sni_payload payload =
     (if length payload < 42 then Return []
      else go_bind (go_index payload 34) (\<lambda>sessionIDLen.
        let offset = 35 + unat sessionIDLen
        in if offset + 2 > length payload then Return []
        else go_bind (go_slice payload (int offset) (int (offset + 2))) (\<lambda>cipherLen.
          let offset = offset + 2 + unat (get16 cipherLen)
          in if offset + 1 > length payload then Return []
          else go_bind (go_index payload (int offset)) (\<lambda>compLen.
            let offset = offset + 1 + unat compLen
            in if offset + 2 > length payload then Return []
            else go_bind (go_slice payload (int offset) (int (offset + 2))) (\<lambda>extLen.
              Return (sni_extensions payload (offset + 2) (offset + 2 + unat (get16 extLen))))))))"

definition extractSNI :: "bytes \<Rightarrow> bytes go" where
  "extractSNI data =
     (if length data < 5 then Return []
      else if data ! 0 \<noteq> 1 then Return []
      else if length data < 4 + hello_length data then Return []
      else go_bind (go_slice data (int 4) (int (4 + hello_length data))) sni_payload)"

definition tlsSniffer :: sniffer where
  "tlsSniffer b =
     (if buffer_Len b < 6 then Fail UnexpectedEOF
      else go_bind (buffer_Bytes b) (\<lambda>data.
        go_bind (go_index data 0) (\<lambda>d0. go_bind (go_index data 1) (\<lambda>d1. go_bind (go_index data 2) (\<lambda>d2.
          if d0 = 0x16 \<and> d1 = 0x03 \<and> d2 \<ge> 0 \<and> d2 \<le> 3 then
            go_bind (go_slice data 3 5) (\<lambda>l.
              if buffer_Len b \<ge> 6 + int (unat (get16 l)) then
                go_bind (go_slice data 5 (int (length data))) (\<lambda>hello.
                go_bind (extractSNI hello) (\<lambda>sni.
                  Return (Some \<lparr>sr_Protocol = ProtoTLS, sr_Domain = sni\<rparr>)))
              else Return None)
          else Return None)))))"

definition dnsSniffer :: sniffer where
  "dnsSniffer b =
     (if buffer_Len b < 12 then Fail UnexpectedEOF
      else go_bind (buffer_Bytes b) (\<lambda>data.
        go_bind (go_index data 2) (\<lambda>d2. go_bind (go_index data 3) (\<lambda>d3.
          if d2 AND 0x80 = 0 \<and> d3 AND 0x0F = 0
          then Return (Some \<lparr>sr_Protocol = ProtoDNS, sr_Domain = []\<rparr>) else Return None))))"

text \<open>The registry, in registration order, and \<open>Sniff\<close> over it.\<close>

definition RegisterSniffer :: "sniffer \<Rightarrow> sniffer list \<Rightarrow> sniffer list" where
  "RegisterSniffer s sniffers = sniffers @ [s]"

definition init_sniffers :: "sniffer list" where
  "init_sniffers = RegisterSniffer dnsSniffer (RegisterSniffer tlsSniffer (RegisterSniffer httpSniffer []))"

fun Sniff :: "sniffer list \<Rightarrow> buffer \<Rightarrow> sniff_result go" where
  "Sniff [] b = Return \<lparr>sr_Protocol = ProtoUnknown, sr_Domain = []\<rparr>"
| "Sniff (s # ss) b =
     (case s b of
        Fail e \<Rightarrow> Sniff ss b
      | Return (Some r) \<Rightarrow> Return r
      | Return None \<Rightarrow> Sniff ss b
      | Panic \<Rightarrow> Panic)"

section \<open>No input panics\<close>

text \<open>Every index and slice of the extractor is guarded.\<close>

lemma index_ok: "i < length xs \<Longrightarrow> go_index xs (int i) = Return (xs ! i)"
  by (simp add: go_index_def)

lemma slice_ok: "a \<le> b \<Longrightarrow> b \<le> length xs \<Longrightarrow> go_slice xs (int a) (int b) = Return (take (b - a) (drop a xs))"
  by (simp add: slice_of_nat)

text \<open>The extractor after its length checks, without the guards.\<close>

definition sni_fields :: "bytes \<Rightarrow> bytes" where
  "sni_fields payload =
     (let o1 = 35 + unat (payload ! 34);
          o2 = o1 + 2 + unat (get16 (take 2 (drop o1 payload)));
          o3 = o2 + 1 + unat (payload ! o2)
      in if o1 + 2 > length payload \<or> o2 + 1 > length payload \<or> o3 + 2 > length payload then []
         else sni_extensions payload (o3 + 2) (o3 + 2 + unat (get16 (take 2 (drop o3 payload)))))"

lemma sni_payload_eq:
  "sni_payload p = Return (if length p < 42 then [] else sni_fields p)"
proof (cases "length p < 42")
  case False
  define o1 where "o1 = 35 + unat (p ! 34)"
  define o2 where "o2 = o1 + 2 + unat (get16 (take 2 (drop o1 p)))"
  define o3 where "o3 = o2 + 1 + unat (p ! o2)"
  have i34: "go_index p 34 = Return (p ! 34)"
    using False index_ok [of 34 p] by simp
  have s1: "go_slice p (int o1) (int (o1 + 2)) = Return (take 2 (drop o1 p))" if "\<not> o1 + 2 > length p"
    using that slice_ok [of o1 "o1 + 2" p] by simp
  have i2: "go_index p (int o2) = Return (p ! o2)" if "\<not> o2 + 1 > length p"
    using that index_ok [of o2 p] by simp
  have s3: "go_slice p (int o3) (int (o3 + 2)) = Return (take 2 (drop o3 p))" if "\<not> o3 + 2 > length p"
    using that slice_ok [of o3 "o3 + 2" p] by simp
  have f: "sni_fields p = (if o1 + 2 > length p \<or> o2 + 1 > length p \<or> o3 + 2 > length p then []
      else sni_extensions p (o3 + 2) (o3 + 2 + unat (get16 (take 2 (drop o3 p)))))"
    by (simp only: sni_fields_def Let_def o1_def o2_def o3_def)
  have "sni_payload p = (if o1 + 2 > length p then Return [] else
      go_bind (go_slice p (int o1) (int (o1 + 2))) (\<lambda>cl.
        let o' = o1 + 2 + unat (get16 cl) in if o' + 1 > length p then Return []
        else go_bind (go_index p (int o')) (\<lambda>cm. let o'' = o' + 1 + unat cm in
          if o'' + 2 > length p then Return [] else
          go_bind (go_slice p (int o'') (int (o'' + 2))) (\<lambda>el.
            Return (sni_extensions p (o'' + 2) (o'' + 2 + unat (get16 el)))))))"
    using False by (simp only: sni_payload_def i34 go_bind.simps Let_def o1_def if_False)
  also have "\<dots> = (if o1 + 2 > length p then Return [] else if o2 + 1 > length p then Return []
        else go_bind (go_index p (int o2)) (\<lambda>cm. let o'' = o2 + 1 + unat cm in
          if o'' + 2 > length p then Return [] else
          go_bind (go_slice p (int o'') (int (o'' + 2))) (\<lambda>el.
            Return (sni_extensions p (o'' + 2) (o'' + 2 + unat (get16 el))))))"
    by (cases "o1 + 2 > length p") (simp_all only: s1 go_bind.simps Let_def o2_def if_True if_False simp_thms not_not)
  also have "\<dots> = Return (sni_fields p)"
    by (cases "o1 + 2 > length p"; cases "o2 + 1 > length p"; cases "o3 + 2 > length p")
       (simp_all only: f i2 s3 go_bind.simps Let_def o3_def [symmetric] if_True if_False simp_thms not_not)
  finally show ?thesis
    using False by simp
qed (simp add: sni_payload_def)

lemma extractSNI_eq:
  "extractSNI data =
     Return (if length data < 5 \<or> data ! 0 \<noteq> 1 \<or> length data < 4 + hello_length data \<or> hello_length data < 42 then []
             else sni_fields (take (hello_length data) (drop 4 data)))"
proof (cases "length data < 5 \<or> data ! 0 \<noteq> 1 \<or> length data < 4 + hello_length data")
  case False
  then have "go_slice data (int 4) (int (4 + hello_length data)) = Return (take (hello_length data) (drop 4 data))"
    using slice_ok [of 4 "4 + hello_length data" data] by simp
  moreover have "length (take (hello_length data) (drop 4 data)) = hello_length data"
    using False by (auto simp: min_def)
  ultimately show ?thesis
    using False by (simp only: extractSNI_def sni_payload_eq if_False go_bind.simps simp_thms de_Morgan_disj)
qed (auto simp: extractSNI_def)

section \<open>What the sniffers answer\<close>

definition is_http :: "bytes \<Rightarrow> bool" where
  "is_http d \<longleftrightarrow> 4 \<le> length d \<and> take 4 d \<in> set http_methods"

definition is_tls :: "bytes \<Rightarrow> bool" where
  "is_tls d \<longleftrightarrow> 6 + unat (get16 (take 2 (drop 3 d))) \<le> length d \<and> d ! 0 = 0x16 \<and> d ! 1 = 3 \<and> d ! 2 \<le> 3"

definition is_dns :: "bytes \<Rightarrow> bool" where
  "is_dns d \<longleftrightarrow> 12 \<le> length d \<and> d ! 2 AND 0x80 = 0 \<and> d ! 3 AND 0x0F = 0"

definition server_name :: "bytes \<Rightarrow> bytes" where
  "server_name data =
     (if length data < 5 \<or> data ! 0 \<noteq> 1 \<or> length data < 4 + hello_length data \<or> hello_length data < 42 then []
      else sni_fields (take (hello_length data) (drop 4 data)))"

lemma buffer_Len_content: "buf_inv b \<Longrightarrow> buffer_Len b = int (length (content b))"
  by (auto simp: length_content buffer_Len_def buf_inv_def)

lemma httpSniffer_eq:
  "buf_inv b \<Longrightarrow> httpSniffer b =
     (if length (content b) < 4 then Fail UnexpectedEOF
      else Return (if is_http (content b) then Some \<lparr>sr_Protocol = ProtoHTTP, sr_Domain = []\<rparr> else None))"
  by (auto simp: httpSniffer_def buffer_Len_content buffer_Bytes_content is_http_def)

lemma dnsSniffer_eq:
  "buf_inv b \<Longrightarrow> dnsSniffer b =
     (if length (content b) < 12 then Fail UnexpectedEOF
      else Return (if is_dns (content b) then Some \<lparr>sr_Protocol = ProtoDNS, sr_Domain = []\<rparr> else None))"
  using index_ok [of 2 "content b"] index_ok [of 3 "content b"]
  by (auto simp: dnsSniffer_def buffer_Len_content buffer_Bytes_content is_dns_def)

lemma tlsSniffer_eq:
  assumes "buf_inv b"
  shows "tlsSniffer b =
     (if length (content b) < 6 then Fail UnexpectedEOF
      else Return (if is_tls (content b)
        then Some \<lparr>sr_Protocol = ProtoTLS, sr_Domain = server_name (drop 5 (content b))\<rparr> else None))"
proof (cases "length (content b) < 6")
  case False
  let ?d = "content b"
  have "?d \<noteq> []"
    using False by auto
  then have "go_index ?d 0 = Return (?d ! 0)" "go_index ?d 1 = Return (?d ! 1)" "go_index ?d 2 = Return (?d ! 2)"
    "go_slice ?d 3 5 = Return (take 2 (drop 3 ?d))"
    "go_slice ?d 5 (int (length ?d)) = Return (drop 5 ?d)"
    using False index_ok [of 0 ?d] index_ok [of 1 ?d] index_ok [of 2 ?d] slice_ok [of 3 5 ?d] slice_ok [of 5 "length ?d" ?d]
    by simp_all
  moreover have "(6 + int (unat (get16 (take 2 (drop 3 ?d)))) \<le> int (length ?d)) =
      (6 + unat (get16 (take 2 (drop 3 ?d))) \<le> length ?d)"
    by linarith
  ultimately show ?thesis
    using False assms
    by (simp add: tlsSniffer_def buffer_Len_content buffer_Bytes_content is_tls_def extractSNI_eq server_name_def
        conj_commute conj_left_commute)
qed (simp add: tlsSniffer_def buffer_Len_content assms)

lemma http_not_short: "is_http d \<Longrightarrow> 4 \<le> length d" "is_tls d \<Longrightarrow> 6 \<le> length d" "is_dns d \<Longrightarrow> 12 \<le> length d"
  by (simp_all add: is_http_def is_tls_def is_dns_def)

lemma Sniff_init:
  assumes "buf_inv b"
  shows "Sniff init_sniffers b = Return
    (if is_http (content b) then \<lparr>sr_Protocol = ProtoHTTP, sr_Domain = []\<rparr>
     else if is_tls (content b) then \<lparr>sr_Protocol = ProtoTLS, sr_Domain = server_name (drop 5 (content b))\<rparr>
     else if is_dns (content b) then \<lparr>sr_Protocol = ProtoDNS, sr_Domain = []\<rparr>
     else \<lparr>sr_Protocol = ProtoUnknown, sr_Domain = []\<rparr>)"
  using http_not_short [of "content b"]
  by (auto simp: init_sniffers_def RegisterSniffer_def httpSniffer_eq [OF assms] tlsSniffer_eq [OF assms]
      dnsSniffer_eq [OF assms])

section \<open>Server names of client hellos\<close>

definition ext_bytes :: "u16 \<times> bytes \<Rightarrow> bytes" where
  "ext_bytes = (\<lambda>(t, d). put16 t @ put16 (word_of_nat (length d)) @ d)"

definition sni_ext :: "bytes \<Rightarrow> bytes" where
  "sni_ext name = ext_bytes (0, put16 (word_of_nat (3 + length name)) @ [0] @ put16 (word_of_nat (length name)) @ name)"

text \<open>A client hello: 34 bytes of version and random, session id, suites, compression, extensions.\<close>

definition hello_body :: "bytes \<Rightarrow> bytes \<Rightarrow> bytes \<Rightarrow> bytes \<Rightarrow> bytes \<Rightarrow> bytes" where
  "hello_body random sid suites comps exts =
     random @ [word_of_nat (length sid)] @ sid @ put16 (word_of_nat (length suites)) @ suites @
     [word_of_nat (length comps)] @ comps @ put16 (word_of_nat (length exts)) @ exts"

definition client_hello :: "bytes \<Rightarrow> bytes" where
  "client_hello body =
     (let n = length body
      in [1, word_of_nat (n div 65536), word_of_nat (n div 256), word_of_nat n] @ body)"

definition tls_record :: "byte \<Rightarrow> bytes \<Rightarrow> bytes" where
  "tls_record minor msg = [0x16, 3, minor] @ put16 (word_of_nat (length msg)) @ msg"

definition other_ext :: "u16 \<times> bytes \<Rightarrow> bool" where
  "other_ext = (\<lambda>(t, d). t \<noteq> 0 \<and> length d < 65536)"

lemma unat_u16: "n < 65536 \<Longrightarrow> unat (word_of_nat n :: u16) = n"
  by (simp add: unat_of_nat)

lemma high_byte_zero:
  assumes "n < 256"
  shows "drop_bit 8 (word_of_nat n :: u16) = 0"
proof -
  have "unat (drop_bit 8 (word_of_nat n :: u16)) = n div 256"
    using assms by (simp add: drop_bit_eq_div unat_div_distrib unat_u16)
  with assms have "unat (drop_bit 8 (word_of_nat n :: u16)) = 0"
    by simp
  then show ?thesis
    by (simp only: unat_eq_zero)
qed

lemma length_ext_bytes [simp]: "length (ext_bytes (t, d)) = 4 + length d"
  by (simp add: ext_bytes_def)

lemma sni_extensions_skip:
  assumes "other_ext (t, d)" and "end = length (pre @ ext_bytes (t, d) @ rest)"
  shows "sni_extensions (pre @ ext_bytes (t, d) @ rest) (length pre) end =
    sni_extensions (pre @ ext_bytes (t, d) @ rest) (length (pre @ ext_bytes (t, d))) end"
proof -
  let ?p = "pre @ ext_bytes (t, d) @ rest"
  have "take 2 (drop (length pre) ?p) = put16 t"
    "take 2 (drop (length pre + 2) ?p) = put16 (word_of_nat (length d))"
    by (simp_all add: ext_bytes_def)
  then show ?thesis
    using assms by (subst sni_extensions.simps) (simp add: Let_def other_ext_def unat_u16 add.assoc)
qed

lemma sni_extensions_zero:
  assumes "length d < 65536" and "end = length (pre @ ext_bytes (0, d) @ rest)"
  shows "sni_extensions (pre @ ext_bytes (0, d) @ rest) (length pre) end =
    (if 5 < length d \<and> d ! 0 = 0 then
       let n = unat (get16 (take 2 (drop 3 d))) in if 5 + n \<le> length d then take n (drop 5 d) else []
     else [])"
proof -
  let ?p = "pre @ ext_bytes (0, d) @ rest"
  have "take 2 (drop (length pre) ?p) = put16 0"
    "take 2 (drop (length pre + 2) ?p) = put16 (word_of_nat (length d))"
    "take (length d) (drop (length pre + 4) ?p) = d"
    by (simp_all add: ext_bytes_def)
  then show ?thesis
    using assms by (subst sni_extensions.simps) (simp add: Let_def unat_u16)
qed

lemma sni_extensions_found:
  assumes "length name < 253" and "end = length (pre @ sni_ext name @ rest)"
  shows "sni_extensions (pre @ sni_ext name @ rest) (length pre) end = name"
proof -
  define d where "d = put16 (word_of_nat (3 + length name)) @ [0] @ put16 (word_of_nat (length name)) @ name"
  have e: "sni_ext name = ext_bytes (0, d)"
    by (simp only: sni_ext_def d_def)
  have len: "length d = 5 + length name"
    by (simp add: d_def)
  have d0: "d ! 0 = 0"
    using assms(1) high_byte_zero [of "3 + length name"] by (simp add: put16_bytes d_def del: of_nat_add)
  have n: "unat (get16 (take 2 (drop 3 d))) = length name" "drop 5 d = name"
    using assms(1) by (simp_all add: d_def unat_u16)
  have "sni_extensions (pre @ ext_bytes (0, d) @ rest) (length pre) end =
    (if 5 < length d \<and> d ! 0 = 0 then
       let n = unat (get16 (take 2 (drop 3 d))) in if 5 + n \<le> length d then take n (drop 5 d) else []
     else [])"
    using assms len by (intro sni_extensions_zero) (simp_all add: e)
  also have "\<dots> = name"
    unfolding n Let_def len using d0 by (cases name) simp_all
  finally show ?thesis
    by (simp only: e)
qed

lemma sni_extensions_list:
  "list_all other_ext es \<Longrightarrow> length name < 253 \<Longrightarrow>
   sni_extensions (pre @ concat (map ext_bytes es) @ sni_ext name @ rest) (length pre)
     (length (pre @ concat (map ext_bytes es) @ sni_ext name @ rest)) = name"
proof (induction es arbitrary: pre)
  case Nil
  then show ?case
    by (simp add: sni_extensions_found)
next
  case (Cons x es)
  obtain t d where x: "x = (t, d)"
    by fastforce
  let ?r = "concat (map ext_bytes es) @ sni_ext name @ rest"
  have "sni_extensions (pre @ ext_bytes (t, d) @ ?r) (length pre) (length (pre @ ext_bytes (t, d) @ ?r)) =
      sni_extensions ((pre @ ext_bytes (t, d)) @ ?r) (length (pre @ ext_bytes (t, d))) (length ((pre @ ext_bytes (t, d)) @ ?r))"
    using sni_extensions_skip [of t d _ pre ?r] Cons.prems by (simp add: x)
  also have "\<dots> = name"
    using Cons.IH [of "pre @ ext_bytes (t, d)"] Cons.prems by simp
  finally show ?case
    by (simp add: x)
qed

lemma sni_fields_hello:
  assumes "length random = 34" "length sid < 256" "length suites < 65536" "length comps < 256" "length exts < 65536"
  shows "sni_fields (hello_body random sid suites comps exts) =
    sni_extensions (hello_body random sid suites comps exts)
      (length (hello_body random sid suites comps exts) - length exts)
      (length (hello_body random sid suites comps exts))"
proof -
  let ?p = "hello_body random sid suites comps exts"
  define o1 where "o1 = 35 + length sid"
  define o2 where "o2 = o1 + 2 + length suites"
  define o3 where "o3 = o2 + 1 + length comps"
  have byte: "unat (word_of_nat n :: byte) = n" if "n < 256" for n
    using that by (simp add: unat_of_nat)
  define A where "A = random @ [word_of_nat (length sid)] @ sid @ put16 (word_of_nat (length suites)) @ suites @
      [word_of_nat (length comps)] @ comps"
  have "?p = A @ put16 (word_of_nat (length exts)) @ exts" and "length A = o3"
    using assms(1) by (simp_all add: hello_body_def A_def o1_def o2_def o3_def)
  then have f3: "take 2 (drop o3 ?p) = put16 (word_of_nat (length exts))"
    by simp
  have f: "?p ! 34 = word_of_nat (length sid)" "take 2 (drop o1 ?p) = put16 (word_of_nat (length suites))"
    "?p ! o2 = word_of_nat (length comps)"
    using assms(1) by (simp_all add: hello_body_def o1_def o2_def o3_def nth_append)
  have l: "length ?p = o3 + 2 + length exts"
    using assms(1) by (simp add: hello_body_def o1_def o2_def o3_def)
  have o: "35 + unat (?p ! 34) = o1" "o1 + 2 + unat (get16 (take 2 (drop o1 ?p))) = o2"
    "o2 + 1 + unat (?p ! o2) = o3" "unat (get16 (take 2 (drop o3 ?p))) = length exts"
    unfolding f f3 get16_put16 using assms by (simp_all add: byte unat_u16 o1_def o2_def o3_def)
  have "\<not> (o1 + 2 > length ?p \<or> o2 + 1 > length ?p \<or> o3 + 2 > length ?p)"
    by (simp add: l o2_def o3_def)
  then have "sni_fields ?p = sni_extensions ?p (o3 + 2) (o3 + 2 + length exts)"
    by (simp only: sni_fields_def Let_def o if_False)
  then show ?thesis
    by (simp add: l)
qed

lemma hello_length_client_hello:
  assumes "length body < 16777216"
  shows "hello_length (client_hello body) = length body"
proof -
  have "length body div 65536 * 65536 + length body div 256 mod 256 * 256 + length body mod 256 = length body"
  proof -
    have "length body = length body div 256 * 256 + length body mod 256"
      and "length body div 256 = length body div 256 div 256 * 256 + length body div 256 mod 256"
      by simp_all
    moreover have "length body div 256 div 256 = length body div 65536"
      by (simp add: div_mult2_eq [symmetric])
    ultimately show ?thesis by linarith
  qed
  moreover have "length body div 65536 < 256"
    using assms by (simp add: less_mult_imp_div_less)
  ultimately show ?thesis
    by (simp add: hello_length_def client_hello_def Let_def unat_of_nat)
qed

lemma server_name_hello:
  assumes "length random = 34" "length sid < 256" "length suites < 65536" "length comps < 256"
    and es: "list_all other_ext es" "length name < 253"
    and exts: "exts = concat (map ext_bytes es) @ sni_ext name @ tl_exts" "length exts < 65536"
  shows "server_name (client_hello (hello_body random sid suites comps exts) @ extra) = name"
proof -
  let ?b = "hello_body random sid suites comps exts"
  define pre where "pre = random @ [word_of_nat (length sid)] @ sid @ put16 (word_of_nat (length suites)) @ suites @
      [word_of_nat (length comps)] @ comps @ put16 (word_of_nat (length exts))"
  have b: "?b = pre @ exts"
    by (simp add: hello_body_def pre_def)
  have len: "length ?b < 16777216" "42 \<le> length ?b"
    using assms(1-4) exts(2) by (simp_all add: hello_body_def) (simp add: exts(1) sni_ext_def)
  have "hello_length (client_hello ?b @ extra) = length ?b"
    using hello_length_client_hello [OF len(1)] by (simp add: hello_length_def client_hello_def Let_def)
  moreover have "sni_extensions (pre @ exts) (length pre) (length (pre @ exts)) = name"
    using sni_extensions_list [OF es, of pre tl_exts] exts(1) by simp
  then have "sni_fields ?b = name"
    unfolding sni_fields_hello [OF assms(1-4) exts(2)] by (simp only: b length_append diff_add_inverse2)
  moreover have "?b \<noteq> []"
    using len(2) by auto
  ultimately show ?thesis
    using len(2) by (simp add: server_name_def client_hello_def Let_def)
qed

text \<open>
  Sniffing never panics or fails, and its answer is decided by the buffered bytes
  alone: an HTTP method first, then a TLS record that is complete and followed by at least one
  more byte, with the server name, then anything that looks like a DNS query header.
\<close>

lemma Sniff_answer:
  assumes "buf_inv b"
  shows "Sniff init_sniffers b = Return
    (if is_http (content b) then \<lparr>sr_Protocol = ProtoHTTP, sr_Domain = []\<rparr>
     else if is_tls (content b) then \<lparr>sr_Protocol = ProtoTLS, sr_Domain = server_name (drop 5 (content b))\<rparr>
     else if is_dns (content b) then \<lparr>sr_Protocol = ProtoDNS, sr_Domain = []\<rparr>
     else \<lparr>sr_Protocol = ProtoUnknown, sr_Domain = []\<rparr>)"
  using assms by (rule Sniff_init)

text \<open>
  C37: the sniffer finds the server name in a client hello whose fields fit their lengths,
  whatever its session id, suites and other extensions, for names of less than 253 bytes, in a
  record of version 3.0 to 3.3 below 64 KiB, when at
  least one byte follows the record; the hello on its own, complete to the last byte, is never
  taken for TLS.
\<close>

theorem Sniff_client_hello:
  assumes hello: "length random = 34" "length sid < 256" "length suites < 65536" "length comps < 256"
    and es: "list_all other_ext es" "length name < 253"
    and exts: "exts = concat (map ext_bytes es) @ sni_ext name @ tl_exts" "length exts < 65536"
    and msg: "msg = client_hello (hello_body random sid suites comps exts)" "length msg < 65536"
    and b: "buf_inv b" "content b = tls_record minor msg @ extra" "minor \<le> 3"
  shows "if extra = [] then go_map sr_Protocol (Sniff init_sniffers b) \<noteq> Return ProtoTLS
    else Sniff init_sniffers b = Return \<lparr>sr_Protocol = ProtoTLS, sr_Domain = name\<rparr>"
proof -
  have http: "\<not> is_http (content b)"
    by (simp add: b(2) tls_record_def is_http_def http_methods_def)
  have l: "get16 (take 2 (drop 3 (content b))) = word_of_nat (length msg)"
    by (simp add: b(2) tls_record_def)
  have "is_tls (content b) \<longleftrightarrow> extra \<noteq> []"
    unfolding is_tls_def l using b(3) msg(2) by (cases extra) (simp_all add: b(2) tls_record_def unat_u16)
  moreover have "drop 5 (content b) = msg @ extra"
    by (simp add: b(2) tls_record_def)
  then have "server_name (drop 5 (content b)) = name"
    using server_name_hello [OF hello es exts, of extra] by (simp only: msg(1))
  ultimately show ?thesis
    using http by (simp add: Sniff_init [OF b(1)])
qed

theorem Sniff_client_hello_witness:
  "\<exists>b. buf_inv b \<and> Sniff init_sniffers b = Return \<lparr>sr_Protocol = ProtoTLS, sr_Domain = map of_char ''example.org''\<rparr>"
proof -
  let ?name = "map of_char ''example.org'' :: bytes"
  define exts where "exts = concat (map ext_bytes [(10, [0, 2, 0, 29])]) @ sni_ext ?name @ ext_bytes (16, [1])"
  define msg where "msg = client_hello (hello_body (replicate 34 3) [] [0x13, 1] [0] exts)"
  define d where "d = tls_record 1 msg @ [0x14]"
  define b where "b = \<lparr>b_buf = d, b_start = 0, b_end = int (length d), b_pooled = False\<rparr>"
  have l: "length exts < 65536" "length msg < 65536"
    by (simp_all add: exts_def msg_def sni_ext_def client_hello_def hello_body_def)
  have b: "buf_inv b" "content b = tls_record 1 msg @ [0x14]"
    by (simp_all add: b_def buf_inv_def content_def d_def)
  have "list_all other_ext [(10, [0, 2, 0, 29])]"
    by (simp add: other_ext_def)
  from Sniff_client_hello [OF _ _ _ _ this _ exts_def l(1) msg_def l(2) b] b(1) show ?thesis
    by auto
qed

text \<open>The request header survives the wire.\<close>

lemma request_header_roundtrip:
  assumes "WriteRequestHeader cmd port c = (c', None)"
  shows "\<exists>bs. c_out c' = c_out c @ bs \<and>
    ParseRequestHeader (bs @ rest) = Return (\<lparr>rh_Version = 1, rh_Command = cmd, rh_Port = port\<rparr>, rest)"
proof -
  have "blit [1, cmd, 0, 0] 2 (put16 port) = [1, cmd] @ put16 port"
    by (simp add: blit_fits put16_bytes)
  then have "c_out c' = c_out c @ [1, cmd] @ put16 port"
    using assms by (auto simp: WriteRequestHeader_def dest: conn_write_None)
  moreover have "ParseRequestHeader (([1, cmd] @ put16 port) @ rest) =
      Return (\<lparr>rh_Version = 1, rh_Command = cmd, rh_Port = port\<rparr>, rest)"
    by (subst ParseRequestHeader_def, subst read_full_append) simp_all
  ultimately show ?thesis by blast
qed

end
