(* ===== verification/Crypto.thy ===== *)
theory Crypto
  imports Go_Prelude
begin

text \<open>
  \<open>app/common/crypto/crypto.go\<close>: the AEAD wrapper with its key checks and nonce framing,
  the session counter and the XOR stream. The ciphers themselves (\<open>crypto/aes\<close>,
  \<open>crypto/cipher\<close>, \<open>chacha20poly1305\<close>) are an argument \<open>cipherlib\<close>; what the code relies on
  is \<open>cipherlib_ok\<close>: their documented nonce sizes and overhead, and that opening a sealed
  message under the same key and nonce gives the message back. Random bytes are arguments.
\<close>

section \<open>AEAD ciphers\<close>

text \<open>
  A \<open>cipher.AEAD\<close>. \<open>Seal\<close> and \<open>Open\<close> of the implementations panic on a nonce of the wrong
  length; \<open>Open\<close> fails when authentication fails.
\<close>

record aead =
  ae_NonceSize :: nat
  ae_Overhead :: nat
  ae_seal :: "bytes \<Rightarrow> bytes \<Rightarrow> bytes \<Rightarrow> bytes"
  ae_open :: "bytes \<Rightarrow> bytes \<Rightarrow> bytes \<Rightarrow> bytes option"

definition aead_Seal :: "aead \<Rightarrow> bytes \<Rightarrow> bytes \<Rightarrow> bytes \<Rightarrow> bytes go" where
  "aead_Seal a nonce plaintext ad =
     (if length nonce \<noteq> ae_NonceSize a then Panic else Return (ae_seal a nonce plaintext ad))"

definition aead_Open :: "aead \<Rightarrow> bytes \<Rightarrow> bytes \<Rightarrow> bytes \<Rightarrow> bytes go" where
  "aead_Open a nonce ciphertext ad =
     (if length nonce \<noteq> ae_NonceSize a then Panic
      else case ae_open a nonce ciphertext ad of
        None \<Rightarrow> Fail (Error ''message authentication failed'')
      | Some p \<Rightarrow> Return p)"

record cipherlib =
  lib_GCM :: "bytes \<Rightarrow> aead"
  lib_Chacha :: "bytes \<Rightarrow> aead"
  lib_XChacha :: "bytes \<Rightarrow> aead"

definition aead_ok :: "nat \<Rightarrow> aead \<Rightarrow> bool" where
  "aead_ok n a \<longleftrightarrow> ae_NonceSize a = n \<and> ae_Overhead a = 16 \<and>
     (\<forall>nonce p ad. length nonce = n \<longrightarrow>
        ae_open a nonce (ae_seal a nonce p ad) ad = Some p \<and> length (ae_seal a nonce p ad) = length p + 16)"

definition cipherlib_ok :: "cipherlib \<Rightarrow> bool" where
  "cipherlib_ok lib \<longleftrightarrow>
     (\<forall>key. aead_ok 12 (lib_GCM lib key) \<and> aead_ok 12 (lib_Chacha lib key) \<and> aead_ok 24 (lib_XChacha lib key))"

text \<open>An instance, to show that the hypothesis can hold: the identity with a tag of zeros.\<close>

definition null_aead :: "nat \<Rightarrow> aead" where
  "null_aead n = \<lparr>ae_NonceSize = n, ae_Overhead = 16, ae_seal = (\<lambda>_ p _. replicate 16 0 @ p),
     ae_open = (\<lambda>_ c _. if take 16 c = replicate 16 0 then Some (drop 16 c) else None)\<rparr>"

definition null_lib :: cipherlib where
  "null_lib = \<lparr>lib_GCM = (\<lambda>_. null_aead 12), lib_Chacha = (\<lambda>_. null_aead 12), lib_XChacha = (\<lambda>_. null_aead 24)\<rparr>"

lemma null_aead_ok: "aead_ok n (null_aead n)"
  by (simp add: aead_ok_def null_aead_def)

lemma null_lib_ok: "cipherlib_ok null_lib"
  by (simp add: cipherlib_ok_def null_lib_def null_aead_ok)

section \<open>The wrapper\<close>

definition ErrInvalidKey :: error where "ErrInvalidKey = Error ''invalid key length''"
definition ErrDecryptFail :: error where "ErrDecryptFail = Error ''decryption failed''"

definition CipherAES128GCM :: int where [simp]: "CipherAES128GCM = 1"
definition CipherAES256GCM :: int where [simp]: "CipherAES256GCM = 2"
definition CipherChacha20Poly1305 :: int where [simp]: "CipherChacha20Poly1305 = 3"
definition CipherXChacha20Poly1305 :: int where [simp]: "CipherXChacha20Poly1305 = 4"

record aead_cipher =
  ac_aead :: aead
  ac_typ :: int

definition NewAEADCipher :: "cipherlib \<Rightarrow> int \<Rightarrow> bytes \<Rightarrow> aead_cipher go" where
  "NewAEADCipher lib typ key =
     (if typ = CipherAES128GCM then
        if length key \<noteq> 16 then Fail ErrInvalidKey else Return \<lparr>ac_aead = lib_GCM lib key, ac_typ = typ\<rparr>
      else if typ = CipherAES256GCM then
        if length key \<noteq> 32 then Fail ErrInvalidKey else Return \<lparr>ac_aead = lib_GCM lib key, ac_typ = typ\<rparr>
      else if typ = CipherChacha20Poly1305 then
        if length key \<noteq> 32 then Fail ErrInvalidKey else Return \<lparr>ac_aead = lib_Chacha lib key, ac_typ = typ\<rparr>
      else if typ = CipherXChacha20Poly1305 then
        if length key \<noteq> 32 then Fail ErrInvalidKey else Return \<lparr>ac_aead = lib_XChacha lib key, ac_typ = typ\<rparr>
      else Fail (Error ''unsupported cipher type''))"

definition cipher_NonceSize :: "aead_cipher \<Rightarrow> nat" where
  "cipher_NonceSize c = ae_NonceSize (ac_aead c)"

definition cipher_Overhead :: "aead_cipher \<Rightarrow> nat" where
  "cipher_Overhead c = ae_Overhead (ac_aead c)"

definition cipher_Seal :: "aead_cipher \<Rightarrow> bytes \<Rightarrow> bytes \<Rightarrow> bytes \<Rightarrow> bytes \<Rightarrow> bytes go" where
  "cipher_Seal c dst nonce plaintext ad = go_map ((@) dst) (aead_Seal (ac_aead c) nonce plaintext ad)"

definition cipher_Open :: "aead_cipher \<Rightarrow> bytes \<Rightarrow> bytes \<Rightarrow> bytes \<Rightarrow> bytes \<Rightarrow> bytes go" where
  "cipher_Open c dst nonce ciphertext ad = go_map ((@) dst) (aead_Open (ac_aead c) nonce ciphertext ad)"

text \<open>\<open>rnd\<close> is the random source: it fills a slice from its first byte on.\<close>

definition random_bytes :: "(nat \<Rightarrow> byte) \<Rightarrow> nat \<Rightarrow> bytes" where
  "random_bytes rnd n = map rnd [0..<n]"

definition cipher_Encrypt :: "(nat \<Rightarrow> byte) \<Rightarrow> aead_cipher \<Rightarrow> bytes \<Rightarrow> bytes go" where
  "cipher_Encrypt rnd c plaintext =
     (let nonce = random_bytes rnd (ae_NonceSize (ac_aead c))
      in cipher_Seal c nonce nonce plaintext [])"

definition cipher_Decrypt :: "aead_cipher \<Rightarrow> bytes \<Rightarrow> bytes go" where
  "cipher_Decrypt c ciphertext =
     (let nonceSize = ae_NonceSize (ac_aead c)
      in if length ciphertext < nonceSize then Fail ErrDecryptFail
         else cipher_Open c [] (take nonceSize ciphertext) (drop nonceSize ciphertext) [])"

definition GenerateKey :: "(nat \<Rightarrow> byte) \<Rightarrow> int \<Rightarrow> bytes go" where
  "GenerateKey rnd len = (if len < 0 then Panic else Return (random_bytes rnd (nat len)))"

section \<open>Session counter and XOR stream\<close>

text \<open>
  \<open>Next\<close> returns a slice of the counter's own array: the bytes a caller holds change with
  the next call.
\<close>

record session_counter =
  sc_count :: bytes

definition NewSessionCounter :: "u64 \<Rightarrow> session_counter" where
  "NewSessionCounter initial = \<lparr>sc_count = put64 initial\<rparr>"

definition counter_Next :: "session_counter \<Rightarrow> session_counter \<times> bytes" where
  "counter_Next sc =
     (let count = put64 (get64 (sc_count sc) + 1) in (sc\<lparr>sc_count := count\<rparr>, count))"

definition XORKeyStream :: "bytes \<Rightarrow> bytes \<Rightarrow> bytes go" where
  "XORKeyStream dst src =
     (if length src \<le> length dst then Return (map (\<lambda>b. b XOR 0xFF) src @ drop (length src) dst) else Panic)"

section \<open>Lemmas\<close>

lemma length_random_bytes [simp]: "length (random_bytes rnd n) = n"
  by (simp add: random_bytes_def)

lemma aead_ok_seal:
  "aead_ok n a \<Longrightarrow> length nonce = n \<Longrightarrow>
     aead_Seal a nonce p ad = Return (ae_seal a nonce p ad) \<and> length (ae_seal a nonce p ad) = length p + 16 \<and>
     aead_Open a nonce (ae_seal a nonce p ad) ad = Return p"
  by (simp add: aead_ok_def aead_Seal_def aead_Open_def)

lemma Encrypt_ok:
  assumes "aead_ok n (ac_aead c)"
  shows "\<exists>ct. cipher_Encrypt rnd c p = Return ct \<and> length ct = n + length p + 16 \<and> cipher_Decrypt c ct = Return p"
proof -
  have n: "ae_NonceSize (ac_aead c) = n"
    using assms by (simp add: aead_ok_def)
  let ?nonce = "random_bytes rnd n"
  from aead_ok_seal [OF assms, of ?nonce p "[]"] show ?thesis
    by (simp add: cipher_Encrypt_def cipher_Decrypt_def cipher_Seal_def cipher_Open_def n Let_def)
qed

lemma NewAEADCipher_ok:
  assumes "cipherlib_ok lib" and "NewAEADCipher lib typ key = Return c"
  shows "aead_ok (if typ = CipherXChacha20Poly1305 then 24 else 12) (ac_aead c)"
  using assms by (auto simp: NewAEADCipher_def cipherlib_ok_def split: if_splits)

lemma counter_Next_length [simp]: "length (snd (counter_Next sc)) = 8"
  by (simp add: counter_Next_def Let_def)

lemma XOR_involution:
  "length src \<le> length dst \<Longrightarrow>
     go_bind (XORKeyStream dst src) (\<lambda>c. XORKeyStream c (take (length src) c)) = Return (src @ drop (length src) dst)"
proof -
  assume le: "length src \<le> length dst"
  have "(b XOR 255) XOR 255 = b" for b :: byte
    by (simp add: xor.assoc)
  then have "map (\<lambda>b. b XOR 255) (map (\<lambda>b. b XOR 255) src) = src"
    by (simp add: comp_def)
  then show ?thesis
    using le by (simp add: XORKeyStream_def)
qed

text \<open>
  A cipher made by \<open>NewAEADCipher\<close> decrypts what it encrypts, for every message and
  random source; it exists exactly for the four cipher types with a key of their length.
\<close>

lemma Decrypt_Encrypt:
  assumes "cipherlib_ok lib" and "NewAEADCipher lib typ key = Return c"
  shows "go_bind (cipher_Encrypt rnd c p) (cipher_Decrypt c) = Return p \<and>
    (typ, length key) \<in> {(CipherAES128GCM, 16), (CipherAES256GCM, 32), (CipherChacha20Poly1305, 32), (CipherXChacha20Poly1305, 32)}"
proof -
  from Encrypt_ok [OF NewAEADCipher_ok [OF assms], of rnd p] obtain ct where
    "cipher_Encrypt rnd c p = Return ct" "cipher_Decrypt c ct = Return p"
    by blast
  then show ?thesis
    using assms(2) by (auto simp: NewAEADCipher_def split: if_splits)
qed

end
