(* ===== verification/Obfuscator.thy ===== *)
theory Obfuscator
  imports Crypto
begin

text \<open>
  \<open>app/features/stealth/obfuscator.go\<close>: the obfuscation methods behind the \<open>Obfuscator\<close>
  interface, their constructor, and the stream wrapper with its read buffer. The interface
  is the locale \<open>obfuscation\<close> (what was obfuscated is recovered), interpreted on the
  model's methods for those parameters with which they work; the lemmas show which methods
  never work, and what the stream wrapper loses when the reader's buffer is small. The pool
  of result buffers is not used by any method.
\<close>

section \<open>Methods\<close>

definition ErrInvalidObfuscation :: error where
  "ErrInvalidObfuscation = Error ''stealth: invalid obfuscation parameters''"

datatype obfuscation_method =
  MethodNone | MethodRandom | MethodRandomPad | MethodXTLS | MethodVision | MethodReality
  | MethodUDP | MethodDTLS | MethodWireGuard

record reality_config =
  rl_ServerName :: string
  rl_ServerPort :: int
  rl_Fingerprint :: string
  rl_PublicKey :: bytes
  rl_PrivateKey :: bytes
  rl_ShortID :: bytes

record obfuscator_config =
  oc_Key :: bytes
  oc_PaddingMin :: int
  oc_PaddingMax :: int
  oc_XTLSFlow :: string
  oc_Reality :: "reality_config option"

text \<open>One constructor per implementation of the interface, with its own fields.\<close>

datatype obfuscator =
  RandomObfuscator (xorKey: bytes)
| RandomPaddingObfuscator (padMin: int) (padMax: int)
| XTLSObfuscator (x_aead: aead_cipher) (x_counter: session_counter) (x_flow: string) (x_command: byte) (x_splitting: bool)
| VisionObfuscator (v_aead: aead_cipher) (v_counter: session_counter)
| RealityObfuscator (r_aead: aead_cipher) (r_shortID: bytes)

definition obfuscator_Method :: "obfuscator \<Rightarrow> obfuscation_method" where
  "obfuscator_Method o' =
     (case o' of RandomObfuscator _ \<Rightarrow> MethodRandom | RandomPaddingObfuscator _ _ \<Rightarrow> MethodRandomPad
      | XTLSObfuscator _ _ _ _ _ \<Rightarrow> MethodXTLS | VisionObfuscator _ _ \<Rightarrow> MethodVision
      | RealityObfuscator _ _ \<Rightarrow> MethodReality)"

text \<open>Randomness: the number \<open>rand.Int\<close> draws (reduced to its range) and the bytes of the source.\<close>

record entropy =
  en_int :: nat
  en_bytes :: "nat \<Rightarrow> byte"

definition rand_Int :: "entropy \<Rightarrow> int \<Rightarrow> int go" where
  "rand_Int en n = (if n \<le> 0 then Panic else Return (int (en_int en) mod n))"

fun xor_key :: "bytes \<Rightarrow> nat \<Rightarrow> bytes \<Rightarrow> bytes go" where
  "xor_key key i [] = Return []"
| "xor_key key i (b # bs) =
     (if key = [] then Panic
      else go_map (Cons (b XOR key ! (i mod length key))) (xor_key key (Suc i) bs))"

definition pad_Obfuscate :: "entropy \<Rightarrow> int \<Rightarrow> int \<Rightarrow> bytes \<Rightarrow> bytes go" where
  "pad_Obfuscate en mn mx data =
     go_bind (rand_Int en (mx - mn + 1)) (\<lambda>padSize.
       let totalPad = padSize + mn;
           totalLen = 2 + totalPad + int (length data)
       in if totalLen < 2 then Panic
          else if totalPad < 0 then Panic
          else let result = replicate (nat totalLen) 0;
                   result = blit result 0 (put16 (word_of_int totalPad));
                   result = blit result 2 (random_bytes (en_bytes en) (nat totalPad))
               in Return (blit result (nat (2 + totalPad)) data))"

definition pad_Deobfuscate :: "bytes \<Rightarrow> bytes go" where
  "pad_Deobfuscate data =
     (if length data < 2 then Fail ErrInvalidObfuscation
      else let padSize = unat (get16 (take 2 data))
           in if 2 + padSize > length data then Fail ErrInvalidObfuscation
              else Return (drop (2 + padSize) data))"

definition xtls_Obfuscate :: "entropy \<Rightarrow> aead_cipher \<Rightarrow> bytes \<Rightarrow> byte \<Rightarrow> bool \<Rightarrow> bytes \<Rightarrow> bytes go" where
  "xtls_Obfuscate en a nonce command splitting data =
     (let payload = (if splitting \<and> length data > 900 then take 900 data else data)
      in go_bind (cipher_Seal a [] nonce payload []) (\<lambda>encrypted.
         go_bind (rand_Int en 16) (\<lambda>pad.
           Return ([command] @ put16 (word_of_nat (length encrypted)) @ [word_of_int pad, 0] @ encrypted
             @ random_bytes (en_bytes en) (nat pad)))))"

definition xtls_Deobfuscate :: "aead_cipher \<Rightarrow> session_counter \<Rightarrow> bytes \<Rightarrow> session_counter \<times> bytes go" where
  "xtls_Deobfuscate a counter data =
     (if length data < 5 then (counter, Fail ErrInvalidObfuscation)
      else let len = unat (get16 (take 2 (drop 1 data)))
           in if 5 + len > length data then (counter, Fail ErrInvalidObfuscation)
              else case counter_Next counter of (counter', nonce) \<Rightarrow>
                (counter', cipher_Open a [] nonce (take len (drop 5 data)) []))"

definition vision_Obfuscate :: "aead_cipher \<Rightarrow> bytes \<Rightarrow> bytes \<Rightarrow> bytes go" where
  "vision_Obfuscate a nonce data =
     go_bind (cipher_Seal a [] nonce data []) (\<lambda>encrypted.
       Return (put16 (word_of_nat (length encrypted)) @ encrypted))"

definition vision_Deobfuscate :: "aead_cipher \<Rightarrow> bytes \<Rightarrow> bytes go" where
  "vision_Deobfuscate a data =
     (if length data < 2 then Fail ErrInvalidObfuscation
      else let len = unat (get16 (take 2 data))
           in if 2 + len > length data then Fail ErrInvalidObfuscation
              else let nonceSize = cipher_NonceSize a
                   in if len < nonceSize then Fail ErrInvalidObfuscation
                      else cipher_Open a [] (take nonceSize (drop 2 data))
                             (take (len - nonceSize) (drop (2 + nonceSize) data)) [])"

definition reality_Obfuscate :: "entropy \<Rightarrow> aead_cipher \<Rightarrow> bytes \<Rightarrow> bytes \<Rightarrow> bytes go" where
  "reality_Obfuscate en a shortID data =
     go_bind (cipher_Encrypt (en_bytes en) a data) (\<lambda>encrypted.
       Return ([word_of_nat (length shortID)] @ shortID @ put16 (word_of_nat (length encrypted)) @ encrypted))"

definition reality_Deobfuscate :: "aead_cipher \<Rightarrow> bytes \<Rightarrow> bytes go" where
  "reality_Deobfuscate a data =
     (if length data < 3 then Fail ErrInvalidObfuscation
      else let start = 1 + unat (data ! 0)
           in if start + 2 > length data then Fail ErrInvalidObfuscation
              else let len = unat (get16 (take 2 (drop start data)))
                   in if start + 2 + len > length data then Fail ErrInvalidObfuscation
                      else cipher_Decrypt a (take len (drop (start + 2) data)))"

section \<open>The interface\<close>

fun Obfuscate :: "entropy \<Rightarrow> obfuscator \<Rightarrow> bytes \<Rightarrow> obfuscator \<times> bytes go" where
  "Obfuscate en (RandomObfuscator key) data = (RandomObfuscator key, xor_key key 0 data)"
| "Obfuscate en (RandomPaddingObfuscator mn mx) data = (RandomPaddingObfuscator mn mx, pad_Obfuscate en mn mx data)"
| "Obfuscate en (XTLSObfuscator a counter flow command splitting) data =
     (case counter_Next counter of (counter', nonce) \<Rightarrow>
        (XTLSObfuscator a counter' flow command splitting, xtls_Obfuscate en a nonce command splitting data))"
| "Obfuscate en (VisionObfuscator a counter) data =
     (case counter_Next counter of (counter', nonce) \<Rightarrow>
        (VisionObfuscator a counter', vision_Obfuscate a nonce data))"
| "Obfuscate en (RealityObfuscator a shortID) data = (RealityObfuscator a shortID, reality_Obfuscate en a shortID data)"

fun Deobfuscate :: "obfuscator \<Rightarrow> bytes \<Rightarrow> obfuscator \<times> bytes go" where
  "Deobfuscate (RandomObfuscator key) data = (RandomObfuscator key, xor_key key 0 data)"
| "Deobfuscate (RandomPaddingObfuscator mn mx) data = (RandomPaddingObfuscator mn mx, pad_Deobfuscate data)"
| "Deobfuscate (XTLSObfuscator a counter flow command splitting) data =
     (case xtls_Deobfuscate a counter data of (counter', r) \<Rightarrow> (XTLSObfuscator a counter' flow command splitting, r))"
| "Deobfuscate (VisionObfuscator a counter) data = (VisionObfuscator a counter, vision_Deobfuscate a data)"
| "Deobfuscate (RealityObfuscator a shortID) data = (RealityObfuscator a shortID, reality_Deobfuscate a data)"

fun obfuscator_Reset :: "obfuscator \<Rightarrow> obfuscator" where
  "obfuscator_Reset (RandomObfuscator key) = RandomObfuscator (replicate (length key) 0)"
| "obfuscator_Reset (XTLSObfuscator a counter flow command splitting) =
     XTLSObfuscator a (NewSessionCounter 0) flow command splitting"
| "obfuscator_Reset ob = ob"

definition default_key :: "entropy \<Rightarrow> bytes \<Rightarrow> bytes" where
  "default_key en key = (if length key = 0 then random_bytes (en_bytes en) 32 else key)"

definition NewRandomObfuscator :: "obfuscator_config \<Rightarrow> obfuscator" where
  "NewRandomObfuscator config = RandomObfuscator (oc_Key config)"

definition NewRandomPaddingObfuscator :: "obfuscator_config \<Rightarrow> obfuscator" where
  "NewRandomPaddingObfuscator config = RandomPaddingObfuscator (oc_PaddingMin config) (oc_PaddingMax config)"

definition NewXTLSObfuscator :: "cipherlib \<Rightarrow> obfuscator_config \<Rightarrow> obfuscator go" where
  "NewXTLSObfuscator lib config =
     go_bind (NewAEADCipher lib CipherAES256GCM (oc_Key config)) (\<lambda>a.
       let flow = (if oc_XTLSFlow config = [] then ''xtls-rprx-vision'' else oc_XTLSFlow config)
       in Return (XTLSObfuscator a (NewSessionCounter 0) flow 1 True))"

definition NewVisionObfuscator :: "cipherlib \<Rightarrow> obfuscator_config \<Rightarrow> obfuscator go" where
  "NewVisionObfuscator lib config =
     go_bind (NewAEADCipher lib CipherAES256GCM (oc_Key config)) (\<lambda>a.
       Return (VisionObfuscator a (NewSessionCounter 0)))"

definition NewRealityObfuscator :: "cipherlib \<Rightarrow> obfuscator_config \<Rightarrow> obfuscator go" where
  "NewRealityObfuscator lib config =
     (case oc_Reality config of
        None \<Rightarrow> Fail ErrInvalidObfuscation
      | Some rc \<Rightarrow> go_bind (NewAEADCipher lib CipherChacha20Poly1305 (oc_Key config)) (\<lambda>a.
          Return (RealityObfuscator a (rl_ShortID rc))))"

text \<open>The constructor also writes the defaults into the configuration it is given.\<close>

definition NewObfuscator ::
  "cipherlib \<Rightarrow> entropy \<Rightarrow> obfuscation_method \<Rightarrow> obfuscator_config \<Rightarrow> obfuscator_config \<times> obfuscator go" where
  "NewObfuscator lib en m config =
     (let keyed = config\<lparr>oc_Key := default_key en (oc_Key config)\<rparr>
      in case m of
        MethodRandom \<Rightarrow> (keyed, Return (NewRandomObfuscator keyed))
      | MethodRandomPad \<Rightarrow>
          let padded = config\<lparr>oc_PaddingMin := (if oc_PaddingMin config = 0 then 4 else oc_PaddingMin config),
                               oc_PaddingMax := (if oc_PaddingMax config = 0 then 64 else oc_PaddingMax config)\<rparr>
          in (padded, Return (NewRandomPaddingObfuscator padded))
      | MethodXTLS \<Rightarrow> (keyed, NewXTLSObfuscator lib keyed)
      | MethodVision \<Rightarrow> (keyed, NewVisionObfuscator lib keyed)
      | MethodReality \<Rightarrow> (keyed, NewRealityObfuscator lib keyed)
      | _ \<Rightarrow> (config, Fail ErrInvalidObfuscation))"

section \<open>The stream wrapper\<close>

text \<open>The reader below delivers \<open>so_in\<close>, one chunk per read (cut at the buffer size), then \<open>EOF\<close>.\<close>

record stream_obf =
  so_obf :: obfuscator
  so_readBuf :: bytes
  so_readPos :: nat
  so_readLen :: nat
  so_in :: "bytes list"

definition NewStreamObfuscator :: "obfuscator \<Rightarrow> bytes list \<Rightarrow> stream_obf" where
  "NewStreamObfuscator ob inp =
     \<lparr>so_obf = ob, so_readBuf = replicate (64 * 1024) 0, so_readPos = 0, so_readLen = 0, so_in = inp\<rparr>"

definition next_chunk :: "nat \<Rightarrow> bytes list \<Rightarrow> (bytes \<times> bytes list) go" where
  "next_chunk n cs =
     (case cs of [] \<Rightarrow> Fail EOF
      | c # cs' \<Rightarrow> if length c \<le> n then Return (c, cs') else Return (take n c, drop n c # cs'))"

definition stream_obf_Read :: "stream_obf \<Rightarrow> nat \<Rightarrow> stream_obf \<times> bytes go" where
  "stream_obf_Read s k =
     (if so_readLen s > 0 then
        (case go_slice (so_readBuf s) (int (so_readPos s)) (int (so_readPos s + so_readLen s)) of
           Return src \<Rightarrow>
             let n = min k (length src);
                 len = so_readLen s - n
             in (s\<lparr>so_readPos := (if len = 0 then 0 else so_readPos s + n), so_readLen := len\<rparr>, Return (take k src))
         | Fail e \<Rightarrow> (s, Fail e)
         | Panic \<Rightarrow> (s, Panic))
      else case next_chunk (length (so_readBuf s)) (so_in s) of
        Fail e \<Rightarrow> (s, Fail e)
      | Panic \<Rightarrow> (s, Panic)
      | Return (raw, rest) \<Rightarrow>
          let s1 = s\<lparr>so_readBuf := blit (so_readBuf s) 0 raw, so_in := rest\<rparr>
          in case Deobfuscate (so_obf s1) raw of
               (ob, Fail e) \<Rightarrow> (s1\<lparr>so_obf := ob\<rparr>, Fail e)
             | (ob, Panic) \<Rightarrow> (s1\<lparr>so_obf := ob\<rparr>, Panic)
             | (ob, Return plaintext) \<Rightarrow>
                 let s2 = s1\<lparr>so_obf := ob\<rparr>;
                     copied = min k (length plaintext)
                 in if copied < length plaintext
                    then (s2\<lparr>so_readPos := copied, so_readLen := length plaintext - copied,
                             so_readBuf := blit (so_readBuf s2) 0 (drop copied plaintext)\<rparr>, Return (take k plaintext))
                    else (s2, Return plaintext))"

definition stream_obf_Write :: "entropy \<Rightarrow> bytes \<Rightarrow> stream_obf \<Rightarrow> conn \<Rightarrow> stream_obf \<times> conn \<times> nat go" where
  "stream_obf_Write en p s c =
     (case Obfuscate en (so_obf s) p of
        (ob, Fail e) \<Rightarrow> (s\<lparr>so_obf := ob\<rparr>, c, Fail e)
      | (ob, Panic) \<Rightarrow> (s\<lparr>so_obf := ob\<rparr>, c, Panic)
      | (ob, Return obfuscated) \<Rightarrow>
          (case conn_write obfuscated c of
             (c', Some e) \<Rightarrow> (s\<lparr>so_obf := ob\<rparr>, c', Fail e)
           | (c', None) \<Rightarrow> (s\<lparr>so_obf := ob\<rparr>, c', Return (length p))))"

section \<open>The contract of the interface\<close>

text \<open>
  What a user of an \<open>Obfuscator\<close> relies on: with the same parameters on both sides,
  obfuscating succeeds and its result is recovered, whatever the randomness, and using it
  leaves the parameters alone.
\<close>

locale obfuscation =
  fixes enc :: "'e \<Rightarrow> 'o \<Rightarrow> bytes \<Rightarrow> 'o \<times> bytes go"
    and dec :: "'o \<Rightarrow> bytes \<Rightarrow> 'o \<times> bytes go"
    and works :: "'o \<Rightarrow> bytes \<Rightarrow> bool"
  assumes recover: "works ob data \<Longrightarrow> \<exists>c. enc e ob data = (ob, Return c) \<and> dec ob c = (ob, Return data)"
begin

lemma recovered: "works ob data \<Longrightarrow> enc e ob data = (ob', Return c) \<Longrightarrow> ob' = ob \<and> dec ob c = (ob, Return data)"
  using recover [of ob data e] by auto

lemma recover_sequence:
  "list_all (works ob) ds \<Longrightarrow>
     \<exists>cs. map (\<lambda>d. enc e ob d) ds = map (\<lambda>c. (ob, Return c)) cs \<and>
          map (dec ob) cs = map (\<lambda>d. (ob, Return d)) ds"
proof (induction ds)
  case (Cons d ds)
  then obtain cs where "map (\<lambda>d. enc e ob d) ds = map (\<lambda>c. (ob, Return c)) cs"
      "map (dec ob) cs = map (\<lambda>d. (ob, Return d)) ds"
    by auto
  moreover obtain c where "enc e ob d = (ob, Return c)" "dec ob c = (ob, Return d)"
    using Cons.prems recover [of ob d e] by auto
  ultimately show ?case
    by (intro exI [of _ "c # cs"]) simp
qed simp

end

fun obf_works :: "obfuscator \<Rightarrow> bytes \<Rightarrow> bool" where
  "obf_works (RandomObfuscator key) data \<longleftrightarrow> key \<noteq> []"
| "obf_works (RandomPaddingObfuscator mn mx) data \<longleftrightarrow> 0 \<le> mn \<and> mn \<le> mx \<and> mx < 65536"
| "obf_works (RealityObfuscator a shortID) data \<longleftrightarrow>
     aead_ok 12 (ac_aead a) \<and> length shortID < 256 \<and> length data + 28 < 65536"
| "obf_works _ data \<longleftrightarrow> False"

lemma xor_key_involution:
  assumes "key \<noteq> []"
  shows "\<exists>c. xor_key key i data = Return c \<and> length c = length data \<and> xor_key key i c = Return data"
proof (induction data arbitrary: i)
  case (Cons b bs)
  from Cons.IH [of "Suc i"] obtain c where "xor_key key (Suc i) bs = Return c" "length c = length bs"
      "xor_key key (Suc i) c = Return bs"
    by blast
  then show ?case
    using assms by (simp add: xor.assoc)
qed simp

lemma pad_recover:
  assumes "0 \<le> mn" "mn \<le> mx" "mx < 65536"
  shows "\<exists>c. pad_Obfuscate en mn mx data = Return c \<and> pad_Deobfuscate c = Return data"
proof -
  define pad where "pad = int (en_int en) mod (mx - mn + 1) + mn"
  have "0 \<le> int (en_int en) mod (mx - mn + 1)" "int (en_int en) mod (mx - mn + 1) < mx - mn + 1"
    using assms(2) pos_mod_sign [of "mx - mn + 1"] pos_mod_bound [of "mx - mn + 1"] by simp_all
  then have pad: "0 \<le> pad" "pad < 65536"
    using assms by (simp_all add: pad_def)
  then obtain n where n: "pad = int n" "n < 65536"
    by (metis nonneg_int_cases of_nat_less_iff of_nat_numeral)
  define r where "r = random_bytes (en_bytes en) n"
  have lr: "length r = n"
    by (simp add: r_def)
  have "blit (blit (blit (replicate (2 + n + length data) 0) 0 (put16 (word_of_nat n))) 2 r) (2 + n) data =
      put16 (word_of_nat n) @ r @ data"
  proof -
    have "replicate (2 + n + length data) 0 = replicate 2 0 @ replicate n 0 @ replicate (length data) (0 :: byte)"
      by (simp add: replicate_add numeral_2_eq_2)
    then show ?thesis
      using lr by (simp add: blit_fits)
  qed
  moreover have "nat (2 + int n + int (length data)) = 2 + n + length data" "nat (2 + int n) = 2 + n"
    by simp_all
  ultimately have "pad_Obfuscate en mn mx data = Return (put16 (word_of_nat n) @ r @ data)"
    using assms n
    by (simp add: pad_Obfuscate_def rand_Int_def pad_def [symmetric] Let_def r_def)
  moreover have "pad_Deobfuscate (put16 (word_of_nat n) @ r @ data) = Return data"
    using n lr by (simp add: pad_Deobfuscate_def Let_def unat_of_nat)
  ultimately show ?thesis by blast
qed

lemma reality_recover:
  assumes "aead_ok 12 (ac_aead a)" "length shortID < 256" "length data + 28 < 65536"
  shows "\<exists>c. reality_Obfuscate en a shortID data = Return c \<and> reality_Deobfuscate a c = Return data"
proof -
  from Encrypt_ok [OF assms(1), of "en_bytes en" data] obtain ct where
    ct: "cipher_Encrypt (en_bytes en) a data = Return ct" "length ct = 12 + length data + 16" "cipher_Decrypt a ct = Return data"
    by blast
  let ?c = "[word_of_nat (length shortID)] @ shortID @ put16 (word_of_nat (length ct)) @ ct"
  have "unat (word_of_nat (length shortID) :: byte) = length shortID"
    "unat (word_of_nat (length ct) :: u16) = length ct"
    using assms(2,3) ct(2) by (simp_all only: unat_of_nat) simp_all
  then have "reality_Deobfuscate a ?c = Return data"
    using ct by (simp add: reality_Deobfuscate_def Let_def)
  with ct(1) show ?thesis
    by (simp add: reality_Obfuscate_def)
qed

interpretation obfs: obfuscation Obfuscate Deobfuscate obf_works
proof
  fix ob data e
  assume "obf_works ob data"
  then show "\<exists>c. Obfuscate e ob data = (ob, Return c) \<and> Deobfuscate ob c = (ob, Return data)"
    using xor_key_involution [of _ 0 data] pad_recover reality_recover
    by (cases ob) (auto, fastforce+)
qed

section \<open>Streams of obfuscated messages\<close>

lemma next_chunk_whole: "length c \<le> n \<Longrightarrow> next_chunk n (c # cs) = Return (c, cs)"
  by (simp add: next_chunk_def)

lemma stream_obf_Read_chunk:
  assumes "so_readLen s = 0" and "so_in s = c # rest" and "length c \<le> length (so_readBuf s)"
    and dec: "Deobfuscate (so_obf s) c = (ob, Return d)"
  shows "stream_obf_Read s k =
    (let s2 = s\<lparr>so_readBuf := blit (so_readBuf s) 0 c, so_in := rest, so_obf := ob\<rparr>
     in if k < length d
        then (s2\<lparr>so_readPos := k, so_readLen := length d - k,
                so_readBuf := blit (blit (so_readBuf s) 0 c) 0 (drop k d)\<rparr>, Return (take k d))
        else (s2, Return d))"
  using assms by (simp add: stream_obf_Read_def next_chunk_whole Let_def min_def)

text \<open>
  C33: with a method that works, a message written to an obfuscated stream is read back from its
  frame, when the reader has nothing left of an earlier frame, the frame fits the reader's internal
  buffer (64 KiB for a new one) and arrives alone in one read of the connection, and the caller's
  buffer is at least as long as the message; the wrapper is then ready for the next frame.
\<close>

theorem stream_obfuscator_roundtrip:
  assumes works: "obf_works ob d" and w: "stream_obf_Write en d sw \<lparr>c_in = [], c_out = [], c_werr = []\<rparr> = (sw', conn, r)"
    and sw: "so_obf sw = ob" and s: "so_obf s = ob" "so_readLen s = 0" "so_in s = c_out conn # rest"
    and fits: "length (c_out conn) \<le> length (so_readBuf s)" "length d \<le> k"
  shows "r = Return (length d) \<and> so_obf sw' = ob \<and>
    (\<exists>s'. stream_obf_Read s k = (s', Return d) \<and> so_obf s' = ob \<and> so_readLen s' = 0 \<and> so_in s' = rest)"
proof -
  obtain c where c: "Obfuscate en ob d = (ob, Return c)" "Deobfuscate ob c = (ob, Return d)"
    using obfs.recover [OF works, of en] by blast
  then have "sw' = sw\<lparr>so_obf := ob\<rparr>" "c_out conn = c" "r = Return (length d)"
    using w sw by (auto simp: stream_obf_Write_def conn_write_def)
  with c s fits stream_obf_Read_chunk [of s c rest ob d k] show ?thesis
    by (simp add: Let_def)
qed

theorem stream_obfuscator_roundtrip_witness:
  "\<exists>conn sw' s'. stream_obf_Write \<lparr>en_int = 5, en_bytes = (\<lambda>_. 9)\<rparr> [1, 2, 3]
      (NewStreamObfuscator (RandomPaddingObfuscator 1 4) []) \<lparr>c_in = [], c_out = [], c_werr = []\<rparr> = (sw', conn, Return 3) \<and>
    stream_obf_Read (NewStreamObfuscator (RandomPaddingObfuscator 1 4) [c_out conn]) 10 = (s', Return [1, 2, 3])"
proof -
  let ?en = "\<lparr>en_int = 5, en_bytes = (\<lambda>_. 9)\<rparr>" and ?ob = "RandomPaddingObfuscator 1 4"
  obtain sw' conn r where w: "stream_obf_Write ?en [1, 2, 3] (NewStreamObfuscator ?ob [])
      \<lparr>c_in = [], c_out = [], c_werr = []\<rparr> = (sw', conn, r)"
    by (metis surj_pair)
  moreover have "length (c_out conn) \<le> 65536"
    using w by (auto simp: stream_obf_Write_def NewStreamObfuscator_def pad_Obfuscate_def rand_Int_def conn_write_def Let_def)
  ultimately show ?thesis
    using stream_obfuscator_roundtrip [OF _ w, of ?ob "NewStreamObfuscator ?ob [c_out conn]" "[]" 10]
    by (auto simp: NewStreamObfuscator_def)
qed

text \<open>
  With a shorter buffer the stream is corrupted. The rest of the message is stored at
  the start of the read buffer but read from position \<open>k\<close>, the number of bytes already
  delivered: the second read skips \<open>k\<close> bytes of the message and ends with bytes of the frame
  that are still obfuscated; when at least half was delivered first, it returns nothing else.
\<close>

lemma stream_obf_short_read:
  assumes works: "obf_works ob d" and enc: "Obfuscate en ob d = (ob1, Return c)"
    and s: "so_obf s = ob" "so_readLen s = 0" "so_in s = c # rest"
    and fits: "length c \<le> length (so_readBuf s)" "length d \<le> length c" and k: "k < length d"
  shows "\<exists>s1 s2. stream_obf_Read s k = (s1, Return (take k d)) \<and>
    stream_obf_Read s1 m = (s2, Return (take m (drop k (drop k d @ drop (length d - k) (take (length d) c))))) \<and>
    (length d \<le> 2 * k \<longrightarrow> drop k (drop k d @ drop (length d - k) (take (length d) c)) = drop k (take (length d) c))"
proof -
  have dec: "Deobfuscate ob c = (ob, Return d)"
    using obfs.recovered [OF works enc] by simp
  define b where "b = blit (blit (so_readBuf s) 0 c) 0 (drop k d)"
  define s1 where "s1 = s\<lparr>so_readBuf := b, so_in := rest, so_obf := ob, so_readPos := k, so_readLen := length d - k\<rparr>"
  have r1: "stream_obf_Read s k = (s1, Return (take k d))"
    using stream_obf_Read_chunk [of s c rest ob d k] s fits(1) dec k by (simp add: Let_def s1_def b_def)
  have b: "b = drop k d @ drop (length d - k) (c @ drop (length c) (so_readBuf s))"
    using fits k by (simp add: b_def blit_fits)
  have len: "length b = length (so_readBuf s)"
    by (simp add: b_def)
  have "go_slice b (int k) (int (length d)) = Return (take (length d - k) (drop k b))"
    using fits k len by (simp add: slice_of_nat)
  moreover have "take (length d - k) (drop k b) = drop k (drop k d @ drop (length d - k) (take (length d) c))"
  proof -
    have "take (length d - k) (drop k b) = drop k (take (length d) b)"
      using k by (simp add: drop_take)
    also have "take (length d) b = drop k d @ take k (drop (length d - k) c)"
      using fits k by (simp add: b)
    also have "take k (drop (length d - k) c) = drop (length d - k) (take (length d) c)"
      using k by (simp add: drop_take)
    finally show ?thesis .
  qed
  ultimately obtain s2 where "stream_obf_Read s1 m =
      (s2, Return (take m (drop k (drop k d @ drop (length d - k) (take (length d) c)))))"
    using k by (simp add: stream_obf_Read_def s1_def Let_def)
  moreover have "drop k (drop k d @ drop (length d - k) (take (length d) c)) = drop k (take (length d) c)"
    if "length d \<le> 2 * k"
    using that k by (simp add: add.commute)
  ultimately show ?thesis
    using r1 by blast
qed

section \<open>Methods that never work\<close>

lemma wrong_nonce: "length nonce \<noteq> ae_NonceSize (ac_aead a) \<Longrightarrow> cipher_Seal a dst nonce p ad = Panic"
  by (simp add: cipher_Seal_def aead_Seal_def)

text \<open>
  The XTLS and Vision methods can be constructed but never used: the nonce they take
  from the session counter has 8 bytes, the cipher wants 12, and obfuscating panics on
  every message in every state of the counter; so does de-obfuscating any XTLS frame that
  passes the length checks.
\<close>

lemma xtls_vision_panic:
  assumes lib: "cipherlib_ok lib" and m: "m \<in> {MethodXTLS, MethodVision}"
    and new: "NewObfuscator lib en m config = (config', Return ob)"
  shows "length (oc_Key config') = 32 \<and> snd (Obfuscate en' ob data) = Panic \<and>
    snd (Obfuscate en'' (fst (Obfuscate en' ob data)) data') = Panic \<and>
    (m = MethodVision \<or> snd (Deobfuscate ob ([1] @ put16 (word_of_nat (length data)) @ [0, 0] @ take 65535 data)) = Panic)"
proof -
  let ?key = "default_key en (oc_Key config)"
  obtain a where a: "NewAEADCipher lib CipherAES256GCM ?key = Return a"
      and key: "oc_Key config' = ?key"
      and ob: "(\<exists>fl. ob = XTLSObfuscator a (NewSessionCounter 0) fl 1 True \<and> m = MethodXTLS) \<or>
        ob = VisionObfuscator a (NewSessionCounter 0) \<and> m = MethodVision"
    using m new by (auto simp: NewObfuscator_def NewXTLSObfuscator_def NewVisionObfuscator_def Let_def go_bind_Return_iff)
  have n: "ae_NonceSize (ac_aead a) = 12"
    using NewAEADCipher_ok [OF lib a] by (simp add: aead_ok_def)
  have "length ?key = 32"
    using a by (simp add: NewAEADCipher_def split: if_splits)
  moreover have seal: "cipher_Seal a dst (snd (counter_Next sc)) p ad = Panic" for dst sc p ad
    by (simp add: wrong_nonce n)
  then have "xtls_Obfuscate e a (snd (counter_Next sc)) cmd spl p = Panic"
    and "vision_Obfuscate a (snd (counter_Next sc)) p = Panic" for e sc cmd spl p
    by (simp_all add: xtls_Obfuscate_def vision_Obfuscate_def Let_def)
  moreover have "snd (xtls_Deobfuscate a sc ([1] @ put16 (word_of_nat (length data)) @ [0, 0] @ take 65535 data)) = Panic" for sc
  proof -
    have "unat (word_of_nat (length data) :: u16) \<le> length (take 65535 data)"
      using unat_bound [of "word_of_nat (length data) :: u16"] by (simp add: unat_of_nat)
    moreover have "cipher_Open a [] (snd (counter_Next sc)) ct [] = Panic" for ct
      by (simp add: cipher_Open_def aead_Open_def n)
    ultimately show ?thesis
      by (auto simp: xtls_Deobfuscate_def Let_def case_prod_unfold min_less_iff_disj)
  qed
  ultimately show ?thesis
    using ob key by (auto simp: case_prod_unfold)
qed

end
