(* ===== verification/Reality.thy ===== *)
theory Reality
  imports Go_Prelude
begin

text \<open>
  \<open>app/features/stealth/reality.go\<close>: the verification message a client sends first, the server's
  check of it, the list of allowed identifiers and the key exchange. Ed25519, X25519 and SHA-256
  are arguments; the library panics on keys of the wrong length, which is part of the argument's
  type. Times are nanoseconds.
\<close>

definition ErrRealityVerification :: error where
  "ErrRealityVerification = Error ''reality: verification failed''"

record edlib =
  ed_Sign :: "bytes \<Rightarrow> bytes \<Rightarrow> bytes go"
  ed_Verify :: "bytes \<Rightarrow> bytes \<Rightarrow> bytes \<Rightarrow> bool go"
  ed_Sum256 :: "bytes \<Rightarrow> bytes"

section \<open>The client\<close>

text \<open>The fields that nothing reads are left out; a \<open>nil\<close> identifier is \<open>None\<close>.\<close>

record reality_handshake =
  rc_ShortID :: "bytes option"
  rc_PublicKey :: bytes
  rc_PrivateKey :: bytes
  rc_TimeDiff :: int

record reality_client =
  cl_config :: reality_handshake
  cl_pubKey :: bytes
  cl_priKey :: bytes

text \<open>The generated key pair replaces also a public key that was configured.\<close>

definition NewRealityClient ::
  "bytes \<Rightarrow> (bytes \<times> bytes) go \<Rightarrow> reality_handshake \<Rightarrow> reality_handshake \<times> reality_client go" where
  "NewRealityClient random8 generated config =
     (let config1 = (if rc_ShortID config = None then config\<lparr>rc_ShortID := Some random8\<rparr> else config);
          pub = (if length (rc_PublicKey config1) > 0 then rc_PublicKey config1 else [])
      in if length (rc_PrivateKey config1) > 0
         then (config1, Return \<lparr>cl_config = config1, cl_pubKey = pub, cl_priKey = rc_PrivateKey config1\<rparr>)
         else case generated of
           Return (gpub, gpri) \<Rightarrow> (config1, Return \<lparr>cl_config = config1, cl_pubKey = gpub, cl_priKey = gpri\<rparr>)
         | Fail e \<Rightarrow> (config1, Fail e)
         | Panic \<Rightarrow> (config1, Panic))"

record verification =
  vf_TimeStamp :: u64
  vf_ShortID :: bytes
  vf_Signature :: bytes
  vf_PublicKey :: bytes

definition encodeVerification :: "verification \<Rightarrow> bytes" where
  "encodeVerification v =
     (let total = 10 + 8 + 1 + length (vf_ShortID v) + 2 + length (vf_Signature v) + 2 + length (vf_PublicKey v);
          buf = replicate total 0;
          buf = blit buf 0 (put64 (vf_TimeStamp v));
          buf = buf[8 := word_of_nat (length (vf_ShortID v)), 9 := 0];
          buf = blit buf 10 (vf_ShortID v);
          off = 10 + length (vf_ShortID v);
          buf = blit buf off (put16 (word_of_nat (length (vf_Signature v))));
          off = off + 2;
          buf = blit buf off (vf_Signature v);
          off = off + length (vf_Signature v);
          buf = blit buf off (put16 (word_of_nat (length (vf_PublicKey v))));
          off = off + 2
      in blit buf off (vf_PublicKey v))"

text \<open>Seconds since the epoch, rounded down.\<close>

definition unix_seconds :: "int \<Rightarrow> u64" where
  "unix_seconds t = word_of_int (t div 1000000000)"

definition short_id :: "reality_handshake \<Rightarrow> bytes" where
  "short_id config = (case rc_ShortID config of None \<Rightarrow> [] | Some s \<Rightarrow> s)"

definition hello_bytes :: "u64 \<Rightarrow> bytes \<Rightarrow> bytes \<Rightarrow> bytes" where
  "hello_bytes ts random32 sid = put64 ts @ random32 @ sid"

definition BuildClientHello :: "edlib \<Rightarrow> int \<Rightarrow> bytes \<Rightarrow> reality_client \<Rightarrow> bytes go" where
  "BuildClientHello lib now random32 cl =
     (let ts = unix_seconds (now + rc_TimeDiff (cl_config cl));
          sid = short_id (cl_config cl)
      in go_map (\<lambda>sg. encodeVerification
             \<lparr>vf_TimeStamp = ts, vf_ShortID = sid, vf_Signature = sg, vf_PublicKey = cl_pubKey cl\<rparr>)
           (ed_Sign lib (cl_priKey cl) (ed_Sum256 lib (hello_bytes ts random32 sid))))"

section \<open>The server\<close>

text \<open>A field of a known length at an offset that was checked, and a two-byte length.\<close>

definition field_at :: "bytes \<Rightarrow> nat \<Rightarrow> nat \<Rightarrow> bytes go" where
  "field_at data off n =
     (if off + n > length data then Fail ErrRealityVerification
      else go_slice data (int off) (int (off + n)))"

definition length_at :: "bytes \<Rightarrow> nat \<Rightarrow> nat go" where
  "length_at data off = go_map (\<lambda>bs. unat (get16 bs)) (field_at data off 2)"

definition decodeVerification :: "bytes \<Rightarrow> verification go" where
  "decodeVerification data =
     (if length data < 10 then Fail ErrRealityVerification
      else
        let n = unat (data ! 8)
        in go_bind (field_at data 10 n) (\<lambda>sid.
           go_bind (length_at data (10 + n)) (\<lambda>m.
           go_bind (field_at data (12 + n) m) (\<lambda>sg.
           go_bind (length_at data (12 + n + m)) (\<lambda>k.
           go_bind (field_at data (14 + n + m) k) (\<lambda>pk.
             Return \<lparr>vf_TimeStamp = get64 (take 8 data), vf_ShortID = sid, vf_Signature = sg,
                     vf_PublicKey = pk\<rparr>))))))"

record reality_handler =
  rh_config :: reality_handshake
  rh_client :: reality_client
  rh_allowList :: "bytes \<rightharpoonup> bool"

text \<open>The list is keyed by the hexadecimal form, which is one for every identifier.\<close>

definition NewRealityHandshakeHandler ::
  "bytes \<Rightarrow> (bytes \<times> bytes) go \<Rightarrow> reality_handshake \<Rightarrow> reality_handler go" where
  "NewRealityHandshakeHandler random8 generated config =
     (case NewRealityClient random8 generated config of
        (config1, r) \<Rightarrow>
          go_map (\<lambda>client. \<lparr>rh_config = config1, rh_client = client, rh_allowList = Map.empty\<rparr>) r)"

definition AddAllowedShortID :: "bytes \<Rightarrow> reality_handler \<Rightarrow> reality_handler" where
  "AddAllowedShortID sid rh = rh\<lparr>rh_allowList := (rh_allowList rh)(sid \<mapsto> True)\<rparr>"

definition RemoveAllowedShortID :: "bytes \<Rightarrow> reality_handler \<Rightarrow> reality_handler" where
  "RemoveAllowedShortID sid rh = rh\<lparr>rh_allowList := (rh_allowList rh)(sid := None)\<rparr>"

text \<open>The age of a message in seconds, in 64 bits; it may be two minutes in either direction.\<close>

definition too_old :: "u64 \<Rightarrow> u64 \<Rightarrow> bool" where
  "too_old now ts =
     (let diff = now - ts; age = (if sint diff < 0 then - diff else diff) in sint age > 120)"

definition refused :: "reality_handler \<Rightarrow> bytes \<Rightarrow> bool" where
  "refused rh sid = (case rh_allowList rh sid of None \<Rightarrow> False | Some allowed \<Rightarrow> \<not> allowed)"

text \<open>\<open>received\<close> is what one read into the 256-byte buffer gives.\<close>

definition VerifyConnection :: "edlib \<Rightarrow> int \<Rightarrow> bytes go \<Rightarrow> reality_handler \<Rightarrow> verification go" where
  "VerifyConnection lib now received rh =
     go_bind received (\<lambda>chunk.
       let data = take 256 chunk
       in go_bind (decodeVerification data) (\<lambda>v.
            if too_old (unix_seconds (now + rc_TimeDiff (rh_config rh))) (vf_TimeStamp v)
            then Fail ErrRealityVerification
            else if refused rh (vf_ShortID v) then Fail ErrRealityVerification
            else
              go_bind (go_slice data 0 (int (length data) - int (length (vf_PublicKey v)) - 2)) (\<lambda>signed.
              go_bind (ed_Verify lib (vf_PublicKey v) (ed_Sum256 lib signed) (vf_Signature v)) (\<lambda>ok.
                if ok then Return v else Fail ErrRealityVerification))))"

section \<open>Key exchange\<close>

record ecdhlib =
  ec_NewPublicKey :: "bytes \<Rightarrow> bytes go"
  ec_ECDH :: "bytes \<Rightarrow> bytes \<Rightarrow> bytes go"

record key_exchange =
  kx_privateKey :: bytes
  kx_publicKey :: bytes
  kx_peerKey :: "bytes option"
  kx_sharedSecret :: "bytes option"

definition NewECDHKeyExchange :: "(bytes \<times> bytes) go \<Rightarrow> key_exchange go" where
  "NewECDHKeyExchange generated =
     go_map (\<lambda>(pri, pub). \<lparr>kx_privateKey = pri, kx_publicKey = pub, kx_peerKey = None, kx_sharedSecret = None\<rparr>)
       generated"

definition SetPeerPublicKey :: "ecdhlib \<Rightarrow> bytes \<Rightarrow> key_exchange \<Rightarrow> key_exchange \<times> unit go" where
  "SetPeerPublicKey lib peerKey e =
     (case ec_NewPublicKey lib peerKey of
        Fail err \<Rightarrow> (e, Fail err)
      | Panic \<Rightarrow> (e, Panic)
      | Return pk \<Rightarrow>
          let e1 = e\<lparr>kx_peerKey := Some pk\<rparr>
          in (case ec_ECDH lib (kx_privateKey e1) pk of
                Fail err \<Rightarrow> (e1, Fail err)
              | Panic \<Rightarrow> (e1, Panic)
              | Return secret \<Rightarrow> (e1\<lparr>kx_sharedSecret := Some secret\<rparr>, Return ())))"

text \<open>The loop's body never changes the length it tests, so it is a function that may not return.\<close>

partial_function (option) derive_loop :: "(bytes \<Rightarrow> bytes) \<Rightarrow> bytes \<Rightarrow> int \<Rightarrow> bytes \<Rightarrow> bytes option" where
  "derive_loop sha secret n key =
     (if int (length key) < n then
        let half = length key div 2
        in derive_loop sha secret n (blit key half (sha (secret @ take half key)))
      else Some (take (nat n) key))"

definition DeriveKey :: "(bytes \<Rightarrow> bytes) \<Rightarrow> int \<Rightarrow> key_exchange \<Rightarrow> bytes go option" where
  "DeriveKey sha n e =
     (case kx_sharedSecret e of
        None \<Rightarrow> Some (Fail (Error ''no shared secret''))
      | Some secret \<Rightarrow>
          if n < 0 then Some Panic
          else map_option Return (derive_loop sha secret n (blit (replicate (nat n) 0) 0 (sha secret))))"

section \<open>Lemmas\<close>

text \<open>The layout of an encoded message: nine unused bytes follow the public key.\<close>

lemma put16_length_bound: "n < 65536 \<Longrightarrow> unat (get16 (put16 (word_of_nat n))) = n"
  by (simp add: unat_of_nat)

lemma encodeVerification_layout:
  "encodeVerification v =
     put64 (vf_TimeStamp v) @ [word_of_nat (length (vf_ShortID v)), 0] @ vf_ShortID v @
     put16 (word_of_nat (length (vf_Signature v))) @ vf_Signature v @
     put16 (word_of_nat (length (vf_PublicKey v))) @ vf_PublicKey v @ replicate 9 0"
proof -
  let ?a = "vf_ShortID v" and ?b = "vf_Signature v" and ?c = "vf_PublicKey v"
  let ?t = "put64 (vf_TimeStamp v)" and ?m = "put16 (word_of_nat (length ?b))" and ?k = "put16 (word_of_nat (length ?c))"
  define z :: "nat \<Rightarrow> bytes" where "z n = replicate n 0" for n
  have z: "length (z n) = n" "z (n + m) = z n @ z m" for n m
    by (simp_all add: z_def replicate_add)
  have "10 + 8 + 1 + length ?a + 2 + length ?b + 2 + length ?c =
      8 + (1 + (1 + (length ?a + (2 + (length ?b + (2 + (length ?c + 9)))))))"
    by simp
  then have buf: "replicate (10 + 8 + 1 + length ?a + 2 + length ?b + 2 + length ?c) 0 =
      z 8 @ z 1 @ z 1 @ z (length ?a) @ z 2 @ z (length ?b) @ z 2 @ z (length ?c) @ z 9"
    by (simp only: z_def [symmetric] z)
  have one: "z (Suc 0) = [0]"
    by (simp add: z_def)
  define hd8 where "hd8 = ?t @ [word_of_nat (length ?a), 0]"
  have b1: "(blit (z 8 @ z 1 @ z 1 @ r) 0 ?t)[8 := word_of_nat (length ?a), 9 := 0] = hd8 @ r" for r
    using blit_middle [of ?t "z 8" 0 "[]" "z 1 @ z 1 @ r"]
    by (simp add: z one hd8_def list_update_append nth_append)
  have h: "length hd8 = 10"
    by (simp add: hd8_def)
  have b2: "blit (hd8 @ z (length ?a) @ r) 10 ?a = hd8 @ ?a @ r" for r
    by (rule blit_middle) (simp_all add: z h)
  have b3: "blit (hd8 @ ?a @ z 2 @ r) (10 + length ?a) ?m = hd8 @ ?a @ ?m @ r" for r
    using blit_middle [of ?m "z 2" "10 + length ?a" "hd8 @ ?a" r] by (simp add: z h)
  have b4: "blit (hd8 @ ?a @ ?m @ z (length ?b) @ r) (10 + length ?a + 2) ?b = hd8 @ ?a @ ?m @ ?b @ r" for r
    using blit_middle [of ?b "z (length ?b)" "10 + length ?a + 2" "hd8 @ ?a @ ?m" r] by (simp add: z h)
  have b5: "blit (hd8 @ ?a @ ?m @ ?b @ z 2 @ r) (10 + length ?a + 2 + length ?b) ?k = hd8 @ ?a @ ?m @ ?b @ ?k @ r" for r
    using blit_middle [of ?k "z 2" "10 + length ?a + 2 + length ?b" "hd8 @ ?a @ ?m @ ?b" r] by (simp add: z h)
  have b6: "blit (hd8 @ ?a @ ?m @ ?b @ ?k @ z (length ?c) @ r) (10 + length ?a + 2 + length ?b + 2) ?c =
      hd8 @ ?a @ ?m @ ?b @ ?k @ ?c @ r" for r
    using blit_middle [of ?c "z (length ?c)" "10 + length ?a + 2 + length ?b + 2" "hd8 @ ?a @ ?m @ ?b @ ?k" r]
    by (simp add: z h)
  have "encodeVerification v = hd8 @ ?a @ ?m @ ?b @ ?k @ ?c @ z 9"
    unfolding encodeVerification_def Let_def buf b1 b2 b3 b4 b5 b6 ..
  then show ?thesis
    by (simp add: hd8_def z_def)
qed

lemma field_at_middle [simp]: "off = length xs \<Longrightarrow> n = length ys \<Longrightarrow> field_at (xs @ ys @ zs) off n = Return ys"
  by (simp add: field_at_def go_slice_def)

lemma length_at_middle: "off = length xs \<Longrightarrow> n < 65536 \<Longrightarrow> length_at (xs @ put16 (word_of_nat n) @ zs) off = Return n"
  by (simp add: length_at_def unat_of_nat)

lemma decode_fields:
  assumes "length sid < 256" "length sg < 65536" "length pk < 65536"
  shows "decodeVerification (put64 ts @ [word_of_nat (length sid), x] @ sid @ put16 (word_of_nat (length sg)) @ sg @
      put16 (word_of_nat (length pk)) @ pk @ rest) =
    Return \<lparr>vf_TimeStamp = ts, vf_ShortID = sid, vf_Signature = sg, vf_PublicKey = pk\<rparr>"
proof -
  define h where "h = put64 ts @ [word_of_nat (length sid), x]"
  define m where "m = put16 (word_of_nat (length sg))"
  define k where "k = put16 (word_of_nat (length pk))"
  let ?d = "h @ sid @ m @ sg @ k @ pk @ rest"
  have h: "length h = 10" "unat (?d ! 8) = length sid" "take 8 ?d = put64 ts"
    using assms(1) by (simp_all add: h_def nth_append unat_of_nat)
  have len: "length m = 2" "length k = 2"
    by (simp_all add: m_def k_def)
  have "field_at ?d 10 (length sid) = Return sid"
    using h by simp
  moreover have "length_at ?d (10 + length sid) = Return (length sg)"
    using length_at_middle [of "10 + length sid" "h @ sid" "length sg"] assms(2) h by (simp add: m_def)
  moreover have "field_at ?d (12 + length sid) (length sg) = Return sg"
    using field_at_middle [of "12 + length sid" "h @ sid @ m" "length sg" sg] h len by simp
  moreover have "length_at ?d (12 + length sid + length sg) = Return (length pk)"
    using length_at_middle [of "12 + length sid + length sg" "h @ sid @ m @ sg" "length pk"] assms(3) h len
    by (simp add: k_def)
  moreover have "field_at ?d (14 + length sid + length sg) (length pk) = Return pk"
    using field_at_middle [of "14 + length sid + length sg" "h @ sid @ m @ sg @ k" "length pk" pk] h len by simp
  ultimately have "decodeVerification ?d = Return \<lparr>vf_TimeStamp = ts, vf_ShortID = sid, vf_Signature = sg, vf_PublicKey = pk\<rparr>"
    using h by (simp add: decodeVerification_def Let_def)
  then show ?thesis
    by (simp add: h_def m_def k_def)
qed

lemma field_at_not_Panic [simp]: "field_at data off n \<noteq> Panic"
  by (simp add: field_at_def go_slice_def)

lemma length_at_not_Panic [simp]: "length_at data off \<noteq> Panic"
  by (simp add: length_at_def)

lemma field_at_length: "field_at data off n = Return ys \<Longrightarrow> off + n \<le> length data \<and> length ys = n"
  by (auto simp: field_at_def go_slice_def split: if_splits)

lemma decode_bounds:
  "decodeVerification data = Return v \<Longrightarrow>
     length (vf_ShortID v) + length (vf_Signature v) + length (vf_PublicKey v) + 14 \<le> length data"
  by (auto simp: decodeVerification_def Let_def go_bind_Return_iff dest!: field_at_length split: if_splits)

section \<open>Properties\<close>

text \<open>
  Messages round trip: what the client encodes the server decodes to the same fields,
  for identifiers shorter than 256 bytes and keys and signatures shorter than 64 KiB.
\<close>

lemma verification_roundtrip:
  assumes "length (vf_ShortID v) < 256" "length (vf_Signature v) < 65536" "length (vf_PublicKey v) < 65536"
  shows "decodeVerification (encodeVerification v) = Return v"
  unfolding encodeVerification_layout append_Cons append_Nil
  using decode_fields [OF assms, of "vf_TimeStamp v" 0 "replicate 9 0"] by simp

text \<open>The identifiers added and removed since the handler was made.\<close>

datatype list_op = Allow bytes | Disallow bytes

fun list_do :: "list_op \<Rightarrow> reality_handler \<Rightarrow> reality_handler" where
  "list_do (Allow sid) rh = AddAllowedShortID sid rh"
| "list_do (Disallow sid) rh = RemoveAllowedShortID sid rh"

lemma never_refused:
  "(\<And>sid. rh_allowList rh sid \<noteq> Some False) \<Longrightarrow>
     \<not> refused (fold list_do ops rh) sid \<and> rh_config (fold list_do ops rh) = rh_config rh"
proof (induction ops arbitrary: rh)
  case Nil
  from Nil [of sid] show ?case
    by (auto simp: refused_def split: option.split)
next
  case (Cons op ops)
  have "rh_allowList (list_do op rh) s \<noteq> Some False" for s
    using Cons.prems by (cases op) (simp_all add: AddAllowedShortID_def RemoveAllowedShortID_def)
  from Cons.IH [OF this] show ?case
    by (cases op) (simp_all add: AddAllowedShortID_def RemoveAllowedShortID_def)
qed

lemma too_old_iff: "too_old now ts \<longleftrightarrow> \<not> (\<bar>sint (now - ts)\<bar> \<le> 120 \<or> now - ts = 2 ^ 63)"
proof (cases "now - ts = 2 ^ 63")
  case True
  then show ?thesis
    by (simp add: too_old_def)
next
  case False
  define d where "d = now - ts"
  have range: "- (2 ^ 63) \<le> sint d" "sint d < 2 ^ 63"
    using sint_greater_eq [of d] sint_lt [of d] by simp_all
  have "sint d \<noteq> - (2 ^ 63)"
  proof
    assume "sint d = - (2 ^ 63)"
    moreover have "d = word_of_int (sint d)"
      by simp
    ultimately have "d = word_of_int (- (2 ^ 63))"
      by (simp only:)
    with False show False
      by (simp add: d_def)
  qed
  then have "sint (- d) = - sint d"
    using range by (simp add: sint_word_ariths signed_take_bit_int_eq_self)
  then show ?thesis
    using False by (auto simp: too_old_def Let_def d_def [symmetric])
qed

text \<open>
  C19: which messages the server accepts: those that decode, whose time differs from its own
  by at most two minutes or by exactly \<open>2 ^ 63\<close> seconds (where the 64-bit age overflows), and
  whose signature verifies, with the key the message itself carries, over everything before the
  last \<open>k + 2\<close> bytes of the message, for a key of \<open>k\<close> bytes. The list of allowed identifiers
  never decides: no history of additions and removals refuses anyone.
\<close>

theorem reality_accepts_iff:
  assumes "NewRealityHandshakeHandler random8 generated config = Return rh"
  shows "VerifyConnection lib now received (fold list_do ops rh) = Return v \<longleftrightarrow>
    (\<exists>chunk. received = Return chunk \<and> decodeVerification (take 256 chunk) = Return v \<and>
       (let age = unix_seconds (now + rc_TimeDiff config) - vf_TimeStamp v
        in \<bar>sint age\<bar> \<le> 120 \<or> age = 2 ^ 63) \<and>
       ed_Verify lib (vf_PublicKey v)
         (ed_Sum256 lib (take (length (take 256 chunk) - length (vf_PublicKey v) - 2) (take 256 chunk)))
         (vf_Signature v) = Return True)"
proof -
  have rh: "rh_allowList rh = Map.empty" "rc_TimeDiff (rh_config rh) = rc_TimeDiff config"
    using assms by (auto simp: NewRealityHandshakeHandler_def NewRealityClient_def go_map_Return_iff Let_def
        split: prod.splits if_splits go.splits)
  then have "refused (fold list_do ops rh) sid = False"
      and "rc_TimeDiff (rh_config (fold list_do ops rh)) = rc_TimeDiff config" for sid
    using never_refused [of rh ops] by simp_all
  note rh' = this
  have sl: "go_slice d 0 (int (length d) - int (length (vf_PublicKey w)) - 2) =
      Return (take (length d - length (vf_PublicKey w) - 2) d)" if "decodeVerification d = Return w" for d w
  proof -
    have "int (length d) - int (length (vf_PublicKey w)) - 2 = int (length d - length (vf_PublicKey w) - 2)"
      using decode_bounds [OF that] by simp
    then show ?thesis
      using slice_of_nat [of d 0 "length d - length (vf_PublicKey w) - 2"] by simp
  qed
  have "go_bind (decodeVerification d) (\<lambda>v.
      if too_old (unix_seconds (now + rc_TimeDiff config)) (vf_TimeStamp v) then Fail ErrRealityVerification
      else go_bind (go_slice d 0 (int (length d) - int (length (vf_PublicKey v)) - 2)) (\<lambda>signed.
        go_bind (ed_Verify lib (vf_PublicKey v) (ed_Sum256 lib signed) (vf_Signature v)) (\<lambda>ok.
          if ok then Return v else Fail ErrRealityVerification))) = Return v \<longleftrightarrow>
    decodeVerification d = Return v \<and>
    \<not> too_old (unix_seconds (now + rc_TimeDiff config)) (vf_TimeStamp v) \<and>
    ed_Verify lib (vf_PublicKey v) (ed_Sum256 lib (take (length d - length (vf_PublicKey v) - 2) d)) (vf_Signature v) =
      Return True" for d
    by (cases "decodeVerification d") (auto simp: sl go_bind_Return_iff)
  note accepts = this
  show ?thesis
    unfolding VerifyConnection_def rh' if_False Let_def go_bind_Return_iff [of received] accepts
    by (simp only: too_old_iff not_not)
qed

theorem reality_accepts_iff_witness:
  "\<exists>rh v. NewRealityHandshakeHandler [] Panic \<lparr>rc_ShortID = Some [], rc_PublicKey = [], rc_PrivateKey = [1], rc_TimeDiff = 0\<rparr> = Return rh \<and>
     VerifyConnection \<lparr>ed_Sign = (\<lambda>_ m. Return m), ed_Verify = (\<lambda>_ _ _. Return True), ed_Sum256 = (\<lambda>m. m)\<rparr> 5000000000
       (Return (put64 (5 + 2 ^ 63) @ replicate 6 0)) (fold list_do [Allow [1], Disallow [1]] rh) = Return v"
proof -
  let ?c = "\<lparr>rc_ShortID = Some [], rc_PublicKey = [], rc_PrivateKey = [1], rc_TimeDiff = 0\<rparr>"
  let ?lib = "\<lparr>ed_Sign = (\<lambda>_ m. Return m), ed_Verify = (\<lambda>_ _ _. Return True), ed_Sum256 = (\<lambda>m. m)\<rparr>"
  let ?v = "\<lparr>vf_TimeStamp = 5 + 2 ^ 63, vf_ShortID = [], vf_Signature = [], vf_PublicKey = []\<rparr>"
  obtain rh where rh: "NewRealityHandshakeHandler [] Panic ?c = Return rh"
    by (simp add: NewRealityHandshakeHandler_def NewRealityClient_def Let_def)
  define d where "d = put64 (5 + 2 ^ 63) @ replicate 6 0"
  have zeros: "replicate 6 (0 :: byte) = [word_of_nat (length ([] :: bytes)), 0] @ [] @
      put16 (word_of_nat (length ([] :: bytes))) @ [] @ put16 (word_of_nat (length ([] :: bytes))) @ [] @ []"
    by (simp add: put16_bytes numeral_eq_Suc)
  have dec: "decodeVerification d = Return ?v"
    unfolding d_def zeros by (rule decode_fields) simp_all
  have whole: "take 256 d = d"
    by (simp add: d_def)
  have "VerifyConnection ?lib 5000000000 (Return d) (fold list_do [Allow [1], Disallow [1]] rh) = Return ?v"
    unfolding reality_accepts_iff [OF rh]
    by (intro exI [of _ d]) (simp only: whole dec, simp add: unix_seconds_def)
  with rh show ?thesis
    unfolding d_def by blast
qed

lemma derive_loop_exit: "n \<le> int (length key) \<Longrightarrow> derive_loop sha secret n key = Some (take (nat n) key)"
  by (subst derive_loop.simps) simp

text \<open>A key longer than the digest ends with zeros: the loop is never entered.\<close>

lemma DeriveKey_eq:
  assumes "kx_sharedSecret e = Some secret"
  shows "DeriveKey sha (int n) e = Some (Return (take n (sha secret) @ replicate (n - length (sha secret)) 0))"
proof -
  have "blit (replicate n 0) 0 (sha secret) = take n (sha secret) @ replicate (n - length (sha secret)) 0"
    by (simp add: blit_def copied_def min_def)
  then show ?thesis
    using assms by (simp add: DeriveKey_def derive_loop_exit)
qed

end
