(* ===== verification/Xtls.thy ===== *)
theory Xtls
  imports Obfuscator
begin

text \<open>
  \<open>app/features/stealth/xtls.go\<close> and \<open>app/features/stealth/vision.go\<close>: the flow controller that
  seals frames, the connection over it, the server that answers with a certificate of its own, the
  fingerprint names, and the connection and the flow that pad traffic. What one read of the
  connection below delivers is an argument; random bytes are arguments.
\<close>

section \<open>The flow controller\<close>

record flow_controller =
  fc_cipher :: aead_cipher
  fc_counter :: session_counter
  fc_flow :: string
  fc_direct :: bool

definition NewXTLSFlowController :: "aead_cipher \<Rightarrow> string \<Rightarrow> flow_controller" where
  "NewXTLSFlowController cipher flow =
     \<lparr>fc_cipher = cipher, fc_counter = NewSessionCounter 0, fc_flow = flow, fc_direct = False\<rparr>"

definition EnableDirect :: "flow_controller \<Rightarrow> flow_controller" where
  "EnableDirect x = x\<lparr>fc_direct := True\<rparr>"

definition IsDirect :: "flow_controller \<Rightarrow> bool" where
  "IsDirect x = fc_direct x"

text \<open>The length field holds sixteen bits of the length of what was sealed.\<close>

definition EncryptFrame :: "bytes \<Rightarrow> flow_controller \<Rightarrow> flow_controller \<times> bytes go" where
  "EncryptFrame data x =
     (case counter_Next (fc_counter x) of
        (counter, nonce) \<Rightarrow>
          (x\<lparr>fc_counter := counter\<rparr>,
           go_map (\<lambda>encrypted. put16 (word_of_nat (length encrypted)) @ encrypted)
             (cipher_Seal (fc_cipher x) [] nonce data [])))"

definition DecryptFrame :: "bytes \<Rightarrow> flow_controller \<Rightarrow> flow_controller \<times> bytes go" where
  "DecryptFrame data x =
     (if length data < 2 then (x, Fail UnexpectedEOF)
      else
        let frameSize = unat (get16 (take 2 data))
        in if 2 + frameSize > length data then (x, Fail UnexpectedEOF)
           else case counter_Next (fc_counter x) of
             (counter, nonce) \<Rightarrow>
               (x\<lparr>fc_counter := counter\<rparr>,
                cipher_Open (fc_cipher x) [] nonce (take frameSize (drop 2 data)) []))"

section \<open>The connection\<close>

record xtls_conn =
  xc_conn :: conn
  xc_controller :: flow_controller

definition NewXTLSConn :: "conn \<Rightarrow> flow_controller \<Rightarrow> xtls_conn" where
  "NewXTLSConn c controller = \<lparr>xc_conn = c, xc_controller = controller\<rparr>"

text \<open>
  \<open>received\<close> is what the read below puts into the buffer it is given: the caller's in direct
  mode, one of 64 KiB otherwise. A chunk is decrypted as one frame; what follows it is dropped.
\<close>

definition xtls_Read :: "nat \<Rightarrow> bytes go \<Rightarrow> xtls_conn \<Rightarrow> xtls_conn \<times> bytes go" where
  "xtls_Read k received x =
     (if IsDirect (xc_controller x) then (x, go_map (take k) received)
      else case received of
        Fail e \<Rightarrow> (x, Fail e)
      | Panic \<Rightarrow> (x, Panic)
      | Return chunk \<Rightarrow>
          (case DecryptFrame (take 65536 chunk) (xc_controller x) of
             (controller, r) \<Rightarrow> (x\<lparr>xc_controller := controller\<rparr>, go_map (take k) r)))"

definition xtls_Write :: "bytes \<Rightarrow> xtls_conn \<Rightarrow> xtls_conn \<times> nat go" where
  "xtls_Write b x =
     (let send = (\<lambda>frame x. case conn_write frame (xc_conn x) of
            (c, None) \<Rightarrow> (x\<lparr>xc_conn := c\<rparr>, Return (length b))
          | (c, Some e) \<Rightarrow> (x\<lparr>xc_conn := c\<rparr>, Fail e))
      in if IsDirect (xc_controller x) then send b x
         else case EncryptFrame b (xc_controller x) of
           (controller, r) \<Rightarrow>
             (let x1 = x\<lparr>xc_controller := controller\<rparr>
              in case r of Return frame \<Rightarrow> send frame x1 | Fail e \<Rightarrow> (x1, Fail e) | Panic \<Rightarrow> (x1, Panic)))"

section \<open>The server\<close>

text \<open>Names of the certificate; key generation and signing are the library's (\<open>made\<close>).\<close>

definition cert_names :: "string \<Rightarrow> string \<times> string list" where
  "cert_names serverName = (serverName, if serverName = [] then [''localhost''] else [serverName])"

record 'l reality_server =
  rs_config :: reality_config
  rs_cert :: "string \<times> string list"
  rs_listener :: "'l option"
  rs_running :: bool

definition NewRealityServer :: "unit go \<Rightarrow> reality_config \<Rightarrow> 'l reality_server go" where
  "NewRealityServer made config =
     go_map (\<lambda>_. \<lparr>rs_config = config, rs_cert = cert_names (rl_ServerName config), rs_listener = None,
                  rs_running = False\<rparr>) made"

text \<open>\<open>Return None\<close>: a nil listener and a nil error.\<close>

definition server_Listen :: "'l go \<Rightarrow> 'l reality_server \<Rightarrow> 'l reality_server \<times> 'l option go" where
  "server_Listen listened rs =
     (if rs_running rs then (rs, Return None)
      else case listened of
        Return l \<Rightarrow> (rs\<lparr>rs_listener := Some l, rs_running := True\<rparr>, Return (Some l))
      | Fail e \<Rightarrow> (rs, Fail e)
      | Panic \<Rightarrow> (rs, Panic))"

text \<open>The listener that is closed, if any: it is kept, so a second close closes it again.\<close>

definition server_Close :: "'l reality_server \<Rightarrow> 'l reality_server \<times> 'l option" where
  "server_Close rs = (rs\<lparr>rs_running := False\<rparr>, rs_listener rs)"

section \<open>Fingerprints\<close>

definition supportedFingerprints :: "(string \<times> string) list" where
  "supportedFingerprints =
     [(''chrome'', ''chrome_120''), (''firefox'', ''firefox_120''), (''safari'', ''safari_17''),
      (''ios'', ''ios_17''), (''android'', ''android_14''), (''edge'', ''edge_120''),
      (''360'', ''360_13''), (''qq'', ''qq_11''), (''random'', ''randomized''),
      (''randomized'', ''randomized'')]"

definition GetFingerprint :: "string \<Rightarrow> string" where
  "GetFingerprint name =
     (case map_of supportedFingerprints name of Some fp \<Rightarrow> fp | None \<Rightarrow> ''randomized'')"

definition charset :: string where
  "charset = ''abcdefghijklmnopqrstuvwxyz0123456789''"

definition randomString :: "(nat \<Rightarrow> nat) \<Rightarrow> nat \<Rightarrow> string" where
  "randomString draw n = map (\<lambda>i. charset ! (draw i mod length charset)) [0..<n]"

definition GenerateRandomFingerprint :: "(nat \<Rightarrow> nat) \<Rightarrow> string" where
  "GenerateRandomFingerprint draw = ''randomized_'' @ randomString draw 8"

section \<open>Vision\<close>

record vision_controller =
  vw_enabled :: bool
  vw_paddingSize :: int

definition NewVisionFlowController :: vision_controller where
  "NewVisionFlowController = \<lparr>vw_enabled = True, vw_paddingSize = 0\<rparr>"

definition vision_Enable :: "vision_controller \<Rightarrow> vision_controller" where
  "vision_Enable v = v\<lparr>vw_enabled := True\<rparr>"

definition vision_Disable :: "vision_controller \<Rightarrow> vision_controller" where
  "vision_Disable v = v\<lparr>vw_enabled := False\<rparr>"

definition PadTraffic :: "(nat \<Rightarrow> byte) \<Rightarrow> bytes \<Rightarrow> int \<Rightarrow> vision_controller \<Rightarrow> bytes" where
  "PadTraffic random data targetSize v =
     (if \<not> vw_enabled v \<or> int (length data) \<ge> targetSize then data
      else let padLen = targetSize - int (length data);
               padLen = (if padLen > 256 then 256 else padLen)
           in data @ random_bytes random (nat padLen))"

definition UnpadTraffic :: "bytes \<Rightarrow> bytes" where
  "UnpadTraffic data = data"

record vision_config =
  vi_Enabled :: bool
  vi_FlowControl :: string
  vi_PaddingSize :: int
  vi_MinPaddingSize :: int
  vi_MaxPaddingSize :: int
  vi_EnableSplice :: bool
  vi_EnableDirectCopy :: bool
  vi_BufferSize :: int

definition DefaultVisionConfig :: vision_config where
  "DefaultVisionConfig =
     \<lparr>vi_Enabled = True, vi_FlowControl = ''xtls-rprx-vision'', vi_PaddingSize = 0,
      vi_MinPaddingSize = 0, vi_MaxPaddingSize = 64, vi_EnableSplice = False,
      vi_EnableDirectCopy = True, vi_BufferSize = 65536\<rparr>"

record vision_conn =
  vc_conn :: conn
  vc_config :: vision_config

definition NewVisionConn :: "conn \<Rightarrow> vision_config option \<Rightarrow> vision_conn go" where
  "NewVisionConn c config =
     (let cfg = (case config of None \<Rightarrow> DefaultVisionConfig | Some cfg \<Rightarrow> cfg)
      in if vi_BufferSize cfg < 0 then Panic else Return \<lparr>vc_conn = c, vc_config = cfg\<rparr>)"

text \<open>Both branches after a read return what was read.\<close>

definition vision_Read :: "nat \<Rightarrow> bytes go \<Rightarrow> vision_conn \<Rightarrow> bytes go" where
  "vision_Read k received v =
     go_bind (go_map (take k) received) (\<lambda>p.
       if vi_Enabled (vc_config v) \<and> vi_PaddingSize (vc_config v) > 0 then Return p else Return p)"

text \<open>\<open>b\<close> is the random byte that decides about the size of the padding.\<close>

definition pad_size :: "byte \<Rightarrow> vision_config \<Rightarrow> int" where
  "pad_size b cfg =
     (if vi_MaxPaddingSize cfg > vi_MinPaddingSize cfg
      then vi_MinPaddingSize cfg + int (unat b) mod (vi_MaxPaddingSize cfg - vi_MinPaddingSize cfg) else 0)"

definition vision_Write :: "byte \<Rightarrow> (nat \<Rightarrow> byte) \<Rightarrow> bytes \<Rightarrow> vision_conn \<Rightarrow> vision_conn \<times> nat go" where
  "vision_Write b random p v =
     (let send = (\<lambda>bs. case conn_write bs (vc_conn v) of
            (c, None) \<Rightarrow> (v\<lparr>vc_conn := c\<rparr>, Return (length p))
          | (c, Some e) \<Rightarrow> (v\<lparr>vc_conn := c\<rparr>, Fail e))
      in if \<not> vi_Enabled (vc_config v) then send p
         else let padSize = pad_size b (vc_config v)
              in if padSize > 0 then send (p @ random_bytes random (nat padSize)) else send p)"

record vision_flow =
  vl_config :: vision_config
  vl_flowCtrl :: vision_controller
  vl_validated :: bool

definition NewVisionFlow :: "vision_config \<Rightarrow> vision_flow" where
  "NewVisionFlow config =
     \<lparr>vl_config = config, vl_flowCtrl = NewVisionFlowController, vl_validated = False\<rparr>"

text \<open>The padded hello is computed and dropped.\<close>

definition OnClientHello :: "(nat \<Rightarrow> byte) \<Rightarrow> bytes \<Rightarrow> vision_flow \<Rightarrow> vision_flow \<times> bytes" where
  "OnClientHello random data vf =
     (if \<not> vi_Enabled (vl_config vf) then (vf, data)
      else let padded = PadTraffic random data (int (length data) + vi_MinPaddingSize (vl_config vf)) (vl_flowCtrl vf)
           in (vf\<lparr>vl_validated := True\<rparr>, data))"

definition OnServerHello :: "(nat \<Rightarrow> byte) \<Rightarrow> bytes \<Rightarrow> vision_flow \<Rightarrow> bytes" where
  "OnServerHello random data vf =
     (if \<not> vi_Enabled (vl_config vf) \<or> \<not> vl_validated vf then data
      else PadTraffic random data (int (length data)) (vl_flowCtrl vf))"

definition IsValidated :: "vision_flow \<Rightarrow> bool" where
  "IsValidated vf = vl_validated vf"

definition flow_Reset :: "vision_flow \<Rightarrow> vision_flow" where
  "flow_Reset vf = vf\<lparr>vl_validated := False, vl_flowCtrl := NewVisionFlowController\<rparr>"

section \<open>Sealed connections\<close>

text \<open>The calls on a controller that its connection and its owner make.\<close>

datatype flow_call = Direct | Encrypt bytes | Decrypt bytes

fun flow_do :: "flow_call \<Rightarrow> flow_controller \<Rightarrow> flow_controller" where
  "flow_do Direct x = EnableDirect x"
| "flow_do (Encrypt data) x = fst (EncryptFrame data x)"
| "flow_do (Decrypt data) x = fst (DecryptFrame data x)"

lemma flow_do_fields [simp]:
  "fc_cipher (flow_do call x) = fc_cipher x"
  "fc_direct (flow_do call x) \<longleftrightarrow> fc_direct x \<or> call = Direct"
  by (cases call; simp add: EnableDirect_def EncryptFrame_def DecryptFrame_def Let_def split: prod.split)+

lemma flow_run_fields:
  "fc_cipher (fold flow_do calls x) = fc_cipher x"
  "fc_direct (fold flow_do calls x) \<longleftrightarrow> fc_direct x \<or> Direct \<in> set calls"
  by (induction calls arbitrary: x) auto

definition whole_frame :: "bytes \<Rightarrow> bool" where
  "whole_frame chunk \<longleftrightarrow> 2 \<le> length chunk \<and> 2 + unat (get16 (take 2 chunk)) \<le> length chunk"

lemma wrong_size_open: "length nonce \<noteq> ae_NonceSize (ac_aead a) \<Longrightarrow> cipher_Open a dst nonce p ad = Panic"
  by (simp add: cipher_Open_def aead_Open_def)

text \<open>
  C34: a sealed connection carries nothing. With any cipher the program can make, and whatever
  happened on its controller: unless direct mode was switched on, every write panics and so does
  every read whose chunk holds a whole frame, because the nonce is the 8-byte counter. In direct
  mode bytes pass as they are.
\<close>

theorem xtls_connection_outcome:
  assumes "cipherlib_ok lib" "NewAEADCipher lib typ key = Return a"
    and "x = NewXTLSConn c (fold flow_do calls (NewXTLSFlowController a flow))" "c_werr c = []"
  shows "if Direct \<in> set calls
    then snd (xtls_Write p x) = Return (length p) \<and> c_out (xc_conn (fst (xtls_Write p x))) = c_out c @ p \<and>
      snd (xtls_Read k (Return chunk) x) = Return (take k chunk)
    else snd (xtls_Write p x) = Panic \<and>
      snd (xtls_Read k (Return chunk) x) = (if whole_frame (take 65536 chunk) then Panic else Fail UnexpectedEOF)"
proof -
  let ?x = "fold flow_do calls (NewXTLSFlowController a flow)"
  have n: "8 \<noteq> ae_NonceSize (ac_aead a)"
    using NewAEADCipher_ok [OF assms(1,2)] by (auto simp: aead_ok_def split: if_splits)
  have f: "fc_cipher ?x = a" "fc_direct ?x \<longleftrightarrow> Direct \<in> set calls"
    by (simp_all add: flow_run_fields NewXTLSFlowController_def)
  have enc: "snd (EncryptFrame p ?x) = Panic"
    by (simp add: EncryptFrame_def f wrong_nonce n case_prod_unfold)
  have dec: "snd (DecryptFrame d ?x) = (if whole_frame d then Panic else Fail UnexpectedEOF)" for d
    by (auto simp: DecryptFrame_def f wrong_size_open n case_prod_unfold whole_frame_def Let_def)
  show ?thesis
    using assms(4) enc dec [of "take 65536 chunk"] f(2)
    by (auto simp: assms(3) NewXTLSConn_def xtls_Write_def xtls_Read_def IsDirect_def Let_def conn_write_def
        case_prod_unfold)
qed

theorem xtls_connection_outcome_witness:
  "snd (xtls_Write [1, 2, 3] (NewXTLSConn \<lparr>c_in = [], c_out = [], c_werr = []\<rparr>
     (fold flow_do [Encrypt [7]] (NewXTLSFlowController \<lparr>ac_aead = null_aead 12, ac_typ = 3\<rparr> [])))) = Panic"
  using xtls_connection_outcome [OF null_lib_ok, of 3 "replicate 32 0" "\<lparr>ac_aead = null_aead 12, ac_typ = 3\<rparr>"
      "NewXTLSConn \<lparr>c_in = [], c_out = [], c_werr = []\<rparr>
        (fold flow_do [Encrypt [7]] (NewXTLSFlowController \<lparr>ac_aead = null_aead 12, ac_typ = 3\<rparr> []))"
      "\<lparr>c_in = [], c_out = [], c_werr = []\<rparr>" "[Encrypt [7]]" "[]" "[1, 2, 3]" 1 "[]"]
  by (simp add: NewAEADCipher_def null_lib_def)

section \<open>Padded connections\<close>

text \<open>A sequence of writes: the byte that decides about the padding, the padding, and the data.\<close>

fun vision_writes ::
  "(byte \<times> (nat \<Rightarrow> byte) \<times> bytes) list \<Rightarrow> vision_conn \<Rightarrow> vision_conn \<times> nat go list" where
  "vision_writes [] v = (v, [])"
| "vision_writes ((b, random, p) # ws) v =
     (case vision_Write b random p v of
        (v1, r) \<Rightarrow> (case vision_writes ws v1 of (v2, rs) \<Rightarrow> (v2, r # rs)))"

definition padded :: "vision_config \<Rightarrow> byte \<times> (nat \<Rightarrow> byte) \<times> bytes \<Rightarrow> bytes" where
  "padded cfg = (\<lambda>(b, random, p). p @ random_bytes random (if vi_Enabled cfg then nat (pad_size b cfg) else 0))"

lemma vision_Write_ok:
  assumes "c_werr (vc_conn v) = []"
  shows "vision_Write b random p v =
    (v\<lparr>vc_conn := (vc_conn v)\<lparr>c_out := c_out (vc_conn v) @ padded (vc_config v) (b, random, p)\<rparr>\<rparr>, Return (length p))"
  using assms by (auto simp: vision_Write_def Let_def conn_write_def padded_def random_bytes_def)

lemma vision_writes_ok:
  assumes "c_werr (vc_conn v) = []" "vision_writes ws v = (v', rs)"
  shows "rs = map (\<lambda>(_, _, p). Return (length p)) ws \<and>
    c_out (vc_conn v') = c_out (vc_conn v) @ concat (map (padded (vc_config v)) ws)"
  using assms
proof (induction ws arbitrary: v v' rs)
  case (Cons w ws)
  obtain b random p where w: "w = (b, random, p)"
    by (cases w)
  from Cons.prems(2) obtain rs' where rs: "rs = Return (length p) # rs'"
    "vision_writes ws (v\<lparr>vc_conn := (vc_conn v)\<lparr>c_out := c_out (vc_conn v) @ padded (vc_config v) w\<rparr>\<rparr>) = (v', rs')"
    by (auto simp: w vision_Write_ok Cons.prems(1) split: prod.splits)
  from Cons.IH [OF _ rs(2)] Cons.prems(1) rs(1) show ?case
    by (simp add: w)
qed simp

lemma padded_longer: "length (padded cfg w) = length (snd (snd w)) +
    (if vi_Enabled cfg then nat (pad_size (fst w) cfg) else 0)"
  by (cases w) (simp add: padded_def)

lemma padded_same:
  "concat (map (padded cfg) ws) = concat (map (\<lambda>(_, _, p). p) ws) \<longleftrightarrow>
     list_all (\<lambda>(b, _, _). \<not> vi_Enabled cfg \<or> pad_size b cfg \<le> 0) ws"
proof
  assume eq: "concat (map (padded cfg) ws) = concat (map (\<lambda>(_, _, p). p) ws)"
  have "length (concat (map (padded cfg) ws)) = length (concat (map (\<lambda>(_, _, p). p) ws)) +
      sum_list (map (\<lambda>(b, _, _). if vi_Enabled cfg then nat (pad_size b cfg) else 0) ws)"
    by (induction ws) (auto simp: padded_longer)
  with eq have "sum_list (map (\<lambda>(b, _, _). if vi_Enabled cfg then nat (pad_size b cfg) else 0) ws) = 0"
    by simp
  then show "list_all (\<lambda>(b, _, _). \<not> vi_Enabled cfg \<or> pad_size b cfg \<le> 0) ws"
    by (auto simp: list_all_iff split: if_splits)
next
  assume "list_all (\<lambda>(b, _, _). \<not> vi_Enabled cfg \<or> pad_size b cfg \<le> 0) ws"
  then show "concat (map (padded cfg) ws) = concat (map (\<lambda>(_, _, p). p) ws)"
    by (induction ws) (auto simp: padded_def random_bytes_def)
qed

text \<open>Reads of the given sizes from a connection that holds some bytes and gives as many as are asked for.\<close>

fun vision_reads :: "nat list \<Rightarrow> bytes \<Rightarrow> vision_conn \<Rightarrow> bytes go" where
  "vision_reads [] s v = Return []"
| "vision_reads (k # ks) s v =
     go_bind (vision_Read k (if s = [] then Fail EOF else Return s) v) (\<lambda>p.
     go_map (append p) (vision_reads ks (drop (length p) s) v))"

lemma vision_reads_take:
  "list_all (\<lambda>k. 0 < k) ks \<Longrightarrow> sum_list ks \<le> length s \<Longrightarrow> vision_reads ks s v = Return (take (sum_list ks) s)"
proof (induction ks arbitrary: s)
  case (Cons k ks)
  then have "s \<noteq> []" "k \<le> length s"
    by auto
  with Cons show ?case
    by (simp add: vision_Read_def take_add min_absorb2)
qed simp

text \<open>
  C35: the padding of a padded connection is part of what the peer reads. On a fresh connection that
  takes its writes, every write reports the
  length of its data and sends the data followed by its padding: the least size and the remainder
  of a random byte modulo the difference of the two sizes, unless padding is off or the greatest
  size is not above the least. A peer that reads as many bytes as were sent, whatever its own
  configuration, gets data and padding alike; with the default configuration it gets just the data exactly when all random bytes
  drawn are multiples of 64.
\<close>

theorem vision_padding_delivered:
  assumes "NewVisionConn c config = Return v" "c_werr c = []" "c_out c = []"
    and "vision_writes ws v = (v', rs)" "NewVisionConn c2 config2 = Return peer"
    and "list_all (\<lambda>k. 0 < k) ks" "sum_list ks = length (c_out (vc_conn v'))"
  defines "lo \<equiv> vi_MinPaddingSize (vc_config v)" and "hi \<equiv> vi_MaxPaddingSize (vc_config v)"
  defines "sent \<equiv> concat (map (\<lambda>(b, random, p). p @
      (if vi_Enabled (vc_config v) \<and> lo < hi then map random [0..<nat (lo + int (unat b) mod (hi - lo))] else [])) ws)"
  shows "rs = map (\<lambda>(_, _, p). Return (length p)) ws \<and> c_out (vc_conn v') = sent \<and>
    vision_reads ks (c_out (vc_conn v')) peer = Return sent \<and>
    (config = None \<longrightarrow>
      (sent = concat (map (\<lambda>(_, _, p). p) ws) \<longleftrightarrow> list_all (\<lambda>(b, _, _). unat b mod 64 = 0) ws))"
proof -
  have v: "vc_conn v = c" "config = None \<Longrightarrow> vc_config v = DefaultVisionConfig"
    using assms(1) by (auto simp: NewVisionConn_def Let_def split: if_splits)
  have "padded (vc_config v) = (\<lambda>(b, random, p). p @
      (if vi_Enabled (vc_config v) \<and> lo < hi then map random [0..<nat (lo + int (unat b) mod (hi - lo))] else []))"
    by (auto simp: padded_def pad_size_def random_bytes_def lo_def hi_def fun_eq_iff)
  then have sent: "sent = concat (map (padded (vc_config v)) ws)"
    by (simp only: sent_def)
  have out: "rs = map (\<lambda>(_, _, p). Return (length p)) ws" "c_out (vc_conn v') = sent"
    using vision_writes_ok [of v ws v' rs] assms(2-4) v(1) by (simp_all add: sent)
  have "(\<lambda>(b, _, _). \<not> vi_Enabled DefaultVisionConfig \<or> pad_size b DefaultVisionConfig \<le> 0) =
      (\<lambda>(b :: byte, _ :: nat \<Rightarrow> byte, _ :: bytes). unat b mod 64 = 0)"
  proof (intro ext, clarify)
    fix b :: byte
    have "pad_size b DefaultVisionConfig = int (unat b mod 64)"
      by (simp add: pad_size_def DefaultVisionConfig_def zmod_int)
    then show "(\<not> vi_Enabled DefaultVisionConfig \<or> pad_size b DefaultVisionConfig \<le> 0) \<longleftrightarrow> unat b mod 64 = 0"
      by (simp add: DefaultVisionConfig_def del: of_nat_mod)
  qed
  then have "config = None \<longrightarrow>
      (sent = concat (map (\<lambda>(_, _, p). p) ws) \<longleftrightarrow> list_all (\<lambda>(b, _, _). unat b mod 64 = 0) ws)"
    using padded_same [of DefaultVisionConfig ws] v(2) by (simp add: sent)
  with out vision_reads_take [OF assms(6), of "c_out (vc_conn v')" peer] assms(7) show ?thesis
    by simp
qed

theorem vision_padding_delivered_witness:
  "vision_reads [3, 2] (c_out (vc_conn (fst (vision_writes [(64, \<lambda>_. 9, [1, 2]), (2, \<lambda>_. 9, [5])]
     \<lparr>vc_conn = \<lparr>c_in = [], c_out = [], c_werr = []\<rparr>, vc_config = DefaultVisionConfig\<rparr>))))
     \<lparr>vc_conn = \<lparr>c_in = [], c_out = [], c_werr = []\<rparr>, vc_config = DefaultVisionConfig\<rparr> = Return [1, 2, 5, 9, 9]"
proof -
  let ?c = "\<lparr>c_in = [], c_out = [], c_werr = []\<rparr>" and ?ws = "[(64, \<lambda>_. 9, [1, 2]), (2, \<lambda>_. 9, [5])] :: (byte \<times> (nat \<Rightarrow> byte) \<times> bytes) list"
  let ?v = "\<lparr>vc_conn = ?c, vc_config = DefaultVisionConfig\<rparr>"
  have new: "NewVisionConn ?c None = Return ?v"
    by (simp add: NewVisionConn_def DefaultVisionConfig_def)
  have out: "c_out (vc_conn (fst (vision_writes ?ws ?v))) = [1, 2, 5, 9, 9]"
    by (simp add: vision_Write_def conn_write_def pad_size_def random_bytes_def DefaultVisionConfig_def
        upt_rec Let_def)
  then have "sum_list [3, 2] = length (c_out (vc_conn (fst (vision_writes ?ws ?v))))"
    by simp
  moreover have "c_werr ?c = []" "c_out ?c = []" "list_all (\<lambda>k. 0 < k) [3, 2 :: nat]"
    by simp_all
  ultimately have "vision_reads [3, 2] (c_out (vc_conn (fst (vision_writes ?ws ?v)))) ?v =
      Return (c_out (vc_conn (fst (vision_writes ?ws ?v))))"
    using vision_padding_delivered [OF new _ _ prod.collapse [of "vision_writes ?ws ?v", symmetric] new]
    by metis
  then show ?thesis
    by (simp only: out)
qed

section \<open>The flow of Vision\<close>

text \<open>What the program does with a flow; none of it changes a byte.\<close>

datatype hello = ClientHello "nat \<Rightarrow> byte" bytes | ServerHello "nat \<Rightarrow> byte" bytes | ResetFlow

fun flow_step :: "hello \<Rightarrow> vision_flow \<Rightarrow> vision_flow \<times> bytes" where
  "flow_step (ClientHello random data) vf = OnClientHello random data vf"
| "flow_step (ServerHello random data) vf = (vf, OnServerHello random data vf)"
| "flow_step ResetFlow vf = (flow_Reset vf, [])"

lemma vision_flow_identity:
  "snd (flow_step h vf) = (case h of ClientHello _ data \<Rightarrow> data | ServerHello _ data \<Rightarrow> data | ResetFlow \<Rightarrow> [])"
  by (cases h) (simp_all add: OnClientHello_def OnServerHello_def PadTraffic_def)

text \<open>A listening server that is asked to listen again answers with no listener and no error.\<close>

lemma listen_twice:
  "server_Listen (Return l) rs = (rs1, Return (Some l)) \<Longrightarrow> server_Listen again rs1 = (rs1, Return None)"
  by (auto simp: server_Listen_def split: if_splits)

end
