(* ===== verification/Shadowsocks.thy ===== *)
theory Shadowsocks
  imports Crypto "HOL-Library.Sublist"
begin

text \<open>
  \<open>app/proxy/shadowsocks/ss.go\<close>: the cipher methods, the password key derivation, packets,
  and the encrypting writer and decrypting reader of a stream. The ciphers are the argument
  \<open>cipherlib\<close> of the theory \<open>Crypto\<close>, MD5 is an argument. The lemmas show that the reader
  delivers what the writer was given, byte for byte and for every sequence of buffer sizes,
  and what the derived keys look like. \<open>KDFSubKey\<close> only calls HKDF and is not modelled.
\<close>

section \<open>Ciphers and keys\<close>

definition ErrInvalidMethod :: error where "ErrInvalidMethod = Error ''shadowsocks: unsupported encryption method''"
definition ErrShortPacket :: error where "ErrShortPacket = Error ''shadowsocks: packet too short''"

datatype cipher_method =
  MethodAES128GCM | MethodAES256GCM | MethodChaCha20Poly1305 | MethodXChacha20Poly1305 | MethodNone
  | MethodOther string

record ss_cipher =
  ss_method :: cipher_method
  ss_keySize :: nat
  ss_saltSize :: nat

fun ss_NewCipher :: "cipher_method \<Rightarrow> ss_cipher go" where
  "ss_NewCipher MethodAES128GCM = Return \<lparr>ss_method = MethodAES128GCM, ss_keySize = 16, ss_saltSize = 16\<rparr>"
| "ss_NewCipher MethodAES256GCM = Return \<lparr>ss_method = MethodAES256GCM, ss_keySize = 32, ss_saltSize = 32\<rparr>"
| "ss_NewCipher MethodChaCha20Poly1305 =
     Return \<lparr>ss_method = MethodChaCha20Poly1305, ss_keySize = 32, ss_saltSize = 32\<rparr>"
| "ss_NewCipher MethodXChacha20Poly1305 =
     Return \<lparr>ss_method = MethodXChacha20Poly1305, ss_keySize = 32, ss_saltSize = 32\<rparr>"
| "ss_NewCipher MethodNone = Return \<lparr>ss_method = MethodNone, ss_keySize = 0, ss_saltSize = 0\<rparr>"
| "ss_NewCipher (MethodOther s) = Fail ErrInvalidMethod"

text \<open>\<open>aes.NewCipher\<close> takes keys of 16, 24 or 32 bytes, the ChaCha constructors of 32.\<close>

definition ss_newAEAD :: "cipherlib \<Rightarrow> ss_cipher \<Rightarrow> bytes \<Rightarrow> aead go" where
  "ss_newAEAD lib c key =
     (if ss_method c = MethodAES128GCM \<or> ss_method c = MethodAES256GCM then
        if length key \<in> {16, 24, 32} then Return (lib_GCM lib key) else Fail (Error ''crypto/aes: invalid key size'')
      else if ss_method c = MethodChaCha20Poly1305 then
        if length key = 32 then Return (lib_Chacha lib key) else Fail (Error ''chacha20poly1305: bad key length'')
      else if ss_method c = MethodXChacha20Poly1305 then
        if length key = 32 then Return (lib_XChacha lib key) else Fail (Error ''chacha20poly1305: bad key length'')
      else Fail ErrInvalidMethod)"

text \<open>
  The key derivation: the loop's body never changes the length it tests, so it is a
  function that may not return.
\<close>

partial_function (option) kdf_loop :: "(bytes \<Rightarrow> bytes) \<Rightarrow> bytes \<Rightarrow> nat \<Rightarrow> bytes \<Rightarrow> bytes \<Rightarrow> bytes option" where
  "kdf_loop md5 password keyLen md5Hash key =
     (if length key < keyLen then
        let h = md5 (md5Hash @ password)
        in kdf_loop md5 password keyLen h (blit key (length key - 16) h)
      else Some key)"

definition KDFPassword :: "(bytes \<Rightarrow> bytes) \<Rightarrow> bytes \<Rightarrow> nat \<Rightarrow> bytes option" where
  "KDFPassword md5 password keyLen =
     (let md5Hash = md5 password
      in kdf_loop md5 password keyLen md5Hash (blit (replicate keyLen 0) 0 md5Hash))"

definition GenerateSalt :: "(nat \<Rightarrow> byte) \<Rightarrow> nat \<Rightarrow> bytes" where
  "GenerateSalt rnd n = random_bytes rnd n"

definition ss_Encrypt :: "cipherlib \<Rightarrow> (nat \<Rightarrow> byte) \<Rightarrow> ss_cipher \<Rightarrow> bytes \<Rightarrow> bytes \<Rightarrow> bytes go" where
  "ss_Encrypt lib rnd c plaintext key =
     (if ss_method c = MethodNone then Return plaintext
      else go_bind (ss_newAEAD lib c key) (\<lambda>a.
        let nonce = random_bytes rnd (ae_NonceSize a)
        in go_bind (aead_Seal a nonce plaintext []) (\<lambda>ciphertext. Return (nonce @ ciphertext))))"

definition ss_Decrypt :: "cipherlib \<Rightarrow> ss_cipher \<Rightarrow> bytes \<Rightarrow> bytes \<Rightarrow> bytes go" where
  "ss_Decrypt lib c ciphertext key =
     (if ss_method c = MethodNone then Return ciphertext
      else go_bind (ss_newAEAD lib c key) (\<lambda>a.
        let nonceSize = ae_NonceSize a
        in if length ciphertext < nonceSize then Fail ErrShortPacket
           else aead_Open a (take nonceSize ciphertext) (drop nonceSize ciphertext) []))"

section \<open>Streams\<close>

definition ss_frame :: "bytes \<Rightarrow> bytes" where
  "ss_frame encrypted = put16 (word_of_nat (length encrypted)) @ encrypted"

definition ss_read_frame :: "stream \<Rightarrow> (bytes \<times> stream) go" where
  "ss_read_frame s =
     go_bind (read_full 2 s) (\<lambda>(header, s1).
       let len = unat (get16 header)
       in if len > 64 * 1024 then Fail (Error ''shadowsocks: packet too large'')
          else read_full len s1)"

text \<open>The writer sends header and ciphertext in two writes; either may fail.\<close>

definition ss_Write :: "cipherlib \<Rightarrow> (nat \<Rightarrow> byte) \<Rightarrow> ss_cipher \<Rightarrow> bytes \<Rightarrow> bytes \<Rightarrow> conn \<Rightarrow> conn \<times> nat go" where
  "ss_Write lib rnd c key p w =
     (case ss_Encrypt lib rnd c p key of
        Fail e \<Rightarrow> (w, Fail e)
      | Panic \<Rightarrow> (w, Panic)
      | Return encrypted \<Rightarrow>
          (case conn_write (put16 (word_of_nat (length encrypted))) w of
             (w1, Some e) \<Rightarrow> (w1, Fail e)
           | (w1, None) \<Rightarrow>
               (case conn_write encrypted w1 of
                  (w2, Some e) \<Rightarrow> (w2, Fail e)
                | (w2, None) \<Rightarrow> (w2, Return (length p)))))"

record ss_reader =
  dr_in :: stream
  dr_buf :: bytes
  dr_offset :: nat
  dr_length :: nat

definition ss_Read :: "cipherlib \<Rightarrow> ss_cipher \<Rightarrow> bytes \<Rightarrow> ss_reader \<Rightarrow> nat \<Rightarrow> ss_reader \<times> bytes go" where
  "ss_Read lib c key r k =
     (if dr_length r > 0 then
        (case go_slice (dr_buf r) (int (dr_offset r)) (int (dr_offset r + dr_length r)) of
           Return src \<Rightarrow>
             let n = min k (length src);
                 len = dr_length r - n
             in (r\<lparr>dr_offset := (if len = 0 then 0 else dr_offset r + n), dr_length := len\<rparr>, Return (take k src))
         | Fail e \<Rightarrow> (r, Fail e)
         | Panic \<Rightarrow> (r, Panic))
      else case ss_read_frame (dr_in r) of
        Fail e \<Rightarrow> (r\<lparr>dr_in := []\<rparr>, Fail e)
      | Panic \<Rightarrow> (r, Panic)
      | Return (encrypted, rest) \<Rightarrow>
          (case ss_Decrypt lib c encrypted key of
             Fail e \<Rightarrow> (r\<lparr>dr_in := rest\<rparr>, Fail e)
           | Panic \<Rightarrow> (r\<lparr>dr_in := rest\<rparr>, Panic)
           | Return plaintext \<Rightarrow>
               let n = min k (length plaintext)
               in if n < length plaintext
                  then (r\<lparr>dr_in := rest, dr_buf := plaintext, dr_offset := n, dr_length := length plaintext - n\<rparr>,
                        Return (take k plaintext))
                  else (r\<lparr>dr_in := rest\<rparr>, Return plaintext)))"

section \<open>Packets\<close>

record ss_udp =
  su_cipher :: ss_cipher
  su_key :: bytes

definition NewShadowsocksUDP :: "(bytes \<Rightarrow> bytes) \<Rightarrow> cipher_method \<Rightarrow> bytes \<Rightarrow> ss_udp go option" where
  "NewShadowsocksUDP md5 m password =
     (case ss_NewCipher m of
        Return c \<Rightarrow> map_option (\<lambda>key. Return \<lparr>su_cipher = c, su_key = key\<rparr>) (KDFPassword md5 password (ss_keySize c))
      | Fail e \<Rightarrow> Some (Fail e)
      | Panic \<Rightarrow> Some Panic)"

definition ss_Pack :: "cipherlib \<Rightarrow> (nat \<Rightarrow> byte) \<Rightarrow> ss_udp \<Rightarrow> bytes \<Rightarrow> bytes go" where
  "ss_Pack lib rnd su plaintext = ss_Encrypt lib rnd (su_cipher su) plaintext (su_key su)"

definition ss_Unpack :: "cipherlib \<Rightarrow> ss_udp \<Rightarrow> bytes \<Rightarrow> bytes go" where
  "ss_Unpack lib su ciphertext = ss_Decrypt lib (su_cipher su) ciphertext (su_key su)"

section \<open>Keys\<close>

lemma kdf_loop_exit: "keyLen \<le> length key \<Longrightarrow> kdf_loop md5 password keyLen h key = Some key"
  by (subst kdf_loop.simps) simp

lemma KDFPassword_eq:
  "KDFPassword md5 password keyLen = Some (take keyLen (md5 password) @ replicate (keyLen - length (md5 password)) 0)"
proof -
  have "blit (replicate keyLen 0) 0 (md5 password) = take keyLen (md5 password) @ replicate (keyLen - length (md5 password)) 0"
    by (simp add: blit_def copied_def min_def)
  then show ?thesis
    by (simp add: KDFPassword_def kdf_loop_exit Let_def)
qed

definition ss_key_ok :: "ss_cipher \<Rightarrow> bytes \<Rightarrow> bool" where
  "ss_key_ok c key \<longleftrightarrow> (\<exists>m. ss_NewCipher m = Return c) \<and> length key = ss_keySize c"

lemma ss_Encrypt_ok:
  assumes lib: "cipherlib_ok lib" and c: "ss_key_ok c key"
  shows "\<exists>ct. ss_Encrypt lib rnd c p key = Return ct \<and> length ct \<le> length p + 40 \<and> ss_Decrypt lib c ct key = Return p"
proof (cases "ss_method c = MethodNone")
  case True
  then show ?thesis
    by (simp add: ss_Encrypt_def ss_Decrypt_def)
next
  case False
  from c obtain m where m: "ss_NewCipher m = Return c" and key: "length key = ss_keySize c"
    by (auto simp: ss_key_ok_def)
  have "\<exists>a n. ss_newAEAD lib c key = Return a \<and> aead_ok n a \<and> n \<le> 24"
    using lib m key False by (cases m) (auto simp: ss_newAEAD_def cipherlib_ok_def)
  then obtain a n where a: "ss_newAEAD lib c key = Return a" "aead_ok n a" "n \<le> 24" "ae_NonceSize a = n"
    by (auto simp: aead_ok_def)
  from aead_ok_seal [OF a(2), of "random_bytes rnd n" p "[]"] a False show ?thesis
    by (auto simp: ss_Encrypt_def ss_Decrypt_def Let_def)
qed

interpretation ss_framing: framing ss_frame ss_read_frame "\<lambda>ct. length ct < 65536"
proof
  fix ct :: bytes and rest
  assume "length ct < 65536"
  then show "ss_read_frame (ss_frame ct @ rest) = Return (ct, rest)"
    by (simp add: ss_read_frame_def ss_frame_def unat_of_nat Let_def)
next
  fix s x s'
  assume "ss_read_frame s = Return (x, s')"
  then show "length s' < length s"
    by (auto simp: ss_read_frame_def Let_def go_bind_Return_iff read_full_Return_iff split: if_splits)
qed

section \<open>The stream is transparent\<close>

text \<open>A writer's messages, and a reader's calls with buffers of given sizes until \<open>EOF\<close>.\<close>

fun ss_writes :: "cipherlib \<Rightarrow> (nat \<Rightarrow> nat \<Rightarrow> byte) \<Rightarrow> ss_cipher \<Rightarrow> bytes \<Rightarrow> bytes list \<Rightarrow> conn \<Rightarrow> conn \<times> nat go list" where
  "ss_writes lib rnd c key [] w = (w, [])"
| "ss_writes lib rnd c key (p # ps) w =
     (case ss_Write lib (rnd (length ps)) c key p w of (w', r) \<Rightarrow>
        apsnd (Cons r) (ss_writes lib rnd c key ps w'))"

fun ss_reads :: "cipherlib \<Rightarrow> ss_cipher \<Rightarrow> bytes \<Rightarrow> ss_reader \<Rightarrow> nat list \<Rightarrow> bytes go" where
  "ss_reads lib c key r [] = Return []"
| "ss_reads lib c key r (k # ks) =
     (case ss_Read lib c key r k of
        (r', Return out) \<Rightarrow> go_map ((@) out) (ss_reads lib c key r' ks)
      | (r', Fail e) \<Rightarrow> (if e = EOF then Return [] else Fail e)
      | (r', Panic) \<Rightarrow> Panic)"

definition dr_pending :: "ss_reader \<Rightarrow> bytes" where
  "dr_pending r = take (dr_length r) (drop (dr_offset r) (dr_buf r))"

definition dr_inv :: "ss_reader \<Rightarrow> bool" where
  "dr_inv r \<longleftrightarrow> dr_offset r + dr_length r \<le> length (dr_buf r)"

text \<open>
  The reader drains its buffer before it takes the next frame: it is a reader of framed
  messages whose frames are the ciphertexts that decrypt.
\<close>

definition ss_decrypts :: "cipherlib \<Rightarrow> ss_cipher \<Rightarrow> bytes \<Rightarrow> bytes \<Rightarrow> bool" where
  "ss_decrypts lib c key ct \<longleftrightarrow> length ct < 65536 \<and> (\<exists>p. ss_Decrypt lib c ct key = Return p)"

definition ss_payload :: "cipherlib \<Rightarrow> ss_cipher \<Rightarrow> bytes \<Rightarrow> bytes \<Rightarrow> bytes" where
  "ss_payload lib c key ct = (case ss_Decrypt lib c ct key of Return p \<Rightarrow> p | _ \<Rightarrow> [])"

interpretation ss_reader: framed_reader ss_frame ss_read_frame "ss_decrypts lib c key"
  "ss_payload lib c key" "\<lambda>k r. ss_Read lib c key r k" dr_pending dr_in dr_inv for lib c key
proof
  show "ss_read_frame (ss_frame ct @ rest) = Return (ct, rest)" if "ss_decrypts lib c key ct" for ct rest
    using that by (intro ss_framing.dec_enc) (simp add: ss_decrypts_def)
next
  show "length s' < length s" if "ss_read_frame s = Return (x, s')" for s x s'
    using that by (rule ss_framing.dec_progress)
next
  fix r k
  assume r: "dr_inv r" "dr_pending r \<noteq> []"
  have len: "length (dr_pending r) = dr_length r" "dr_length r > 0"
    using r by (auto simp: dr_inv_def dr_pending_def)
  have sl: "go_slice (dr_buf r) (int (dr_offset r)) (int (dr_offset r + dr_length r)) = Return (dr_pending r)"
    using r(1) unfolding slice_of_nat by (simp add: dr_inv_def dr_pending_def)
  define n where "n = min k (dr_length r)"
  define r' where "r' = r\<lparr>dr_offset := (if dr_length r - n = 0 then 0 else dr_offset r + n), dr_length := dr_length r - n\<rparr>"
  have "ss_Read lib c key r k = (r', Return (take k (dr_pending r)))"
    by (simp only: ss_Read_def if_P [OF len(2)] sl go.case len(1) Let_def n_def r'_def)
  moreover have "dr_inv r'" "dr_in r' = dr_in r"
    using r by (auto simp: dr_inv_def r'_def n_def)
  moreover have "dr_pending r' = drop k (dr_pending r)"
    by (auto simp: dr_pending_def r'_def n_def drop_take min_def add.commute)
  ultimately show "\<exists>r'. ss_Read lib c key r k = (r', Return (take k (dr_pending r))) \<and> dr_inv r' \<and>
      dr_pending r' = drop k (dr_pending r) \<and> dr_in r' = dr_in r"
    by blast
next
  fix r k ct rest
  assume r: "dr_inv r" "dr_pending r = []" "dr_in r = ss_frame ct @ rest" "ss_decrypts lib c key ct"
  then obtain p where p: "ss_Decrypt lib c ct key = Return p" "ss_payload lib c key ct = p" "length ct < 65536"
    by (auto simp: ss_decrypts_def ss_payload_def)
  have "dr_length r = 0"
    using r(1,2) by (auto simp: dr_inv_def dr_pending_def)
  then show "\<exists>r'. ss_Read lib c key r k = (r', Return (take k (ss_payload lib c key ct))) \<and> dr_inv r' \<and>
      dr_pending r' = drop k (ss_payload lib c key ct) \<and> dr_in r' = rest"
    using r(1,3) p by (cases "k < length p")
      (simp_all add: ss_Read_def ss_framing.dec_enc Let_def dr_inv_def dr_pending_def min_def)
next
  fix r k
  assume "dr_inv r" "dr_pending r = []" "dr_in r = []"
  then show "snd (ss_Read lib c key r k) = Fail EOF"
    by (auto simp: ss_Read_def dr_inv_def dr_pending_def ss_read_frame_def read_full_def)
qed

lemma ss_reads_eq: "ss_reads lib c key r ks = reads (\<lambda>k r. ss_Read lib c key r k) ks r"
  by (induction ks arbitrary: r) (auto split: prod.splits go.splits)

lemma ss_decrypted:
  "list_all2 (\<lambda>ct p. length ct < 65536 \<and> ss_Decrypt lib c ct key = Return p) cts ps \<Longrightarrow>
     list_all (ss_decrypts lib c key) cts \<and> map (ss_payload lib c key) cts = ps"
  by (induction rule: list_all2_induct) (auto simp: ss_decrypts_def ss_payload_def)

lemma ss_writes_frames:
  assumes lib: "cipherlib_ok lib" and c: "ss_key_ok c key" and "c_werr w = []"
    and "list_all (\<lambda>p. length p + 40 < 65536) ps"
  shows "\<exists>w' cts. ss_writes lib rnd c key ps w = (w', map (\<lambda>p. Return (length p)) ps) \<and>
    c_out w' = c_out w @ concat (map ss_frame cts) \<and>
    list_all2 (\<lambda>ct p. length ct < 65536 \<and> ss_Decrypt lib c ct key = Return p) cts ps"
  using assms(3,4)
proof (induction ps arbitrary: w)
  case Nil
  then show ?case
    by (intro exI [of _ w] exI [of _ "[]"]) simp
next
  case (Cons p ps)
  from ss_Encrypt_ok [OF lib c, of "rnd (length ps)" p] obtain ct where
    ct: "ss_Encrypt lib (rnd (length ps)) c p key = Return ct" "length ct \<le> length p + 40" "ss_Decrypt lib c ct key = Return p"
    by blast
  define w1 where "w1 = w\<lparr>c_out := c_out w @ ss_frame ct\<rparr>"
  have "ss_Write lib (rnd (length ps)) c key p w = (w1, Return (length p))"
    using Cons.prems(1) by (simp add: ss_Write_def ct(1) conn_write_def w1_def ss_frame_def)
  moreover obtain w' cts where "ss_writes lib rnd c key ps w1 = (w', map (\<lambda>p. Return (length p)) ps)"
      "c_out w' = c_out w1 @ concat (map ss_frame cts)"
      "list_all2 (\<lambda>ct p. length ct < 65536 \<and> ss_Decrypt lib c ct key = Return p) cts ps"
    using Cons.IH [of w1] Cons.prems by (auto simp: w1_def)
  ultimately show ?case
    using ct Cons.prems(2) by (intro exI [of _ w'] exI [of _ "ct # cts"]) (simp add: w1_def)
qed

text \<open>
  The length of a frame is cut to sixteen bits: of a longer ciphertext the reader takes the
  remainder only, and the next frame starts inside it.
\<close>

lemma ss_long_message:
  assumes "ss_Encrypt lib rnd c p key = Return ct" "65536 \<le> length ct" "c_werr w = []"
  shows "\<exists>w'. ss_Write lib rnd c key p w = (w', Return (length p)) \<and> c_out w' = c_out w @ ss_frame ct \<and>
    ss_read_frame (ss_frame ct @ rest) = Return (take (length ct mod 65536) ct, drop (length ct mod 65536) ct @ rest)"
proof -
  define m where "m = length ct mod 65536"
  have "unat (word_of_nat (length ct) :: u16) = m" "m \<le> length ct" "m < 65536"
    by (simp_all add: unat_of_nat m_def)
  then have "ss_read_frame (ss_frame ct @ rest) = Return (take m ct, drop m ct @ rest)"
    by (simp add: ss_read_frame_def ss_frame_def read_full_def Let_def)
  with assms show ?thesis
    by (simp add: ss_Write_def conn_write_def ss_frame_def m_def)
qed

text \<open>
  C3: an encrypted stream is transparent for messages that fit a frame, that is, whose length and the
  at most 40 bytes of overhead stay below 65536: what the reader delivers, for any sequence of
  buffer sizes, is a prefix of the messages written, in order and without a byte lost or
  added between them, and with enough reads (non-empty buffers, one read per byte and per
  message) it is all of them; every write reports the length of its message. A longer message
  is reported as written too, but its frame announces less than it carries
  (\<open>ss_long_message\<close>).
\<close>

theorem ss_stream_transparent:
  assumes "cipherlib_ok lib" and "ss_key_ok c key" and "list_all (\<lambda>p. length p + 40 < 65536) ps"
    and "ss_writes lib rnd c key ps \<lparr>c_in = [], c_out = [], c_werr = []\<rparr> = (w', rs)"
  shows "rs = map (\<lambda>p. Return (length p)) ps \<and>
    (\<exists>out. ss_reads lib c key \<lparr>dr_in = c_out w', dr_buf = [], dr_offset = 0, dr_length = 0\<rparr> ks = Return out \<and>
      prefix out (concat ps) \<and>
      (list_all (\<lambda>k. k > 0) ks \<and> length (concat ps) + length ps \<le> length ks \<longrightarrow> out = concat ps))"
proof -
  let ?r = "\<lparr>dr_in = c_out w', dr_buf = [], dr_offset = 0, dr_length = 0\<rparr>"
  obtain cts where cts: "rs = map (\<lambda>p. Return (length p)) ps" "c_out w' = concat (map ss_frame cts)"
      "list_all2 (\<lambda>ct p. length ct < 65536 \<and> ss_Decrypt lib c ct key = Return p) cts ps"
    using ss_writes_frames [OF assms(1,2) _ assms(3), of "\<lparr>c_in = [], c_out = [], c_werr = []\<rparr>" rnd] assms(4)
    by auto
  have r: "dr_inv ?r" "dr_in ?r = concat (map ss_frame cts)" "dr_pending ?r = []"
    by (simp_all add: dr_inv_def cts(2) dr_pending_def)
  have d: "list_all (ss_decrypts lib c key) cts" "map (ss_payload lib c key) cts = ps" "length cts = length ps"
    using ss_decrypted [OF cts(3)] list_all2_lengthD [OF cts(3)] by simp_all
  from ss_reader.reads_prefix [OF r(1,2) d(1), of ks] cts(1) show ?thesis
    by (simp only: r(3) d(2,3) append_Nil ss_reads_eq)
qed

theorem ss_stream_transparent_witness:
  "\<exists>w'. ss_writes null_lib (\<lambda>_ _. 7) \<lparr>ss_method = MethodAES128GCM, ss_keySize = 16, ss_saltSize = 16\<rparr>
      (replicate 16 1) [[1, 2, 3], [4, 5]] \<lparr>c_in = [], c_out = [], c_werr = []\<rparr> = (w', [Return 3, Return 2]) \<and>
    ss_reads null_lib \<lparr>ss_method = MethodAES128GCM, ss_keySize = 16, ss_saltSize = 16\<rparr> (replicate 16 1)
      \<lparr>dr_in = c_out w', dr_buf = [], dr_offset = 0, dr_length = 0\<rparr> (replicate 7 2) = Return [1, 2, 3, 4, 5]"
proof -
  let ?c = "\<lparr>ss_method = MethodAES128GCM, ss_keySize = 16, ss_saltSize = 16\<rparr>"
  have key: "ss_key_ok ?c (replicate 16 1)"
    by (auto simp: ss_key_ok_def intro: exI [of _ MethodAES128GCM])
  obtain w' rs where w: "ss_writes null_lib (\<lambda>_ _. 7) ?c (replicate 16 1) [[1, 2, 3], [4, 5]]
      \<lparr>c_in = [], c_out = [], c_werr = []\<rparr> = (w', rs)"
    by (metis surj_pair)
  from ss_stream_transparent [OF null_lib_ok key _ w, of "replicate 7 2"] w show ?thesis
    by (auto simp: list_all_iff)
qed

text \<open>
  Packets round trip with the derived key, and the derivation always returns: its
  loop is never entered, so a key longer than 16 bytes is the MD5 digest of the password
  followed by zeros (half of a 32-byte key is known).
\<close>

lemma ss_udp_roundtrip:
  assumes "cipherlib_ok lib" and "\<And>x. length (md5 x) = 16" and "m \<notin> range MethodOther"
  shows "\<exists>su. NewShadowsocksUDP md5 m password = Some (Return su) \<and>
    go_bind (ss_Pack lib rnd su p) (ss_Unpack lib su) = Return p \<and>
    su_key su = take (ss_keySize (su_cipher su)) (md5 password) @ replicate (ss_keySize (su_cipher su) - 16) 0"
proof -
  obtain c where c: "ss_NewCipher m = Return c"
    using assms(3) by (cases m) auto
  define key where "key = take (ss_keySize c) (md5 password) @ replicate (ss_keySize c - 16) 0"
  have "KDFPassword md5 password (ss_keySize c) = Some key"
    by (simp add: KDFPassword_eq key_def assms(2))
  then have su: "NewShadowsocksUDP md5 m password = Some (Return \<lparr>su_cipher = c, su_key = key\<rparr>)"
    by (simp add: NewShadowsocksUDP_def c)
  have "ss_keySize c \<in> {0, 16, 32}"
    using c assms(3) by (cases m) auto
  then have "ss_key_ok c key"
    using c by (auto simp: ss_key_ok_def key_def assms(2))
  from ss_Encrypt_ok [OF assms(1) this, of rnd p] su show ?thesis
    by (auto simp: ss_Pack_def ss_Unpack_def key_def)
qed

end
