(* ===== verification/Relay.thy ===== *)
theory Relay
  imports Go_Prelude "HOL-Library.Sublist"
begin

text \<open>
  How an outbound copies between a connection and the two ends of its user (\<open>proxy/trojan/trojan.go\<close>,
  \<open>proxy/vless/vless.go\<close>, \<open>proxy/vmess/vmess.go\<close>, \<open>proxy/registry.go\<close>, \<open>proxy/proxy.go\<close>): two goroutines with
  \<open>io.Copy\<close>, and a \<open>select\<close> that returns with the first of their results or the end of the
  context, and closes the connection.
\<close>

section \<open>State and steps\<close>

text \<open>
  \<open>rl_up\<close>: the chunks the user's reader will give before its end; \<open>rl_upHeld\<close>: a chunk that was read
  and is being written; \<open>rl_upEnd\<close>: the result of the goroutine (\<open>Some None\<close>: \<open>nil\<close>). The fields for
  the other direction are the same. \<open>rl_timed\<close>: the connection has a deadline, \<open>rl_expired\<close>: it has passed.
\<close>

record relay =
  rl_up :: "bytes list"
  rl_upHeld :: "bytes option"
  rl_sent :: bytes
  rl_upEnd :: "error option option"
  rl_down :: "bytes list"
  rl_downHeld :: "bytes option"
  rl_got :: bytes
  rl_downEnd :: "error option option"
  rl_timed :: bool
  rl_expired :: bool
  rl_result :: "error option option"

definition relay_start :: "bool \<Rightarrow> bytes list \<Rightarrow> bytes list \<Rightarrow> relay" where
  "relay_start timed up down =
     \<lparr>rl_up = up, rl_upHeld = None, rl_sent = [], rl_upEnd = None, rl_down = down, rl_downHeld = None,
      rl_got = [], rl_downEnd = None, rl_timed = timed, rl_expired = False, rl_result = None\<rparr>"

text \<open>The connection can be read and written until its deadline, and until the outbound returns.\<close>

definition usable :: "relay \<Rightarrow> bool" where
  "usable s \<longleftrightarrow> \<not> rl_expired s \<and> rl_result s = None"

inductive relay_step :: "relay \<Rightarrow> relay \<Rightarrow> bool" where
  up_read: "rl_upEnd s = None \<Longrightarrow> rl_upHeld s = None \<Longrightarrow> rl_up s = c # cs \<Longrightarrow>
    relay_step s (s\<lparr>rl_up := cs, rl_upHeld := Some c\<rparr>)"
| up_eof: "rl_upEnd s = None \<Longrightarrow> rl_upHeld s = None \<Longrightarrow> rl_up s = [] \<Longrightarrow>
    relay_step s (s\<lparr>rl_upEnd := Some None\<rparr>)"
| up_write: "rl_upHeld s = Some c \<Longrightarrow> usable s \<Longrightarrow>
    relay_step s (s\<lparr>rl_upHeld := None, rl_sent := rl_sent s @ c\<rparr>)"
| up_fail: "rl_upHeld s = Some c \<Longrightarrow> usable s \<or> k = 0 \<Longrightarrow>
    relay_step s (s\<lparr>rl_upHeld := None, rl_sent := rl_sent s @ take k c, rl_upEnd := Some (Some e)\<rparr>)"
| up_cut: "rl_upEnd s = None \<Longrightarrow> rl_upHeld s = None \<Longrightarrow> relay_step s (s\<lparr>rl_upEnd := Some (Some e)\<rparr>)"
| down_read: "rl_downEnd s = None \<Longrightarrow> rl_downHeld s = None \<Longrightarrow> usable s \<Longrightarrow> rl_down s = c # cs \<Longrightarrow>
    relay_step s (s\<lparr>rl_down := cs, rl_downHeld := Some c\<rparr>)"
| down_eof: "rl_downEnd s = None \<Longrightarrow> rl_downHeld s = None \<Longrightarrow> usable s \<Longrightarrow> rl_down s = [] \<Longrightarrow>
    relay_step s (s\<lparr>rl_downEnd := Some None\<rparr>)"
| down_cut: "rl_downEnd s = None \<Longrightarrow> rl_downHeld s = None \<Longrightarrow> relay_step s (s\<lparr>rl_downEnd := Some (Some e)\<rparr>)"
| down_write: "rl_downHeld s = Some c \<Longrightarrow>
    relay_step s (s\<lparr>rl_downHeld := None, rl_got := rl_got s @ c\<rparr>)"
| down_fail: "rl_downHeld s = Some c \<Longrightarrow>
    relay_step s (s\<lparr>rl_downHeld := None, rl_got := rl_got s @ take k c, rl_downEnd := Some (Some e)\<rparr>)"
| deadline: "rl_timed s \<Longrightarrow> relay_step s (s\<lparr>rl_expired := True\<rparr>)"
| up_returns: "rl_result s = None \<Longrightarrow> rl_upEnd s = Some r \<Longrightarrow> relay_step s (s\<lparr>rl_result := Some r\<rparr>)"
| down_returns: "rl_result s = None \<Longrightarrow> rl_downEnd s = Some r \<Longrightarrow> relay_step s (s\<lparr>rl_result := Some r\<rparr>)"
| cancelled: "rl_result s = None \<Longrightarrow> relay_step s (s\<lparr>rl_result := Some (Some e)\<rparr>)"

section \<open>The invariant\<close>

definition held :: "bytes option \<Rightarrow> bytes" where
  "held h = (case h of None \<Rightarrow> [] | Some c \<Rightarrow> c)"

lemma held_simps [simp]: "held None = []" "held (Some c) = c"
  by (simp_all add: held_def)

text \<open>One direction: what was copied of \<open>all\<close>, the chunk in hand, what is left, the result.\<close>

definition copying :: "bytes \<Rightarrow> bytes \<Rightarrow> bytes option \<Rightarrow> bytes list \<Rightarrow> error option option \<Rightarrow> bool" where
  "copying all sofar h left r \<longleftrightarrow>
     (case r of
        None \<Rightarrow> all = sofar @ held h @ concat left
      | Some None \<Rightarrow> h = None \<and> all = sofar
      | Some (Some e) \<Rightarrow> h = None \<and> prefix sofar all)"

lemma copying_prefix: "copying all sofar h left r \<Longrightarrow> prefix sofar all"
  by (auto simp: copying_def split: option.splits)

lemma copying_fail:
  "copying all sofar (Some c) left r \<Longrightarrow> copying all (sofar @ take k c) None left (Some (Some e))"
  by (auto simp: copying_def prefix_def split: option.splits) (metis append.assoc append_take_drop_id)

lemma copying_cut: "copying all sofar None left None \<Longrightarrow> copying all sofar None left' (Some (Some e))"
  by (simp add: copying_def)

definition relay_inv :: "bytes \<Rightarrow> bytes \<Rightarrow> relay \<Rightarrow> bool" where
  "relay_inv up down s \<longleftrightarrow>
     copying up (rl_sent s) (rl_upHeld s) (rl_up s) (rl_upEnd s) \<and>
     copying down (rl_got s) (rl_downHeld s) (rl_down s) (rl_downEnd s) \<and>
     (rl_result s = Some None \<longrightarrow> rl_upEnd s = Some None \<or> rl_downEnd s = Some None)"

lemma relay_inv_step: "relay_step s s' \<Longrightarrow> relay_inv up down s \<Longrightarrow> relay_inv up down s'"
proof (induction rule: relay_step.induct)
  case (up_fail s c k e)
  then show ?case
    using copying_fail [of up "rl_sent s" c "rl_up s" "rl_upEnd s" k e]
    by (auto simp: relay_inv_def copying_def)
next
  case (down_fail s c e k)
  then show ?case
    using copying_fail [of down "rl_got s" c "rl_down s" "rl_downEnd s" k e]
    by (auto simp: relay_inv_def copying_def)
qed (auto simp: relay_inv_def copying_def split: option.splits)

lemma relay_inv_steps: "relay_step\<^sup>*\<^sup>* s s' \<Longrightarrow> relay_inv up down s \<Longrightarrow> relay_inv up down s'"
  by (induction rule: rtranclp_induct) (auto intro: relay_inv_step)

lemma relay_inv_start: "relay_inv (concat up) (concat down) (relay_start timed up down)"
  by (simp add: relay_inv_def relay_start_def copying_def)

section \<open>When the connection is gone\<close>

text \<open>Once the deadline has passed or the outbound has returned, only a chunk already read is delivered.\<close>

definition cut_inv :: "bytes \<Rightarrow> bytes \<Rightarrow> relay \<Rightarrow> bool" where
  "cut_inv sent all s \<longleftrightarrow> \<not> usable s \<and> rl_sent s = sent \<and> prefix (rl_got s @ held (rl_downHeld s)) all"

lemma cut_step: "relay_step s s' \<Longrightarrow> cut_inv sent all s \<Longrightarrow> cut_inv sent all s'"
proof (induction rule: relay_step.induct)
  case (down_fail s c e k)
  have "prefix (rl_got s @ c) all"
    using down_fail by (simp add: cut_inv_def)
  then have "prefix (rl_got s @ take k c) all"
    by (metis append.assoc append_prefixD append_take_drop_id)
  then show ?case
    using down_fail by (auto simp: cut_inv_def usable_def)
qed (auto simp: cut_inv_def usable_def)

lemma cut_steps: "relay_step\<^sup>*\<^sup>* s s' \<Longrightarrow> cut_inv sent all s \<Longrightarrow> cut_inv sent all s'"
  by (induction rule: rtranclp_induct) (auto intro: cut_step)

lemma relay_cut:
  assumes "\<not> usable s" "relay_step\<^sup>*\<^sup>* s s'"
  shows "rl_sent s' = rl_sent s \<and> prefix (rl_got s') (rl_got s @ held (rl_downHeld s))"
  using cut_steps [OF assms(2), of "rl_sent s" "rl_got s @ held (rl_downHeld s)"] assms(1)
  by (auto simp: cut_inv_def dest: append_prefixD)

text \<open>The upper direction alone, to its end.\<close>

lemma up_direction:
  assumes "rl_up s = cs" "rl_upHeld s = None" "rl_upEnd s = None" "usable s"
  shows "relay_step\<^sup>*\<^sup>* s (s\<lparr>rl_up := [], rl_sent := rl_sent s @ concat cs, rl_upEnd := Some None\<rparr>)"
  using assms
proof (induction cs arbitrary: s)
  case Nil
  then have "s\<lparr>rl_up := [], rl_sent := rl_sent s @ concat [], rl_upEnd := Some None\<rparr> = s\<lparr>rl_upEnd := Some None\<rparr>"
    by (cases s) simp
  then show ?case
    using up_eof [OF Nil(3,2,1)] by (metis r_into_rtranclp)
next
  case (Cons c cs)
  let ?a = "s\<lparr>rl_up := cs, rl_upHeld := Some c\<rparr>"
  let ?b = "?a\<lparr>rl_upHeld := None, rl_sent := rl_sent ?a @ c\<rparr>"
  have "relay_step s ?a"
    using Cons.prems by (intro up_read)
  moreover have "relay_step ?a ?b"
    using Cons.prems(4) by (intro up_write) (simp_all add: usable_def)
  moreover have "relay_step\<^sup>*\<^sup>* ?b (?b\<lparr>rl_up := [], rl_sent := rl_sent ?b @ concat cs, rl_upEnd := Some None\<rparr>)"
    using Cons.prems by (intro Cons.IH) (simp_all add: usable_def)
  moreover have "?b\<lparr>rl_up := [], rl_sent := rl_sent ?b @ concat cs, rl_upEnd := Some None\<rparr> =
      s\<lparr>rl_up := [], rl_sent := rl_sent s @ concat (c # cs), rl_upEnd := Some None\<rparr>"
    using Cons.prems(2) by simp
  ultimately show ?case
    by (metis (no_types, lifting) converse_rtranclp_into_rtranclp)
qed

text \<open>After the outbound has returned, the copy from the user still takes a chunk, which is lost.\<close>

lemma relay_swallows:
  assumes "rl_result s = Some r" "rl_upEnd s = None" "rl_upHeld s = None" "rl_up s = c # cs"
  shows "\<exists>s'. relay_step s s' \<and> rl_up s' = cs \<and> (\<forall>s''. relay_step\<^sup>*\<^sup>* s' s'' \<longrightarrow> rl_sent s'' = rl_sent s)"
proof (intro exI conjI allI impI)
  show "relay_step s (s\<lparr>rl_up := cs, rl_upHeld := Some c\<rparr>)"
    using assms by (intro up_read)
  fix s''
  assume "relay_step\<^sup>*\<^sup>* (s\<lparr>rl_up := cs, rl_upHeld := Some c\<rparr>) s''"
  then show "rl_sent s'' = rl_sent s"
    using relay_cut [of "s\<lparr>rl_up := cs, rl_upHeld := Some c\<rparr>" s''] assms(1) by (simp add: usable_def)
qed simp

section \<open>Properties\<close>

text \<open>
  Under every interleaving of the two copies, the deadline and the end of the context, the
  bytes written to the connection are a prefix of what the user sends and the bytes given to the
  user a prefix of what the connection delivers. The outbound reports success only if one
  of the two directions was copied to its end.
\<close>

lemma relay_copies_prefixes:
  assumes "relay_step\<^sup>*\<^sup>* (relay_start timed up down) s"
  shows "prefix (rl_sent s) (concat up) \<and> prefix (rl_got s) (concat down) \<and>
    (rl_result s = Some None \<longrightarrow> rl_sent s = concat up \<or> rl_got s = concat down)"
proof -
  have inv: "copying (concat up) (rl_sent s) (rl_upHeld s) (rl_up s) (rl_upEnd s)"
      "copying (concat down) (rl_got s) (rl_downHeld s) (rl_down s) (rl_downEnd s)"
      "rl_result s = Some None \<longrightarrow> rl_upEnd s = Some None \<or> rl_downEnd s = Some None"
    using relay_inv_steps [OF assms relay_inv_start] unfolding relay_inv_def by blast+
  then show ?thesis
    using copying_prefix [OF inv(1)] copying_prefix [OF inv(2)] by (auto simp: copying_def)
qed

text \<open>
  C30: a user that closes its sending side loses the answer. Whatever it sends and whatever the
  server would answer, the outbound can return success with the whole request sent and nothing
  of the answer delivered, and none of it is ever delivered after that.
\<close>

theorem relay_half_close:
  "\<exists>s. relay_step\<^sup>*\<^sup>* (relay_start timed up down) s \<and> rl_result s = Some None \<and> rl_sent s = concat up \<and>
     (\<forall>s'. relay_step\<^sup>*\<^sup>* s s' \<longrightarrow> rl_got s' = [])"
proof -
  let ?s = "relay_start timed up down"
  let ?a = "?s\<lparr>rl_up := [], rl_sent := rl_sent ?s @ concat up, rl_upEnd := Some None\<rparr>"
  have "relay_step\<^sup>*\<^sup>* ?s ?a"
    by (rule up_direction) (simp_all add: relay_start_def usable_def)
  moreover have "relay_step ?a (?a\<lparr>rl_result := Some None\<rparr>)"
    by (rule up_returns) (simp_all add: relay_start_def)
  moreover have "\<forall>s'. relay_step\<^sup>*\<^sup>* (?a\<lparr>rl_result := Some None\<rparr>) s' \<longrightarrow> rl_got s' = []"
    using relay_cut [of "?a\<lparr>rl_result := Some None\<rparr>"] by (auto simp: usable_def relay_start_def)
  ultimately show ?thesis
    by (intro exI [of _ "?a\<lparr>rl_result := Some None\<rparr>"]) (auto simp: relay_start_def)
qed

theorem relay_half_close_witness:
  "\<exists>s. relay_step\<^sup>*\<^sup>* (relay_start True [[1], [2]] [[3]]) s \<and> rl_result s = Some None \<and> rl_sent s = [1, 2] \<and>
     rl_got s = []"
proof -
  obtain s where s: "relay_step\<^sup>*\<^sup>* (relay_start True [[1], [2]] [[3]]) s" "rl_result s = Some None"
      "rl_sent s = concat [[1], [2]]" "\<forall>s'. relay_step\<^sup>*\<^sup>* s s' \<longrightarrow> rl_got s' = []"
    using relay_half_close [of True "[[1], [2]]" "[[3]]"] by blast
  then have "rl_got s = []"
    using rtranclp.rtrancl_refl [of relay_step s] by blast
  with s(1-3) show ?thesis
    by auto
qed

end
