(* ===== verification/Net.thy ===== *)
theory Net
  imports Go_Prelude
begin

text \<open>
  What the router and the proxy protocols share of package \<open>net\<close> and \<open>io\<close>: addresses and
  their 4-byte form, connection targets, and reads that may fall short. A host is kept as the
  address or name it denotes; its text is the subject of \<open>Address\<close>.
\<close>

section \<open>Addresses\<close>

type_synonym ip = bytes

definition v4prefix :: bytes where
  "v4prefix = replicate 10 0 @ [0xFF, 0xFF]"

definition To4 :: "ip \<Rightarrow> ip option" where
  "To4 a = (if length a = 4 then Some a
            else if length a = 16 \<and> take 12 a = v4prefix then Some (drop 12 a) else None)"

text \<open>A target as the protocols carry it: an address or a name, and a port.\<close>

datatype host = HostIP ip | HostName bytes

type_synonym target = "host \<times> u16"

section \<open>Reads\<close>

text \<open>
  \<open>io.ReadFull\<close> with what is left of the stream also when it fails: a short read has taken
  everything.
\<close>

definition readn :: "nat \<Rightarrow> stream \<Rightarrow> bytes go \<times> stream" where
  "readn n s = (case read_full n s of Return (bs, s') \<Rightarrow> (Return bs, s') | Fail e \<Rightarrow> (Fail e, []) | Panic \<Rightarrow> (Panic, []))"

definition read_byte :: "stream \<Rightarrow> byte go \<times> stream" where
  "read_byte s = (case readn 1 s of (r, s') \<Rightarrow> (go_map hd r, s'))"

lemma readn_append [simp]: "length bs = n \<Longrightarrow> readn n (bs @ s) = (Return bs, s)"
  by (simp add: readn_def)

lemma readn_short: "length s < n \<Longrightarrow> readn n s = (Fail (if s = [] then EOF else UnexpectedEOF), [])"
  by (simp add: readn_def read_full_def)

lemma readn_long: "n \<le> length s \<Longrightarrow> readn n s = (Return (take n s), drop n s)"
  by (simp add: readn_def read_full_def)

lemma read_byte_Cons [simp]: "read_byte (b # s) = (Return b, s)"
  using readn_append [of "[b]" 1 s] by (simp add: read_byte_def)

lemma readn_not_Panic [simp]: "fst (readn n s) \<noteq> Panic"
  by (simp add: readn_def read_full_def)

section \<open>The address field\<close>

text \<open>
  The encoding the outbounds of Trojan and VLESS share, with their type bytes: type,
  address (or length and name), port. The decoders ignore the errors of their reads, so a
  stream that ends early yields zero bytes, and for the name's length the byte \<open>stale\<close> that
  was in its buffer before.
\<close>

definition encode_host :: "byte \<Rightarrow> byte \<Rightarrow> byte \<Rightarrow> host \<Rightarrow> bytes" where
  "encode_host tIPv4 tDomain tIPv6 h =
     (case h of
        HostIP a \<Rightarrow> (case To4 a of Some x \<Rightarrow> tIPv4 # x | None \<Rightarrow> tIPv6 # a)
      | HostName d \<Rightarrow> [tDomain, word_of_nat (length d)] @ d)"

definition decode_host :: "byte \<Rightarrow> byte \<Rightarrow> byte \<Rightarrow> byte \<Rightarrow> byte \<Rightarrow> stream \<Rightarrow> (host option \<times> stream)" where
  "decode_host stale tIPv4 tDomain tIPv6 t s =
     (if t = tIPv4 then (case read_pad 4 s of (a, s') \<Rightarrow> (Some (HostIP a), s'))
      else if t = tDomain then
        (let (l, s') = (case s of [] \<Rightarrow> (stale, []) | x # xs \<Rightarrow> (x, xs))
         in case read_pad (unat l) s' of (d, s'') \<Rightarrow> (Some (HostName d), s''))
      else if t = tIPv6 then (case read_pad 16 s of (a, s') \<Rightarrow> (Some (HostIP a), s'))
      else (None, s))"

definition decode_port :: "stream \<Rightarrow> u16 \<times> stream" where
  "decode_port s = (case read_pad 2 s of (p, s') \<Rightarrow> (get16 p, s'))"

text \<open>The host a peer sees: 4-byte form of an IPv4 address in either form.\<close>

definition norm_host :: "host \<Rightarrow> host" where
  "norm_host h = (case h of HostIP a \<Rightarrow> (case To4 a of Some x \<Rightarrow> HostIP x | None \<Rightarrow> h) | _ \<Rightarrow> h)"

definition host_ok :: "host \<Rightarrow> bool" where
  "host_ok h = (case h of HostIP a \<Rightarrow> length a = 4 \<or> length a = 16 | HostName d \<Rightarrow> length d < 256)"

lemma decode_encode_host:
  assumes "host_ok h" and "tIPv4 \<noteq> tDomain" "tIPv4 \<noteq> tIPv6" "tDomain \<noteq> tIPv6"
  shows "\<exists>t bs. encode_host tIPv4 tDomain tIPv6 h = t # bs \<and>
    decode_host stale tIPv4 tDomain tIPv6 t (bs @ s) = (Some (norm_host h), s)"
proof (cases h)
  case (HostIP a)
  then show ?thesis
    using assms by (auto simp: host_ok_def encode_host_def decode_host_def norm_host_def To4_def)
next
  case (HostName d)
  then have "unat (word_of_nat (length d) :: byte) = length d"
    using assms(1) by (simp add: host_ok_def unat_of_nat)
  then show ?thesis
    using HostName assms by (simp add: encode_host_def decode_host_def norm_host_def)
qed

lemma decode_port_append [simp]: "decode_port (put16 p @ s) = (p, s)"
  by (simp add: decode_port_def)

end
