(* ===== verification/Trojan.thy ===== *)
theory Trojan
  imports Net
begin

text \<open>
  \<open>app/proxy/trojan/trojan.go\<close>: the user table, the inbound handshake with its fallback, and
  the outbound request. SHA-224 is an argument. What a connection is dispatched or copied
  to is the result of \<open>trojan_Process\<close>; the outbound's dialling and copying are in \<open>Outbound\<close>.
\<close>

section \<open>Users\<close>

definition ErrAuthFailed :: error where "ErrAuthFailed = Error ''trojan: authentication failed''"

record trojan_user =
  tu_Password :: bytes
  tu_Hash :: bytes

text \<open>\<open>hex.EncodeToString\<close>: two digits per byte.\<close>

definition hex_digit :: "byte \<Rightarrow> byte" where
  "hex_digit d = (if d < 10 then 48 + d else 87 + d)"

definition hex :: "bytes \<Rightarrow> bytes" where
  "hex bs = concat (map (\<lambda>b. [hex_digit (drop_bit 4 b), hex_digit (b AND 15)]) bs)"

definition HashPassword :: "(bytes \<Rightarrow> bytes) \<Rightarrow> bytes \<Rightarrow> bytes" where
  "HashPassword sha224 password = hex (sha224 password)"

record trojan_inbound =
  ti_users :: "bytes \<rightharpoonup> trojan_user"
  ti_fallbackAddr :: string
  ti_fallbackPort :: u16

definition NewTrojanInbound :: "(bytes \<Rightarrow> bytes) \<Rightarrow> bytes list \<Rightarrow> trojan_inbound" where
  "NewTrojanInbound sha224 passwords =
     \<lparr>ti_users = fold (\<lambda>pass users. users(HashPassword sha224 pass \<mapsto>
          \<lparr>tu_Password = pass, tu_Hash = HashPassword sha224 pass\<rparr>)) passwords Map.empty,
      ti_fallbackAddr = [], ti_fallbackPort = 0\<rparr>"

definition trojan_SetFallback :: "string \<Rightarrow> u16 \<Rightarrow> trojan_inbound \<Rightarrow> trojan_inbound" where
  "trojan_SetFallback addr port h = h\<lparr>ti_fallbackAddr := addr, ti_fallbackPort := port\<rparr>"

definition trojan_GetFallback :: "trojan_inbound \<Rightarrow> string \<times> u16" where
  "trojan_GetFallback h = (ti_fallbackAddr h, ti_fallbackPort h)"

section \<open>Inbound\<close>

text \<open>Each step returns its result and what is left of the stream, also on failure.\<close>

definition trojan_parseAddress :: "byte \<Rightarrow> stream \<Rightarrow> target go \<times> stream" where
  "trojan_parseAddress cmd s =
     (if cmd \<noteq> 1 then (Fail (Error ''trojan: unsupported command''), s)
      else case read_byte s of
        (Fail e, s1) \<Rightarrow> (Fail e, s1)
      | (Panic, s1) \<Rightarrow> (Panic, s1)
      | (Return t, s1) \<Rightarrow>
          (case decode_host 0 1 3 4 t s1 of
             (None, s2) \<Rightarrow> (Fail (Error ''trojan: unknown address type''), s2)
           | (Some h, s2) \<Rightarrow> (case decode_port s2 of (port, s3) \<Rightarrow> (Return (h, port), s3))))"

definition trojan_request :: "stream \<Rightarrow> target go \<times> stream" where
  "trojan_request s =
     (case readn 2 s of
        (Fail e, s1) \<Rightarrow> (Fail (Error ''trojan: read crlf''), s1)
      | (Panic, s1) \<Rightarrow> (Panic, s1)
      | (Return crlf, s1) \<Rightarrow>
          if crlf ! 0 \<noteq> 0x0D \<or> crlf ! 1 \<noteq> 0x0A then (Fail (Error ''trojan: invalid CRLF''), s1)
          else (case read_byte s1 of
             (Fail e, s2) \<Rightarrow> (Fail e, s2)
           | (Panic, s2) \<Rightarrow> (Panic, s2)
           | (Return cmd, s2) \<Rightarrow>
               (case trojan_parseAddress cmd s2 of
                  (Return target, s3) \<Rightarrow> (Return target, snd (read_pad 2 s3))
                | r \<Rightarrow> r)))"

definition trojan_handshake :: "trojan_inbound \<Rightarrow> stream \<Rightarrow> target go \<times> stream" where
  "trojan_handshake h s =
     (case readn 56 s of
        (Fail e, s1) \<Rightarrow> (Fail (Error ''trojan: read password''), s1)
      | (Panic, s1) \<Rightarrow> (Panic, s1)
      | (Return buf, s1) \<Rightarrow>
          (case ti_users h (hex buf) of
             None \<Rightarrow> (Fail ErrAuthFailed, s1)
           | Some user \<Rightarrow> trojan_request s1))"

text \<open>What \<open>Process\<close> does with the connection.\<close>

datatype trojan_outcome = Dispatched stream | FellBack string u16 stream | Refused error | Crashed

definition trojan_Process :: "trojan_inbound \<Rightarrow> stream \<Rightarrow> trojan_outcome" where
  "trojan_Process h s =
     (case trojan_handshake h s of
        (Return target, rest) \<Rightarrow> Dispatched rest
      | (Fail e, rest) \<Rightarrow>
          if ti_fallbackAddr h \<noteq> [] then FellBack (ti_fallbackAddr h) (ti_fallbackPort h) rest else Refused e
      | (Panic, rest) \<Rightarrow> Crashed)"

section \<open>Outbound\<close>

definition trojan_buildRequest :: "(bytes \<Rightarrow> bytes) \<Rightarrow> bytes \<Rightarrow> target \<Rightarrow> bytes" where
  "trojan_buildRequest sha224 password target =
     sha224 password @ [0x0D, 0x0A] @ [1] @
     (encode_host 1 3 4 (fst target) @ put16 (snd target)) @ [0x0D, 0x0A]"

section \<open>Authentication\<close>

lemma length_hex [simp]: "length (hex bs) = 2 * length bs"
  by (induction bs) (simp_all add: hex_def)

lemma users_keys:
  assumes "\<And>x. length (sha224 x) = 28"
  shows "ti_users (NewTrojanInbound sha224 passwords) k = Some u \<Longrightarrow> length k = 56"
proof -
  have "\<forall>k u. fold (\<lambda>pass users. users(HashPassword sha224 pass \<mapsto>
      \<lparr>tu_Password = pass, tu_Hash = HashPassword sha224 pass\<rparr>)) ps m k = Some u \<longrightarrow> length k = 56"
    if "\<forall>k u. m k = Some u \<longrightarrow> length k = 56" for ps m
    using that
  proof (induction ps arbitrary: m)
    case (Cons p ps)
    show ?case
      unfolding fold_simps by (rule Cons.IH) (use Cons.prems in \<open>auto simp: HashPassword_def assms\<close>)
  qed simp
  from this [of Map.empty passwords] show "ti_users (NewTrojanInbound sha224 passwords) k = Some u \<Longrightarrow> length k = 56"
    by (auto simp: NewTrojanInbound_def)
qed

text \<open>
  C32: no connection is ever authenticated. The table is keyed by the 56 hexadecimal digits
  of a password's hash, but the handshake reads 56 bytes and looks up their 112 digits; so
  whatever a client sends, its own client included, it is refused or, with a fallback set,
  handed to the fallback without the 56 bytes that were read.
\<close>

theorem trojan_never_authenticates:
  assumes "\<And>x. length (sha224 x) = 28"
  shows "trojan_Process (NewTrojanInbound sha224 passwords) s =
      Refused (if length s < 56 then Error ''trojan: read password'' else ErrAuthFailed) \<and>
    (addr \<noteq> [] \<longrightarrow> trojan_Process (trojan_SetFallback addr port (NewTrojanInbound sha224 passwords)) s =
      FellBack addr port (drop 56 s))"
proof -
  let ?h = "NewTrojanInbound sha224 passwords"
  have "ti_users ?h k = None" if "length k = 112" for k
    using users_keys [OF assms] that by (cases "ti_users ?h k") auto
  then have "ti_users ?h (hex (take 56 s)) = None" if "56 \<le> length s"
    using that by simp
  then have "trojan_handshake ?h s = (Fail (if length s < 56 then Error ''trojan: read password'' else ErrAuthFailed), drop 56 s)"
    and "trojan_handshake (trojan_SetFallback addr port ?h) s =
      (Fail (if length s < 56 then Error ''trojan: read password'' else ErrAuthFailed), drop 56 s)"
    by (cases "length s < 56"; simp add: trojan_handshake_def trojan_SetFallback_def readn_short readn_long)+
  moreover have "ti_fallbackAddr ?h = []"
    by (simp add: NewTrojanInbound_def)
  ultimately show ?thesis
    by (simp add: trojan_Process_def trojan_SetFallback_def)
qed

theorem trojan_never_authenticates_witness:
  "trojan_Process (NewTrojanInbound (\<lambda>_. replicate 28 7) [[1, 2, 3]])
      (trojan_buildRequest (\<lambda>_. replicate 28 7) [1, 2, 3] (HostIP [1, 2, 3, 4], 80) @ replicate 40 9) = Refused ErrAuthFailed"
proof -
  have "\<And>x :: bytes. length (replicate 28 7 :: bytes) = 28"
    by simp
  from trojan_never_authenticates [of "\<lambda>_. replicate 28 7", OF this] show ?thesis
    by (simp add: trojan_buildRequest_def encode_host_def To4_def)
qed

text \<open>
  Behind the password field the two sides do agree: the rest of a request is parsed to the
  target the client asked for.
\<close>

lemma trojan_request_roundtrip:
  assumes "host_ok h"
  shows "trojan_request ([0x0D, 0x0A] @ [1] @ (encode_host 1 3 4 h @ put16 port) @ [0x0D, 0x0A] @ payload) =
    (Return (norm_host h, port), payload)"
proof -
  obtain t bs where e: "encode_host 1 3 4 h = t # bs"
      "decode_host 0 1 3 4 t (bs @ put16 port @ 0x0D # 0x0A # payload) = (Some (norm_host h), put16 port @ 0x0D # 0x0A # payload)"
    using decode_encode_host [OF assms, of 1 3 4 0] by fastforce
  have r: "readn 2 (0x0D # 0x0A # s) = (Return [0x0D, 0x0A], s)" for s
    using readn_append [of "[0x0D, 0x0A]" 2 s] by simp
  have p: "read_pad 2 (0x0D # 0x0A # payload) = ([0x0D, 0x0A], payload)"
    using read_pad_append [of "[0x0D, 0x0A]" 2 payload] by simp
  show ?thesis
    by (simp add: trojan_request_def r e p trojan_parseAddress_def)
qed

end
