(* ===== verification/Vless.thy ===== *)
theory Vless
  imports Net
begin

text \<open>
  \<open>app/proxy/vless/vless.go\<close>: the user table, the inbound handshake, the outbound request
  and the UUID text form. The inbound and outbound layouts of the request header differ;
  the lemmas say exactly what the server makes of a client's request. The outbound's dialling
  and copying are in \<open>Outbound\<close>; the flows are only names.
\<close>

section \<open>UUIDs\<close>

text \<open>Text is a list of byte characters. \<open>fmt.Sprintf("%x")\<close> prints two lower-case digits per byte.\<close>

definition hex_char :: "byte \<Rightarrow> byte" where
  "hex_char d = (if d < 10 then 48 + d else 87 + d)"

definition hex_byte :: "byte \<Rightarrow> bytes" where
  "hex_byte b = [hex_char (drop_bit 4 b), hex_char (b AND 15)]"

definition hex_of :: "bytes \<Rightarrow> bytes" where
  "hex_of bs = concat (map hex_byte bs)"

definition dash :: byte where "dash = 45"

definition uuid_string :: "bytes \<Rightarrow> bytes" where
  "uuid_string b =
     hex_of (take 4 b) @ [dash] @ hex_of (take 2 (drop 4 b)) @ [dash] @ hex_of (take 2 (drop 6 b)) @ [dash] @
     hex_of (take 2 (drop 8 b)) @ [dash] @ hex_of (take 6 (drop 10 b))"

definition unhex :: "byte \<Rightarrow> byte option" where
  "unhex c = (if 48 \<le> c \<and> c \<le> 57 then Some (c - 48)
              else if 97 \<le> c \<and> c \<le> 102 then Some (c - 87)
              else if 65 \<le> c \<and> c \<le> 70 then Some (c - 55) else None)"

text \<open>
  \<open>fmt.Sscanf\<close> of two characters with \<open>%02x\<close>; what it makes of a pair that is not two
  hexadecimal digits is the argument \<open>bad\<close>.
\<close>

definition scan_pair :: "(byte \<Rightarrow> byte \<Rightarrow> byte) \<Rightarrow> byte \<Rightarrow> byte \<Rightarrow> byte" where
  "scan_pair bad a b =
     (case (unhex a, unhex b) of (Some x, Some y) \<Rightarrow> push_bit 4 x OR y | _ \<Rightarrow> bad a b)"

definition parseUUID :: "(byte \<Rightarrow> byte \<Rightarrow> byte) \<Rightarrow> bytes \<Rightarrow> bytes go" where
  "parseUUID bad uuid =
     (let clean = filter (\<lambda>c. c \<noteq> dash) uuid
      in if length clean < 32 then Panic
         else Return (map (\<lambda>i. scan_pair bad (clean ! (2 * i)) (clean ! (2 * i + 1))) [0..<16]))"

section \<open>Inbound\<close>

definition ErrAuthFailed :: error where "ErrAuthFailed = Error ''vless: authentication failed''"

record vless_user =
  vu_UUID :: bytes
  vu_Email :: string
  vu_Flow :: string

record vless_inbound =
  vi_users :: "bytes \<rightharpoonup> vless_user"

definition NewVLESSInbound :: "vless_user list \<Rightarrow> vless_inbound" where
  "NewVLESSInbound users = \<lparr>vi_users = fold (\<lambda>u m. m(vu_UUID u \<mapsto> u)) users Map.empty\<rparr>"

definition vless_AddUser :: "vless_user \<Rightarrow> vless_inbound \<Rightarrow> vless_inbound" where
  "vless_AddUser u h = h\<lparr>vi_users := (vi_users h)(vu_UUID u \<mapsto> u)\<rparr>"

definition vless_RemoveUser :: "bytes \<Rightarrow> vless_inbound \<Rightarrow> vless_inbound" where
  "vless_RemoveUser uuid h = h\<lparr>vi_users := (vi_users h)(uuid := None)\<rparr>"

definition CmdTCP :: byte where [simp]: "CmdTCP = 1"
definition CmdUDP :: byte where [simp]: "CmdUDP = 2"
definition CmdMux :: byte where [simp]: "CmdMux = 3"

text \<open>A missing type byte leaves the zero of the fresh buffer; the name length reuses the type's buffer.\<close>

definition vless_parseTarget :: "conn \<Rightarrow> conn \<times> target go" where
  "vless_parseTarget c =
     (let (t, s1) = (case c_in c of [] \<Rightarrow> (0, []) | x # xs \<Rightarrow> (x, xs))
      in case decode_host t 1 2 3 t s1 of
           (None, s2) \<Rightarrow> (c\<lparr>c_in := s2\<rparr>, Fail (Error ''vless: unknown address type''))
         | (Some h, s2) \<Rightarrow> (case decode_port s2 of (port, s3) \<Rightarrow> (c\<lparr>c_in := s3\<rparr>, Return (h, port))))"

definition vless_command :: "conn \<Rightarrow> conn \<times> target go" where
  "vless_command c =
     (case readn 17 (c_in c) of
        (Fail e, s) \<Rightarrow> (c\<lparr>c_in := s\<rparr>, Fail (Error ''vless: read opts''))
      | (Panic, s) \<Rightarrow> (c\<lparr>c_in := s\<rparr>, Panic)
      | (Return buf, s) \<Rightarrow>
          let cmd = buf ! 16
          in if cmd \<noteq> CmdTCP \<and> cmd \<noteq> CmdUDP \<and> cmd \<noteq> CmdMux
             then (c\<lparr>c_in := s\<rparr>, Fail (Error ''vless: unknown command''))
             else (case vless_parseTarget (c\<lparr>c_in := s\<rparr>) of
               (c', Return target) \<Rightarrow> (fst (conn_write [0, 0] c'), Return target)
             | r \<Rightarrow> r))"

definition vless_Handshake :: "vless_inbound \<Rightarrow> conn \<Rightarrow> conn \<times> target go" where
  "vless_Handshake h c =
     (case readn 1 (c_in c) of
        (Fail e, s) \<Rightarrow> (c\<lparr>c_in := s\<rparr>, Fail (Error ''vless: read version''))
      | (Panic, s) \<Rightarrow> (c\<lparr>c_in := s\<rparr>, Panic)
      | (Return v, s) \<Rightarrow>
          if v ! 0 \<noteq> 0 then (c\<lparr>c_in := s\<rparr>, Fail (Error ''vless: invalid version''))
          else (case readn 16 s of
             (Fail e, s1) \<Rightarrow> (c\<lparr>c_in := s1\<rparr>, Fail (Error ''vless: read UUID''))
           | (Panic, s1) \<Rightarrow> (c\<lparr>c_in := s1\<rparr>, Panic)
           | (Return u, s1) \<Rightarrow>
               (case vi_users h (uuid_string u) of
                  None \<Rightarrow> (c\<lparr>c_in := s1\<rparr>, Fail ErrAuthFailed)
                | Some user \<Rightarrow> vless_command (c\<lparr>c_in := s1\<rparr>))))"

text \<open>\<open>Process\<close> dispatches the connection or returns the error.\<close>

definition vless_Process :: "vless_inbound \<Rightarrow> conn \<Rightarrow> conn go" where
  "vless_Process h c =
     (case vless_Handshake h c of
        (c', Return target) \<Rightarrow> Return c' | (c', Fail e) \<Rightarrow> Fail e | (c', Panic) \<Rightarrow> Panic)"

section \<open>Outbound\<close>

definition vless_buildRequest :: "(byte \<Rightarrow> byte \<Rightarrow> byte) \<Rightarrow> bytes \<Rightarrow> target \<Rightarrow> bool \<Rightarrow> bytes go" where
  "vless_buildRequest bad uuid target isUDP =
     go_bind (parseUUID bad uuid) (\<lambda>uuidBytes.
       Return ([0] @ uuidBytes @ [0] @ (encode_host 1 2 3 (fst target) @ put16 (snd target)) @
         [if isUDP then CmdUDP else CmdTCP]))"

section \<open>UUIDs round trip\<close>

lemma nibbles: "drop_bit 4 (b :: byte) < 16" "b AND 15 < 16"
proof -
  have "unat (drop_bit 4 b) < 16"
    using unat_bound [of b] by (simp add: drop_bit_eq_div unat_div_distrib)
  then show "drop_bit 4 b < 16"
    by (simp add: word_less_nat_alt)
  have "b AND 15 = take_bit 4 b"
    by (simp add: take_bit_eq_mask mask_eq_exp_minus_1)
  then have "unat (b AND 15) = unat b mod 16"
    by (simp add: take_bit_eq_mod unat_mod_distrib)
  then show "b AND 15 < 16"
    by (simp add: word_less_nat_alt)
qed

lemma unhex_hex_char:
  assumes "(d :: byte) < 16"
  shows "unhex (hex_char d) = Some d \<and> hex_char d \<noteq> dash"
proof -
  have u: "unat d < 16"
    using assms by (simp add: word_less_nat_alt)
  have ne: "w \<noteq> dash" if "45 < unat w" for w :: byte
    using that by (auto simp: dash_def)
  show ?thesis
  proof (cases "d < 10")
    case True
    then have "unat d < 10" and "unat (48 + d) = 48 + unat d"
      by (simp_all add: word_less_nat_alt unat_word_ariths)
    with True ne [of "48 + d"] show ?thesis
      by (simp add: hex_char_def unhex_def word_le_nat_alt)
  next
    case False
    then have "10 \<le> unat d" and "unat (87 + d) = 87 + unat d"
      using u by (simp_all add: word_less_nat_alt unat_word_ariths)
    with False u ne [of "87 + d"] show ?thesis
      by (simp add: hex_char_def unhex_def word_le_nat_alt)
  qed
qed

lemma nibble_join: "push_bit 4 (drop_bit 4 b) OR (b AND 15) = (b :: byte)"
proof -
  have "b AND 15 = take_bit 4 b"
    by (simp add: take_bit_eq_mask mask_eq_exp_minus_1)
  then show ?thesis
    by (intro bit_word_eqI) (auto simp: bit_simps)
qed

lemma hex_of_Cons: "hex_of (b # bs) = hex_byte b @ hex_of bs"
  by (simp add: hex_of_def)

lemma hex_of_append: "hex_of (xs @ ys) = hex_of xs @ hex_of ys"
  by (simp add: hex_of_def)

lemma length_hex_of [simp]: "length (hex_of bs) = 2 * length bs"
  by (induction bs) (simp_all add: hex_of_def hex_byte_def)

lemma hex_of_no_dash: "filter (\<lambda>c. c \<noteq> dash) (hex_of bs) = hex_of bs"
  by (induction bs) (simp_all add: hex_of_def hex_byte_def unhex_hex_char nibbles)

lemma scan_hex_of: "i < length bs \<Longrightarrow> scan_pair bad (hex_of bs ! (2 * i)) (hex_of bs ! (2 * i + 1)) = bs ! i"
proof (induction bs arbitrary: i)
  case (Cons b bs)
  show ?case
  proof (cases i)
    case 0
    then show ?thesis
      by (simp add: hex_of_Cons hex_byte_def scan_pair_def unhex_hex_char nibbles nibble_join)
  next
    case (Suc j)
    then show ?thesis
      using Cons.IH [of j] Cons.prems by (simp add: hex_of_Cons hex_byte_def)
  qed
qed simp

lemma uuid_string_clean:
  assumes "length b = 16"
  shows "filter (\<lambda>c. c \<noteq> dash) (uuid_string b) = hex_of b"
proof -
  have "hex_of b = hex_of (take 4 b @ take 2 (drop 4 b) @ take 2 (drop 6 b) @ take 2 (drop 8 b) @ drop 10 b)"
    using append_take_drop_id [of 4 b] append_take_drop_id [of 2 "drop 4 b"]
      append_take_drop_id [of 2 "drop 6 b"] append_take_drop_id [of 2 "drop 8 b"]
    by simp
  then show ?thesis
    using assms by (simp add: uuid_string_def hex_of_no_dash hex_of_append dash_def [symmetric])
qed

lemma parseUUID_string:
  assumes "length b = 16"
  shows "parseUUID bad (uuid_string b) = Return b"
proof -
  have "map (\<lambda>i. scan_pair bad (hex_of b ! (2 * i)) (hex_of b ! (2 * i + 1))) [0..<16] = map (\<lambda>i. b ! i) [0..<16]"
    using assms by (intro map_cong refl scan_hex_of) simp
  also have "\<dots> = b"
    using assms map_nth [of b] by simp
  finally show ?thesis
    using assms by (simp add: parseUUID_def uuid_string_clean Let_def)
qed

section \<open>What the server makes of a client's request\<close>

lemma vless_request_IPv4:
  assumes "length u = 16" and "length a = 4"
  shows "vless_buildRequest bad (uuid_string u) (HostIP a, port) isUDP =
    Return ([0] @ u @ ([0, 1] @ a @ put16 port @ [if isUDP then CmdUDP else CmdTCP]))"
  using assms by (simp add: vless_buildRequest_def parseUUID_string encode_host_def To4_def)

text \<open>
  The client's UUID is recognised, but client and server disagree about the rest of the
  header. For an IPv4 target the server needs eight more bytes than the client sends: a
  client that sends no data is stuck until the connection ends; otherwise the eighth byte of
  the client's data is taken for the command, and unless it is 1, 2 or 3 the connection is
  refused; in that case the target is parsed out of the client's data as well, and the
  address and port asked for are never looked at.
\<close>

lemma vless_header_mismatch:
  assumes "length u = 16" "length a = 4" and user: "vi_users h (uuid_string u) = Some usr"
    and req: "vless_buildRequest bad (uuid_string u) (HostIP a, port) isUDP = Return req"
    and conn: "c_in c = req @ payload"
  shows "vless_Handshake h c =
    (if length payload < 8 then (c\<lparr>c_in := []\<rparr>, Fail (Error ''vless: read opts''))
     else if payload ! 7 \<notin> {CmdTCP, CmdUDP, CmdMux}
     then (c\<lparr>c_in := drop 8 payload\<rparr>, Fail (Error ''vless: unknown command''))
     else (case vless_parseTarget (c\<lparr>c_in := drop 8 payload\<rparr>) of
             (c', Return target) \<Rightarrow> (fst (conn_write [0, 0] c'), Return target)
           | r \<Rightarrow> r))"
proof -
  define H where "H = [0, 1] @ a @ put16 port @ [if isUDP then CmdUDP else CmdTCP]"
  have lenH: "length H = 9"
    using assms(2) by (simp add: H_def)
  have c: "c_in c = [0] @ u @ H @ payload"
    using conn req vless_request_IPv4 [OF assms(1,2), of bad port isUDP] by (simp add: H_def)
  have cmd: "vless_Handshake h c = vless_command (c\<lparr>c_in := H @ payload\<rparr>)"
  proof -
    have "readn 1 (c_in c) = (Return [0], u @ H @ payload)"
      unfolding c by (rule readn_append) simp
    then show ?thesis
      using assms(1) user by (simp add: vless_Handshake_def)
  qed
  show ?thesis
  proof (cases "length payload < 8")
    case True
    then have "readn 17 (H @ payload) = (Fail (if H @ payload = [] then EOF else UnexpectedEOF), [])"
      using lenH by (intro readn_short) simp
    with True show ?thesis
      by (simp add: cmd vless_command_def)
  next
    case False
    then have "readn 17 (H @ payload) = (Return (H @ take 8 payload), drop 8 payload)"
      using lenH by (simp add: readn_long)
    moreover have "(H @ take 8 payload) ! 16 = payload ! 7"
      using lenH False by (simp add: nth_append)
    ultimately show ?thesis
      using False by (simp add: cmd vless_command_def Let_def)
  qed
qed

end
