(* ===== verification/Vmess.thy ===== *)
theory Vmess
  imports Net Crypto
begin

text \<open>
  \<open>app/proxy/vmess/vmess.go\<close>: accounts, the authentication of a request, the encrypted body reader
  and the response writer of the server, and the request header of the client. MD5, SHA-256 and
  HMAC are parameters with their output lengths as hypothesis; so are the ciphers (\<open>Crypto\<close>). The
  clock is an argument, read once per account. An account's UUID is a string of ASCII bytes.
  The client's dialling and copying are in \<open>Outbound\<close>.
\<close>

section \<open>Accounts\<close>

definition ErrInvalidUser :: error where "ErrInvalidUser = Error ''vmess: invalid user''"
definition ErrInvalidRequest :: error where "ErrInvalidRequest = Error ''vmess: invalid request''"

definition ascii :: "string \<Rightarrow> bytes" where
  "ascii s = map of_char s"

definition KDFSaltConstAuthIDEncryptionKey :: bytes where
  "KDFSaltConstAuthIDEncryptionKey = ascii ''AES Auth ID Encryption''"
definition KDFSaltConstAEADRespHeaderLenKey :: bytes where
  "KDFSaltConstAEADRespHeaderLenKey = ascii ''AEAD Resp Header Len Key''"
definition KDFSaltConstAEADRespHeaderLenIV :: bytes where
  "KDFSaltConstAEADRespHeaderLenIV = ascii ''AEAD Resp Header Len IV''"
definition KDFSaltConstAEADRespHeaderPayloadKey :: bytes where
  "KDFSaltConstAEADRespHeaderPayloadKey = ascii ''AEAD Resp Header Key''"
definition KDFSaltConstAEADRespHeaderPayloadIV :: bytes where
  "KDFSaltConstAEADRespHeaderPayloadIV = ascii ''AEAD Resp Header IV''"

record hashlib =
  hs_md5 :: "bytes \<Rightarrow> bytes"
  hs_sha256 :: "bytes \<Rightarrow> bytes"
  hs_hmac_md5 :: "bytes \<Rightarrow> bytes \<Rightarrow> bytes"
  hs_hmac_sha256 :: "bytes \<Rightarrow> bytes \<Rightarrow> bytes"

definition hashlib_ok :: "hashlib \<Rightarrow> bool" where
  "hashlib_ok hl \<longleftrightarrow>
     (\<forall>m. length (hs_md5 hl m) = 16 \<and> length (hs_sha256 hl m) = 32) \<and>
     (\<forall>k m. length (hs_hmac_md5 hl k m) = 16 \<and> length (hs_hmac_sha256 hl k m) = 32)"

record account =
  va_Cipher :: int
  va_UUIDKey :: bytes

definition GenerateUUIDKey :: "hashlib \<Rightarrow> bytes \<Rightarrow> bytes" where
  "GenerateUUIDKey hl uuid = hs_md5 hl (filter (\<lambda>c. c \<noteq> 45) uuid)"

definition NewAccount :: "hashlib \<Rightarrow> bytes \<Rightarrow> int \<Rightarrow> account" where
  "NewAccount hl uuid cipherType = \<lparr>va_Cipher = cipherType, va_UUIDKey = GenerateUUIDKey hl uuid\<rparr>"

text \<open>The server's and the client's function have the same body.\<close>

definition auth_id :: "hashlib \<Rightarrow> u64 \<Rightarrow> bytes \<Rightarrow> bytes" where
  "auth_id hl ts key = take 16 (hs_hmac_md5 hl KDFSaltConstAuthIDEncryptionKey (put64 ts @ take 8 key))"

definition generateAuthID :: "hashlib \<Rightarrow> u64 \<Rightarrow> account \<Rightarrow> bytes" where
  "generateAuthID hl ts a = auth_id hl ts (va_UUIDKey a)"

definition generateOutboundAuthID :: "hashlib \<Rightarrow> u64 \<Rightarrow> bytes \<Rightarrow> bytes" where
  "generateOutboundAuthID hl ts uuidKey = auth_id hl ts uuidKey"

section \<open>The server\<close>

fun find_account :: "hashlib \<Rightarrow> (nat \<Rightarrow> u64) \<Rightarrow> nat \<Rightarrow> bytes \<Rightarrow> account list \<Rightarrow> account option" where
  "find_account hl now i authID [] = None"
| "find_account hl now i authID (u # us) =
     (if authID = generateAuthID hl (now i) u then Some u else find_account hl now (Suc i) authID us)"

definition vmess_parseHeader ::
  "hashlib \<Rightarrow> (nat \<Rightarrow> u64) \<Rightarrow> account list \<Rightarrow> stream \<Rightarrow> (account \<times> bytes \<times> byte) go \<times> stream" where
  "vmess_parseHeader hl now users s =
     (case read_full 49 s of
        Fail e \<Rightarrow> (Fail (Error ''vmess: read auth info''), [])
      | Panic \<Rightarrow> (Panic, [])
      | Return (buf, rest) \<Rightarrow>
          if buf ! 0 \<noteq> 1 then (Fail ErrInvalidRequest, rest)
          else case find_account hl now 0 (take 16 (drop 1 buf)) users of
                 None \<Rightarrow> (Fail ErrInvalidUser, rest)
               | Some a \<Rightarrow> (Return (a, take 16 (drop 17 buf), buf ! 33), rest))"

definition kdf :: "hashlib \<Rightarrow> bytes \<Rightarrow> bytes \<Rightarrow> bytes" where
  "kdf hl key salt = hs_hmac_sha256 hl salt key"

definition kdfSha256 :: "hashlib \<Rightarrow> bytes \<Rightarrow> bytes \<Rightarrow> bytes" where
  "kdfSha256 hl key path = hs_sha256 hl (key @ path)"

text \<open>The AEAD of a reader may be nil, which panics when used.\<close>

record vmess_reader =
  vr_aead :: "aead option"
  vr_nonce :: bytes
  vr_buf :: bytes
  vr_count :: u16

record vmess_writer =
  vw_lenKey :: bytes
  vw_lenIV :: bytes
  vw_payloadKey :: bytes
  vw_payloadIV :: bytes
  vw_headerSent :: bool

definition decryptBody :: "cipherlib \<Rightarrow> hashlib \<Rightarrow> account \<Rightarrow> bytes \<Rightarrow> byte \<Rightarrow> vmess_reader \<times> vmess_writer" where
  "decryptBody lib hl a bodyAuth bodyOpt =
     (let key = va_UUIDKey a;
          aeadKey = kdfSha256 hl key bodyAuth;
          nonce = kdfSha256 hl key [bodyOpt];
          ae = (if va_Cipher a = CipherAES128GCM then Some (lib_GCM lib (take 16 aeadKey))
                else if va_Cipher a = CipherChacha20Poly1305 then
                  (case NewAEADCipher lib CipherChacha20Poly1305 (take 32 aeadKey) of
                     Return c \<Rightarrow> Some (ac_aead c) | _ \<Rightarrow> None)
                else Some (lib_GCM lib (take 16 aeadKey)))
      in (\<lparr>vr_aead = ae, vr_nonce = nonce, vr_buf = [], vr_count = 0\<rparr>,
          \<lparr>vw_lenKey = kdf hl key KDFSaltConstAEADRespHeaderLenKey,
           vw_lenIV = kdf hl key KDFSaltConstAEADRespHeaderLenIV,
           vw_payloadKey = kdf hl key KDFSaltConstAEADRespHeaderPayloadKey,
           vw_payloadIV = kdf hl key KDFSaltConstAEADRespHeaderPayloadIV, vw_headerSent = False\<rparr>))"

definition reader_nonce :: "vmess_reader \<Rightarrow> bytes" where
  "reader_nonce r = take 8 (vr_nonce r) @ put16 (vr_count r) @ take 2 (drop 10 (vr_nonce r))"

text \<open>\<open>bytes.Buffer.Read\<close>: an empty buffer is the end of file, unless nothing was asked for.\<close>

definition buf_Read :: "nat \<Rightarrow> vmess_reader \<Rightarrow> vmess_reader \<times> bytes go" where
  "buf_Read n r =
     (if vr_buf r = [] then (r, if n = 0 then Return [] else Fail EOF)
      else (r\<lparr>vr_buf := drop n (vr_buf r)\<rparr>, Return (take n (vr_buf r))))"

definition reader_Open :: "vmess_reader \<Rightarrow> bytes \<Rightarrow> bytes go" where
  "reader_Open r ct = (case vr_aead r of None \<Rightarrow> Panic | Some a \<Rightarrow> aead_Open a (reader_nonce r) ct [])"

definition vmess_Read :: "nat \<Rightarrow> vmess_reader \<Rightarrow> stream \<Rightarrow> vmess_reader \<times> bytes go \<times> stream" where
  "vmess_Read n r s =
     (if length (vr_buf r) > 0 then (case buf_Read n r of (r', out) \<Rightarrow> (r', out, s))
      else case read_full 18 s of
        Fail e \<Rightarrow> (r, Fail e, [])
      | Panic \<Rightarrow> (r, Panic, [])
      | Return (header, s1) \<Rightarrow>
          let r1 = r\<lparr>vr_count := vr_count r + 1\<rparr>
          in (case reader_Open r1 (take 2 header) of
                Fail e \<Rightarrow> (r1, Fail e, s1)
              | Panic \<Rightarrow> (r1, Panic, s1)
              | Return decLen \<Rightarrow>
                  (case go_slice decLen 0 2 of
                     Return lenb \<Rightarrow>
                       (case read_full (unat (get16 lenb) + 16) s1 of
                          Fail e \<Rightarrow> (r1, Fail e, [])
                        | Panic \<Rightarrow> (r1, Panic, [])
                        | Return (payload, s2) \<Rightarrow>
                            let r2 = r1\<lparr>vr_count := vr_count r1 + 1\<rparr>
                            in (case reader_Open r2 payload of
                                  Fail e \<Rightarrow> (r2, Fail e, s2)
                                | Panic \<Rightarrow> (r2, Panic, s2)
                                | Return decPayload \<Rightarrow>
                                    (case buf_Read n (r2\<lparr>vr_buf := decPayload\<rparr>) of
                                       (r3, out) \<Rightarrow> (r3, out, s2))))
                   | _ \<Rightarrow> (r1, Panic, s1))))"

definition writeResponseHeader :: "cipherlib \<Rightarrow> bytes \<Rightarrow> bytes \<Rightarrow> vmess_writer \<Rightarrow> conn \<Rightarrow> conn \<times> unit go" where
  "writeResponseHeader lib rnd1 rnd2 w c =
     (let nonce = take 4 rnd1 @ take 8 (drop 4 (vw_lenIV w));
          noncePayload = take 4 rnd2 @ take 8 (drop 4 (vw_payloadIV w))
      in case (aead_Seal (lib_GCM lib (vw_lenKey w)) nonce [0] [],
               aead_Seal (lib_GCM lib (vw_payloadKey w)) noncePayload [0] []) of
           (Return encLen, Return encPayload) \<Rightarrow>
             (case conn_write encLen c of
                (c1, Some e) \<Rightarrow> (c1, Fail e)
              | (c1, None) \<Rightarrow>
                  (case conn_write encPayload c1 of
                     (c2, Some e) \<Rightarrow> (c2, Fail e)
                   | (c2, None) \<Rightarrow> (c2, Return ())))
         | _ \<Rightarrow> (c, Panic))"

definition vmess_Write ::
  "cipherlib \<Rightarrow> bytes \<Rightarrow> bytes \<Rightarrow> bytes \<Rightarrow> vmess_writer \<Rightarrow> conn \<Rightarrow> vmess_writer \<times> conn \<times> nat go" where
  "vmess_Write lib rnd1 rnd2 p w c =
     (let (w1, c1, r) =
            (if vw_headerSent w then (w, c, Return ())
             else case writeResponseHeader lib rnd1 rnd2 w c of
                    (c1, Return _) \<Rightarrow> (w\<lparr>vw_headerSent := True\<rparr>, c1, Return ())
                  | (c1, r) \<Rightarrow> (w, c1, r))
      in case r of
           Fail e \<Rightarrow> (w1, c1, Fail e)
         | Panic \<Rightarrow> (w1, c1, Panic)
         | Return _ \<Rightarrow>
             (case conn_write p c1 of
                (c2, Some e) \<Rightarrow> (w1, c2, Fail e)
              | (c2, None) \<Rightarrow> (w1, c2, Return (length p))))"

text \<open>\<open>Process\<close>: the connection handed on is the body reader and the response writer.\<close>

definition vmess_Process ::
  "cipherlib \<Rightarrow> hashlib \<Rightarrow> (nat \<Rightarrow> u64) \<Rightarrow> account list \<Rightarrow> stream \<Rightarrow> (vmess_reader \<times> vmess_writer) go \<times> stream" where
  "vmess_Process lib hl now users s =
     (case vmess_parseHeader hl now users s of
        (Return (a, bodyAuth, bodyOpt), rest) \<Rightarrow> (Return (decryptBody lib hl a bodyAuth bodyOpt), rest)
      | (Fail e, rest) \<Rightarrow> (Fail e, rest)
      | (Panic, rest) \<Rightarrow> (Panic, rest))"

section \<open>The client\<close>

fun fnv1a32_from :: "u32 \<Rightarrow> bytes \<Rightarrow> u32" where
  "fnv1a32_from hash [] = hash"
| "fnv1a32_from hash (b # bs) = fnv1a32_from ((hash XOR ucast b) * 0x01000193) bs"

definition fnv1a32 :: "bytes \<Rightarrow> u32" where
  "fnv1a32 bs = fnv1a32_from 0x811c9dc5 bs"

text \<open>The padding length is the constant 0; the random IV of this function is not used.\<close>

definition request_bytes :: "bytes \<Rightarrow> bytes \<Rightarrow> int \<Rightarrow> target \<Rightarrow> byte \<Rightarrow> bytes" where
  "request_bytes authID bodyKey security target cmd =
     [1] @ authID @ bodyKey @ [word_of_int security OR push_bit 4 (word_of_int security)] @ [0] @
     (if cmd = 2 then [0] else []) @ [cmd] @ [0] @ encode_host 1 2 3 (fst target) @ put16 (snd target)"

definition buildVMessRequestHeader :: "bytes \<Rightarrow> bytes \<Rightarrow> int \<Rightarrow> target \<Rightarrow> byte \<Rightarrow> bytes" where
  "buildVMessRequestHeader authID bodyKey security target cmd =
     (let header = request_bytes authID bodyKey security target cmd
      in header @ put32 (fnv1a32 header))"

text \<open>
  What the client writes before it copies its user's bytes, unencrypted, and the reader it uses
  for the response (\<open>None\<close>: the connection itself). \<open>rnd\<close> are the three random keys.
\<close>

definition vmess_client_open ::
  "cipherlib \<Rightarrow> hashlib \<Rightarrow> u64 \<Rightarrow> bytes \<times> bytes \<times> bytes \<Rightarrow> bytes \<Rightarrow> int \<Rightarrow> target \<Rightarrow> bool \<Rightarrow> bytes \<times> vmess_reader option" where
  "vmess_client_open lib hl ts rnd uuid security target isUDP =
     (case rnd of (headerKey, bodyKey, bodyIV) \<Rightarrow>
      let uuidKey = GenerateUUIDKey hl uuid;
          cmd = (if isUDP then 2 else 1);
          header = buildVMessRequestHeader (generateOutboundAuthID hl ts uuidKey) headerKey security target cmd
      in if security \<noteq> 0 \<and> security \<noteq> 3
         then (header @ bodyKey @ bodyIV,
               Some \<lparr>vr_aead = (if security = CipherAES128GCM then Some (lib_GCM lib bodyKey) else None),
                     vr_nonce = bodyIV, vr_buf = [], vr_count = 0\<rparr>)
         else (header, None))"

section \<open>What the server makes of it\<close>

text \<open>An AEAD rejects what is shorter than its tag.\<close>

definition rejects_short :: "aead \<Rightarrow> bool" where
  "rejects_short a \<longleftrightarrow> (\<forall>nonce ct ad. length ct < ae_Overhead a \<longrightarrow> ae_open a nonce ct ad = None)"

definition lib_rejects_short :: "cipherlib \<Rightarrow> bool" where
  "lib_rejects_short lib \<longleftrightarrow> (\<forall>key. rejects_short (lib_GCM lib key) \<and> rejects_short (lib_Chacha lib key))"

lemma null_rejects_short: "lib_rejects_short null_lib"
proof -
  have "length (take 16 ct) < 16" if "length ct < 16" for ct :: bytes
    using that by simp
  then have "take 16 ct \<noteq> replicate 16 0" if "length ct < 16" for ct :: bytes
    using that by (metis length_replicate less_irrefl)
  then show ?thesis
    by (simp add: lib_rejects_short_def rejects_short_def null_lib_def null_aead_def)
qed

lemma decryptBody_reader:
  assumes "cipherlib_ok lib" "lib_rejects_short lib" "hashlib_ok hl"
  shows "\<exists>ae. vr_aead (fst (decryptBody lib hl a auth opt)) = Some ae \<and> aead_ok 12 ae \<and> rejects_short ae \<and>
    length (vr_nonce (fst (decryptBody lib hl a auth opt))) = 32 \<and> vr_buf (fst (decryptBody lib hl a auth opt)) = []"
  using assms
  by (auto simp: decryptBody_def Let_def cipherlib_ok_def lib_rejects_short_def hashlib_ok_def kdfSha256_def NewAEADCipher_def)

lemma vmess_Read_fails:
  assumes "vr_aead r = Some ae" "aead_ok 12 ae" "rejects_short ae" "length (vr_nonce r) = 32" "vr_buf r = []"
  shows "\<exists>r' e s'. vmess_Read n r s = (r', Fail e, s') \<and>
    vr_aead r' = Some ae \<and> vr_nonce r' = vr_nonce r \<and> vr_buf r' = []"
proof (cases "read_full 18 s")
  case (Return p)
  obtain header s1 where p: "p = (header, s1)"
    by (cases p)
  let ?r = "r\<lparr>vr_count := vr_count r + 1\<rparr>"
  have "reader_Open ?r (take 2 header) = Fail (Error ''message authentication failed'')"
    using assms by (simp add: reader_Open_def reader_nonce_def aead_Open_def aead_ok_def rejects_short_def)
  then show ?thesis
    using assms Return p by (simp add: vmess_Read_def Let_def)
qed (use assms in \<open>simp_all add: vmess_Read_def\<close>)

text \<open>The bytes delivered by a sequence of reads, errors ignored.\<close>

fun vmess_reads :: "nat list \<Rightarrow> vmess_reader \<Rightarrow> stream \<Rightarrow> bytes" where
  "vmess_reads [] r s = []"
| "vmess_reads (n # ns) r s =
     (case vmess_Read n r s of
        (r', Return out, s') \<Rightarrow> out @ vmess_reads ns r' s'
      | (r', _, s') \<Rightarrow> vmess_reads ns r' s')"

lemma vmess_reads_Nil:
  assumes "aead_ok 12 ae" "rejects_short ae"
  shows "vr_aead r = Some ae \<Longrightarrow> length (vr_nonce r) = 32 \<Longrightarrow> vr_buf r = [] \<Longrightarrow> vmess_reads ns r s = []"
proof (induction ns arbitrary: r s)
  case (Cons n ns)
  obtain r' e s' where r: "vmess_Read n r s = (r', Fail e, s')" "vr_aead r' = Some ae" "vr_nonce r' = vr_nonce r" "vr_buf r' = []"
    using vmess_Read_fails [OF Cons.prems(1) assms Cons.prems(2,3)] by blast
  have "vmess_reads ns r' s' = []"
    by (rule Cons.IH) (use r Cons.prems in simp_all)
  with r show ?case
    by simp
qed simp

lemma find_account_exists:
  assumes "\<forall>i. now i = ts" "a \<in> set users" "generateAuthID hl ts a = authID"
  shows "\<exists>b \<in> set users. find_account hl now i authID users = Some b \<and> generateAuthID hl ts b = authID"
  using assms by (induction users arbitrary: i) auto

text \<open>
  C28: the server recognises the header of a client with a configured UUID when their clocks
  show the same second, and takes over its key; but whatever the client sends then, the server
  never reads a byte of it: the reader decrypts the two length bytes without their tag, which
  every AEAD rejects.
\<close>
theorem vmess_body_unreadable:
  assumes libs: "cipherlib_ok lib" "lib_rejects_short lib" "hashlib_ok hl"
    and user: "(uuid, c) \<in> set us" "\<forall>i. now i = ts" "length headerKey = 16"
    and opened: "vmess_client_open lib hl ts (headerKey, bodyKey, bodyIV) uuid security target isUDP = (out, rd)"
    and enough: "49 \<le> length (out @ rest)"
  defines "users \<equiv> map (\<lambda>(uuid, c). NewAccount hl uuid c) us"
  shows "\<exists>a opt s r w. vmess_parseHeader hl now users (out @ rest) = (Return (a, headerKey, opt), s) \<and> a \<in> set users \<and>
    generateAuthID hl ts a = generateOutboundAuthID hl ts (GenerateUUIDKey hl uuid) \<and>
    vmess_Process lib hl now users (out @ rest) = (Return (r, w), s) \<and> (\<forall>ns. vmess_reads ns r s = [])"
proof -
  let ?id = "generateOutboundAuthID hl ts (GenerateUUIDKey hl uuid)"
  let ?opt = "word_of_int security OR push_bit 4 (word_of_int security) :: byte"
  have id: "length ?id = 16"
    using libs(3) by (simp add: generateOutboundAuthID_def auth_id_def hashlib_ok_def)
  obtain tl where out: "out @ rest = [1] @ ?id @ headerKey @ [?opt] @ tl"
    using opened by (auto simp: vmess_client_open_def buildVMessRequestHeader_def request_bytes_def Let_def split: if_splits)
  let ?buf = "take 49 (out @ rest)"
  have buf: "?buf = [1] @ ?id @ headerKey @ [?opt] @ take 15 tl"
    unfolding out using id user(3) by simp
  have parts: "?buf ! 0 = 1" "take 16 (drop 1 ?buf) = ?id" "take 16 (drop 17 ?buf) = headerKey" "?buf ! 33 = ?opt"
    unfolding buf using id user(3) by (simp_all add: nth_append)
  have "NewAccount hl uuid c \<in> set users" "generateAuthID hl ts (NewAccount hl uuid c) = ?id"
    using user(1) by (force simp: users_def generateAuthID_def generateOutboundAuthID_def NewAccount_def)+
  from find_account_exists [OF user(2) this] obtain a where
    a: "a \<in> set users" "find_account hl now 0 ?id users = Some a" "generateAuthID hl ts a = ?id"
    by blast
  let ?s = "drop 49 (out @ rest)"
  have "read_full 49 (out @ rest) = Return (?buf, ?s)"
    using enough by (simp add: read_full_def)
  then have header: "vmess_parseHeader hl now users (out @ rest) = (Return (a, headerKey, ?opt), ?s)"
    using a(2) by (simp only: vmess_parseHeader_def go.case prod.case parts) simp
  moreover obtain r w where rw: "decryptBody lib hl a headerKey ?opt = (r, w)"
    by (cases "decryptBody lib hl a headerKey ?opt")
  moreover have "vmess_reads ns r s = []" for ns s
    using decryptBody_reader [OF libs, of a headerKey ?opt] vmess_reads_Nil rw by auto
  ultimately show ?thesis
    using a by (auto simp: vmess_Process_def)
qed

theorem vmess_body_unreadable_witness:
  "\<exists>hl a opt s. vmess_parseHeader hl (\<lambda>_. 7) [NewAccount hl [97] 1]
     (fst (vmess_client_open null_lib hl 7 (replicate 16 1, replicate 16 2, replicate 16 3) [97] 1 (HostIP [1, 2, 3, 4], 80) False)) =
       (Return (a, replicate 16 1, opt), s)"
proof -
  define hl where "hl = \<lparr>hs_md5 = (\<lambda>_. replicate 16 5), hs_sha256 = (\<lambda>_. replicate 32 6),
    hs_hmac_md5 = (\<lambda>_ _. replicate 16 7), hs_hmac_sha256 = (\<lambda>_ _. replicate 32 8)\<rparr>"
  have ok: "hashlib_ok hl"
    by (simp add: hashlib_ok_def hl_def)
  obtain out rd where out: "vmess_client_open null_lib hl 7 (replicate 16 1, replicate 16 2, replicate 16 3) [97] 1
      (HostIP [1, 2, 3, 4], 80) False = (out, rd)"
    by (cases "vmess_client_open null_lib hl 7 (replicate 16 1, replicate 16 2, replicate 16 3) [97] 1
      (HostIP [1, 2, 3, 4], 80) False")
  then have "49 \<le> length (out @ [])"
    by (auto simp: vmess_client_open_def buildVMessRequestHeader_def request_bytes_def hl_def
        generateOutboundAuthID_def auth_id_def encode_host_def To4_def Let_def)
  from vmess_body_unreadable [OF null_lib_ok null_rejects_short ok, of "[97]" 1 "[([97], 1)]" "\<lambda>_. 7" 7, OF _ _ _ out this]
  show ?thesis
    using out by (intro exI [of _ hl]) auto
qed

end
