(* ===== verification/Outbound.thy ===== *)
theory Outbound
  imports Relay Trojan Vless Vmess Grpc Websocket Dccp_Transport
begin

text \<open>
  \<open>Process\<close> of the outbounds of \<open>proxy/trojan/trojan.go\<close>, \<open>proxy/vless/vless.go\<close>, \<open>proxy/vmess/vmess.go\<close>,
  \<open>proxy/registry.go\<close> and \<open>proxy/proxy.go\<close>, up to the point where the two copies start (\<open>Relay\<close>): the
  transport dialled, the request written, the answer read first. The network and the packages
  \<open>gorilla/websocket\<close> and \<open>quic-go\<close> are a parameter; a dialled connection is the byte stream it
  carries. An outbound that ends after a dial closes its connection.
\<close>

section \<open>Dialling\<close>

record stream_opts =
  so_Network :: string
  so_ws :: ws_settings
  so_Path :: "string option"
  so_TLS :: "quic_tls_settings option"
  so_GRPC :: "(string \<times> bool) option"

text \<open>
  \<open>nl_tcp\<close>: \<open>net.DialTimeout\<close> with the seconds and the address; \<open>nl_ws\<close>: the upgrade of a connection
  for a URL; \<open>nl_quic\<close>: a stream of a new QUIC connection; \<open>nl_stream\<close>: the byte stream that a gRPC
  connection carries.
\<close>

record netlib =
  nl_tcp :: "nat \<Rightarrow> string \<Rightarrow> conn go"
  nl_ws :: "conn \<Rightarrow> string \<Rightarrow> conn go"
  nl_quic :: "string \<Rightarrow> quic_tls \<Rightarrow> conn go"
  nl_stream :: "grpc_conn \<Rightarrow> conn"

record server =
  sv_address :: string
  sv_port :: u16
  sv_stream :: "stream_opts option"

definition host_port :: "string \<Rightarrow> u16 \<Rightarrow> string" where
  "host_port addr port = addr @ '':'' @ Itoa (uint port)"

definition ws_path :: "stream_opts \<Rightarrow> string" where
  "ws_path ss = (case so_Path ss of Some p \<Rightarrow> if p \<noteq> [] then p else ''/'' | None \<Rightarrow> ''/'')"

definition dial_ws :: "netlib \<Rightarrow> nat \<Rightarrow> server \<Rightarrow> stream_opts \<Rightarrow> conn go" where
  "dial_ws nl seconds sv ss =
     go_bind (nl_tcp nl seconds (host_port (sv_address sv) (sv_port sv))) (\<lambda>c.
       case nl_ws nl c (ws_url (Some (so_ws ss)) (so_Path ss \<noteq> None) (sv_address sv) (ws_path ss)) of
         Fail e \<Rightarrow> Fail (Error ''websocket dial'')
       | r \<Rightarrow> r)"

definition dial_quic :: "netlib \<Rightarrow> server \<Rightarrow> stream_opts \<Rightarrow> conn go" where
  "dial_quic nl sv ss = nl_quic nl (host_port (sv_address sv) (sv_port sv)) (quic_dial_tls (so_TLS ss))"

definition dial_grpc :: "netlib \<Rightarrow> server \<Rightarrow> stream_opts \<Rightarrow> conn go" where
  "dial_grpc nl sv ss =
     go_map (nl_stream nl) (NewGRPCConn (nl_tcp nl 15 (host_port (sv_address sv) (sv_port sv))) (so_GRPC ss))"

definition trojan_dial :: "netlib \<Rightarrow> server \<Rightarrow> conn go" where
  "trojan_dial nl sv =
     (case sv_stream sv of
        Some ss \<Rightarrow> if so_Network ss = ''ws'' then dial_ws nl 30 sv ss
                  else nl_tcp nl 30 (host_port (sv_address sv) (sv_port sv))
      | None \<Rightarrow> nl_tcp nl 30 (host_port (sv_address sv) (sv_port sv)))"

definition vless_dial :: "netlib \<Rightarrow> server \<Rightarrow> conn go" where
  "vless_dial nl sv =
     (case sv_stream sv of
        Some ss \<Rightarrow>
          if so_Network ss = ''ws'' then dial_ws nl 15 sv ss
          else if so_Network ss = ''quic'' then dial_quic nl sv ss
          else if so_Network ss = ''grpc'' then dial_grpc nl sv ss
          else nl_tcp nl 30 (host_port (sv_address sv) (sv_port sv))
      | None \<Rightarrow> nl_tcp nl 30 (host_port (sv_address sv) (sv_port sv)))"

definition dialByTransport :: "netlib \<Rightarrow> server \<Rightarrow> stream_opts \<Rightarrow> conn go" where
  "dialByTransport nl sv ss =
     (if so_Network ss = ''ws'' then dial_ws nl 15 sv ss
      else if so_Network ss = ''quic'' then dial_quic nl sv ss
      else nl_tcp nl 15 (host_port (sv_address sv) (sv_port sv)))"

definition vmess_dial :: "netlib \<Rightarrow> server \<Rightarrow> conn go" where
  "vmess_dial nl sv =
     (case sv_stream sv of
        Some ss \<Rightarrow> dialByTransport nl sv ss
      | None \<Rightarrow> nl_tcp nl 30 (host_port (sv_address sv) (sv_port sv)))"

section \<open>Opening\<close>

text \<open>The connection as the two copies get it, with the request in what was written.\<close>

definition written :: "bytes \<Rightarrow> conn \<Rightarrow> conn go" where
  "written p c = (case conn_write p c of (c1, Some e) \<Rightarrow> Fail e | (c1, None) \<Rightarrow> Return c1)"

definition trojan_open :: "netlib \<Rightarrow> (bytes \<Rightarrow> bytes) \<Rightarrow> server \<Rightarrow> bytes \<Rightarrow> target \<Rightarrow> conn go" where
  "trojan_open nl sha224 sv password target =
     go_bind (trojan_dial nl sv) (written (trojan_buildRequest sha224 password target))"

text \<open>The two bytes of the answer are read and dropped; that they are missing is not noticed.\<close>

definition vless_open ::
  "netlib \<Rightarrow> (byte \<Rightarrow> byte \<Rightarrow> byte) \<Rightarrow> server \<Rightarrow> bytes \<Rightarrow> target \<Rightarrow> bool \<Rightarrow> conn go" where
  "vless_open nl bad sv uuid target isUDP =
     go_bind (vless_dial nl sv) (\<lambda>c.
       go_bind (vless_buildRequest bad uuid target isUDP) (\<lambda>request.
         go_map (\<lambda>c1. c1\<lparr>c_in := snd (read_pad 2 (c_in c1))\<rparr>) (written request c)))"

text \<open>With the reader for the answer (\<open>None\<close>: the connection); errors of the second and third write are lost.\<close>

definition vmess_open ::
  "netlib \<Rightarrow> cipherlib \<Rightarrow> hashlib \<Rightarrow> u64 \<Rightarrow> bytes \<times> bytes \<times> bytes \<Rightarrow> server \<Rightarrow> bytes \<Rightarrow> int \<Rightarrow> target \<Rightarrow> bool
   \<Rightarrow> (conn \<times> vmess_reader option) go" where
  "vmess_open nl lib hl ts keys sv uuid security target isUDP =
     go_bind (vmess_dial nl sv) (\<lambda>c.
       case keys of (headerKey, bodyKey, bodyIV) \<Rightarrow>
       go_map
         (\<lambda>c1. if security \<noteq> 0 \<and> security \<noteq> 3
               then (fst (conn_write bodyIV (fst (conn_write bodyKey c1))),
                     snd (vmess_client_open lib hl ts keys uuid security target isUDP))
               else (c1, None))
         (written
           (buildVMessRequestHeader (generateOutboundAuthID hl ts (GenerateUUIDKey hl uuid)) headerKey security
              target (if isUDP then 2 else 1)) c))"

text \<open>The DNS outbound copies at once and has no deadline; nor has the one below over TCP.\<close>

definition dns_open :: "(string \<Rightarrow> nat \<Rightarrow> string \<Rightarrow> conn go) \<Rightarrow> string \<Rightarrow> string \<Rightarrow> u16 \<Rightarrow> conn go" where
  "dns_open dial network address port = dial network 15 (host_port address port)"

definition dccp_open ::
  "int \<Rightarrow> bytes \<Rightarrow> conn go \<Rightarrow> u16 option \<Rightarrow> u16 option \<Rightarrow> (string \<times> dccp_settings option) option
   \<Rightarrow> (dccp_transport + conn) go" where
  "dccp_open now entropy dialed remote addr ss =
     (case ss of
        Some (network, ds) \<Rightarrow>
          if network = ''dccp'' then
            go_bind (tr_NewDCCPTransport now ds) (\<lambda>t.
              case tr_Dial now entropy dialed remote addr t of (t1, r) \<Rightarrow> go_map (\<lambda>_. Inl t1) r)
          else go_map Inr dialed
      | None \<Rightarrow> go_map Inr dialed)"

section \<open>What reaches the wire\<close>

lemma written_Return: "written p c = Return c' \<Longrightarrow> c_out c' = c_out c @ p \<and> c_in c' = c_in c"
  by (auto simp: written_def dest: conn_write_None split: prod.splits option.splits)

text \<open>
  A relay on an opened connection: at every moment the wire has the request and a prefix of the
  user's bytes behind it.
\<close>

lemma relayed:
  assumes "relay_step\<^sup>*\<^sup>* (relay_start timed up down) s" "concat down = c_in c"
  shows "prefix (c_out c @ rl_sent s) (c_out c @ concat up) \<and> prefix (rl_got s) (c_in c)"
  using relay_inv_steps [OF assms(1) relay_inv_start] assms(2)
  by (auto simp: relay_inv_def dest!: copying_prefix)

lemma trojan_wire:
  assumes "trojan_dial nl sv = Return c0" "c_out c0 = []" "trojan_open nl sha224 sv password target = Return c"
    and "relay_step\<^sup>*\<^sup>* (relay_start True up down) s" "concat down = c_in c"
  shows "prefix (c_out c @ rl_sent s) (trojan_buildRequest sha224 password target @ concat up) \<and>
    prefix (rl_got s) (c_in c0)"
  using relayed [OF assms(4,5)] written_Return assms(1-3) by (fastforce simp: trojan_open_def)

lemma vless_wire:
  assumes "vless_dial nl sv = Return c0" "c_out c0 = []" "vless_open nl bad sv uuid target isUDP = Return c"
    and "relay_step\<^sup>*\<^sup>* (relay_start True up down) s" "concat down = c_in c"
  shows "\<exists>req. vless_buildRequest bad uuid target isUDP = Return req \<and>
    prefix (c_out c @ rl_sent s) (req @ concat up) \<and> prefix (rl_got s) (drop 2 (c_in c0))"
proof -
  obtain req where req: "vless_buildRequest bad uuid target isUDP = Return req"
      "go_map (\<lambda>c1. c1\<lparr>c_in := snd (read_pad 2 (c_in c1))\<rparr>) (written req c0) = Return c"
    using assms(1,3) by (auto simp: vless_open_def elim: go_bind_ReturnE)
  then obtain c1 where c1: "written req c0 = Return c1" "c = c1\<lparr>c_in := snd (read_pad 2 (c_in c1))\<rparr>"
    by (cases "written req c0") auto
  have "c_out c = req" "c_in c = drop 2 (c_in c0)"
    using c1(2) written_Return [OF c1(1)] assms(2) by (simp_all add: read_pad_def)
  then show ?thesis
    using relayed [OF assms(4,5)] req(1) by auto
qed

lemma dccp_never_relays: "dccp_open now entropy dialed remote addr (Some (''dccp'', ds)) \<noteq> Return r"
proof
  assume "dccp_open now entropy dialed remote addr (Some (''dccp'', ds)) = Return r"
  then obtain t where
    "go_map (\<lambda>_. Inl (fst (tr_Dial now entropy dialed remote addr t)))
       (snd (tr_Dial now entropy dialed remote addr t)) = Return r"
    by (auto simp: dccp_open_def case_prod_beta elim: go_bind_ReturnE)
  then show False
    using tr_Dial_fails [of now entropy dialed remote addr t]
    by (cases "snd (tr_Dial now entropy dialed remote addr t)") auto
qed

section \<open>A VLESS client and server of the program\<close>

text \<open>
  What is on its way between \<open>VLESSOutboundHandler.Process\<close> and \<open>VLESSInboundHandler.Process\<close> of one
  connection. The client starts to copy when it has the two bytes of the answer, or when the wait
  for them ends with the connection or its deadline, which is not noticed.
\<close>

record vless_session =
  vs_wire :: bytes
  vs_reply :: bytes
  vs_copying :: bool
  vs_up :: "bytes list"
  vs_ended :: bool

definition vless_start :: "bytes \<Rightarrow> bytes list \<Rightarrow> vless_session" where
  "vless_start request up =
     \<lparr>vs_wire = request, vs_reply = [], vs_copying = False, vs_up = up, vs_ended = False\<rparr>"

definition server_reply :: "vless_inbound \<Rightarrow> bytes \<Rightarrow> bytes" where
  "server_reply h received = c_out (fst (vless_Handshake h \<lparr>c_in = received, c_out = [], c_werr = []\<rparr>))"

inductive vless_step :: "vless_inbound \<Rightarrow> vless_session \<Rightarrow> vless_session \<Rightarrow> bool" for h where
  serve: "\<not> vs_ended s \<Longrightarrow> vless_step h s (s\<lparr>vs_reply := server_reply h (vs_wire s)\<rparr>)"
| answered: "\<not> vs_copying s \<Longrightarrow> 2 \<le> length (vs_reply s) \<Longrightarrow> vless_step h s (s\<lparr>vs_copying := True\<rparr>)"
| given_up: "\<not> vs_copying s \<Longrightarrow> vs_ended s \<Longrightarrow> vless_step h s (s\<lparr>vs_copying := True\<rparr>)"
| copy_up: "vs_copying s \<Longrightarrow> \<not> vs_ended s \<Longrightarrow> vs_up s = c # cs \<Longrightarrow>
    vless_step h s (s\<lparr>vs_wire := vs_wire s @ c, vs_up := cs\<rparr>)"
| lose_up: "vs_copying s \<Longrightarrow> vs_ended s \<Longrightarrow> vs_up s = c # cs \<Longrightarrow> vless_step h s (s\<lparr>vs_up := cs\<rparr>)"
| ends: "vless_step h s (s\<lparr>vs_ended := True\<rparr>)"

lemma short_header_unanswered:
  assumes "length u = 16" "length rest < 17"
  shows "server_reply h ([0] @ u @ rest) = []"
proof -
  have "readn 1 ([0] @ u @ rest) = (Return [0], u @ rest)"
    by (rule readn_append) simp
  then show ?thesis
    using assms
    by (simp add: server_reply_def vless_Handshake_def vless_command_def readn_short split: option.split)
qed

lemma length_parseUUID: "parseUUID bad uuid = Return u \<Longrightarrow> length u = 16"
  by (auto simp: parseUUID_def Let_def split: if_splits)

lemma request_unanswered:
  assumes "vless_buildRequest bad uuid (HostIP a, port) isUDP = Return request" "length a = 4"
  shows "server_reply h request = []"
proof -
  obtain u where "parseUUID bad uuid = Return u" and
      "request = [0] @ u @ ([0, 1] @ a @ put16 port @ [if isUDP then CmdUDP else CmdTCP])"
    using assms by (auto simp: vless_buildRequest_def encode_host_def To4_def elim!: go_bind_ReturnE)
  then show ?thesis
    using short_header_unanswered [OF length_parseUUID] assms(2) by simp
qed

definition silent :: "bytes \<Rightarrow> vless_session \<Rightarrow> bool" where
  "silent request s \<longleftrightarrow> vs_wire s = request \<and> vs_reply s = [] \<and> (vs_copying s \<longrightarrow> vs_ended s)"

lemma silent_step:
  "vless_step h s s' \<Longrightarrow> server_reply h request = [] \<Longrightarrow> silent request s \<Longrightarrow> silent request s'"
  by (induction rule: vless_step.induct) (auto simp: silent_def)

lemma silent_steps:
  "(vless_step h)\<^sup>*\<^sup>* s s' \<Longrightarrow> server_reply h request = [] \<Longrightarrow> silent request s \<Longrightarrow> silent request s'"
  by (induction rule: rtranclp_induct) (auto intro: silent_step)

text \<open>
  C29: with an IPv4 target, a VLESS client of this program never sends a byte of its user to a server of
  this program. The client waits for the answer to its request before it copies, and the server
  waits for more bytes than the request has before it answers; whatever users the server
  has, this holds until the connection ends, and then the client starts to copy to nobody.
\<close>

theorem vless_session_stuck:
  assumes "vless_buildRequest bad uuid (HostIP a, port) isUDP = Return request" "length a = 4"
    and "(vless_step h)\<^sup>*\<^sup>* (vless_start request up) s"
  shows "vs_wire s = request \<and> vs_reply s = [] \<and> (vs_copying s \<longrightarrow> vs_ended s)"
  using silent_steps [OF assms(3) request_unanswered [OF assms(1,2)]] by (simp add: silent_def vless_start_def)

theorem vless_session_stuck_witness:
  "\<exists>request s. vless_buildRequest (\<lambda>_ _. 0) (uuid_string (replicate 16 7)) (HostIP [1, 2, 3, 4], 80) False = Return request \<and>
     (vless_step (NewVLESSInbound []))\<^sup>*\<^sup>* (vless_start request [[1], [2]]) s \<and> vs_ended s \<and> vs_wire s = request"
proof -
  obtain request where
    r: "vless_buildRequest (\<lambda>_ _. 0) (uuid_string (replicate 16 7)) (HostIP [1, 2, 3, 4], 80) False = Return request"
    using vless_request_IPv4 [of "replicate 16 7" "[1, 2, 3, 4]"] by simp
  define e where "e = (vless_start request [[1], [2]])\<lparr>vs_ended := True\<rparr>"
  have s: "(vless_step (NewVLESSInbound []))\<^sup>*\<^sup>* (vless_start request [[1], [2]]) e"
    unfolding e_def by (rule r_into_rtranclp) (rule ends)
  have "vs_wire e = request"
    using vless_session_stuck [OF r _ s] by simp
  moreover have "vs_ended e"
    by (simp add: e_def)
  ultimately show ?thesis
    using r s by blast
qed

end
