(* ===== verification/Worker.thy ===== *)
theory Worker
  imports Go_Prelude "HOL-Library.Multiset" "HOL-Library.Word"
begin

text \<open>
  \<open>app/core/worker.go\<close>: the worker pool with its scaling, the task scheduler and the
  parallel executor. The pool is a record with one entry per goroutine ever started and one per
  caller that waits in \<open>Submit\<close>; the step relation \<open>pool_step\<close> interleaves their atomic actions:
  a receive from the queue, each atomic increment, the load of the worker count and the
  decrement that depends on it are separate steps. What runs under the pool's mutex is one
  step. A task is a name; it can return at any time with any error. \<open>ncpu\<close> stands for
  \<open>runtime.NumCPU()\<close>. Log lines, the timers' durations and \<open>MaxRetries\<close>, which nothing reads, are
  left out: an idle timer may fire whenever its worker waits.
\<close>

section \<open>The pool\<close>

type_synonym task = nat

text \<open>
  Where a worker is in its loop: in the \<open>select\<close>; with a task received, then counted as active,
  then numbered and running, then returned, then no longer counted as active, then counted as
  completed; awake after an idle timeout with the number of workers it loaded; or returned.
\<close>

datatype worker = Waiting | Received task | Activated task | Running "64 word" task
  | Returned "64 word" "error option" | Deactivated "64 word" "error option"
  | Completed "64 word" "error option" | Loaded "32 word" | Gone

record pool =
  wp_tasks :: "task list"
  wp_cap :: nat
  wp_results :: "(error option \<times> 64 word) list"
  wp_numWorkers :: "32 word"
  wp_minWorkers :: "32 word"
  wp_stopped :: bool
  wp_active :: "32 word"
  wp_submitted :: "64 word"
  wp_completed :: "64 word"
  wp_workers :: "worker list"
  wp_sending :: "task list"

record pool_config =
  pc_NumWorkers :: int
  pc_QueueSize :: int

definition DefaultWorkerPoolConfig :: "int \<Rightarrow> pool_config" where
  "DefaultWorkerPoolConfig ncpu = \<lparr>pc_NumWorkers = ncpu * 2, pc_QueueSize = ncpu * 100\<rparr>"

definition spawn :: "nat \<Rightarrow> pool \<Rightarrow> pool" where
  "spawn n p = p\<lparr>wp_workers := wp_workers p @ replicate n Waiting\<rparr>"

definition pool_Start :: "pool \<Rightarrow> pool" where
  "pool_Start p = spawn (nat (sint (wp_numWorkers p))) p"

text \<open>
  \<open>make(chan Task, n)\<close> panics for a negative \<open>n\<close>. The rounding of \<open>NumWorkers/4\<close> does not
  matter for a negative number: the maximum is 2.
\<close>

definition NewWorkerPool :: "int \<Rightarrow> pool_config option \<Rightarrow> pool go" where
  "NewWorkerPool ncpu config =
     (let cfg = (case config of None \<Rightarrow> DefaultWorkerPoolConfig ncpu | Some cfg \<Rightarrow> cfg)
      in if pc_QueueSize cfg < 0 then Panic
         else Return (pool_Start
           \<lparr>wp_tasks = [], wp_cap = nat (pc_QueueSize cfg), wp_results = [],
            wp_numWorkers = word_of_int (pc_NumWorkers cfg),
            wp_minWorkers = word_of_int (max 2 (pc_NumWorkers cfg div 4)),
            wp_stopped = False, wp_active = 0, wp_submitted = 0, wp_completed = 0,
            wp_workers = [], wp_sending = []\<rparr>))"

text \<open>What a worker does, one atomic action at a time; \<open>i\<close> is its index.\<close>

definition set_worker :: "nat \<Rightarrow> worker \<Rightarrow> pool \<Rightarrow> pool" where
  "set_worker i w p = p\<lparr>wp_workers := (wp_workers p)[i := w]\<rparr>"

text \<open>
  What step \<open>w\<close> of the loop does next when the task, if it is running one, returns \<open>err\<close>; the
  wake-up after an idle timeout (\<open>Loaded\<close>) is started by \<open>worker_idle\<close>.
\<close>

definition worker_advance :: "nat \<Rightarrow> error option \<Rightarrow> pool \<Rightarrow> pool" where
  "worker_advance i err p =
     (case wp_workers p ! i of
        Waiting \<Rightarrow> p
      | Received t \<Rightarrow> set_worker i (Activated t) (p\<lparr>wp_active := wp_active p + 1\<rparr>)
      | Activated t \<Rightarrow> set_worker i (Running (wp_submitted p + 1) t) (p\<lparr>wp_submitted := wp_submitted p + 1\<rparr>)
      | Running tid t \<Rightarrow> set_worker i (Returned tid err) p
      | Returned tid e \<Rightarrow> set_worker i (Deactivated tid e) (p\<lparr>wp_active := wp_active p - 1\<rparr>)
      | Deactivated tid e \<Rightarrow> set_worker i (Completed tid e) (p\<lparr>wp_completed := wp_completed p + 1\<rparr>)
      | Completed tid e \<Rightarrow> set_worker i Waiting
          (if length (wp_results p) < wp_cap p then p\<lparr>wp_results := wp_results p @ [(e, tid)]\<rparr> else p)
      | Loaded current \<Rightarrow>
          if sint current > sint (wp_minWorkers p)
          then set_worker i Gone (p\<lparr>wp_numWorkers := wp_numWorkers p - 1\<rparr>)
          else set_worker i Waiting p
      | Gone \<Rightarrow> p)"

definition worker_idle :: "nat \<Rightarrow> pool \<Rightarrow> pool" where
  "worker_idle i p = set_worker i (Loaded (wp_numWorkers p)) p"

text \<open>Callers: \<open>pool_Submit\<close> is the part of \<open>Submit\<close> before its \<open>select\<close>.\<close>

text \<open>The load of the number of workers and its increment are taken as one action here.\<close>

definition maybeScaleUp :: "int \<Rightarrow> pool \<Rightarrow> pool" where
  "maybeScaleUp ncpu p =
     (let current = wp_numWorkers p;
          maxWorkers = (word_of_int (ncpu * 4) :: 32 word)
      in if sint current \<ge> sint maxWorkers then p
         else let numNew = nat (min 4 (sint (maxWorkers - current)))
              in spawn numNew (p\<lparr>wp_numWorkers := current + of_nat numNew\<rparr>))"

definition pool_Submit :: "int \<Rightarrow> task \<Rightarrow> pool \<Rightarrow> pool" where
  "pool_Submit ncpu t p =
     (if wp_stopped p then p
      else let p1 = (if length (wp_tasks p) > wp_cap p * 3 div 4 then maybeScaleUp ncpu p else p)
           in p1\<lparr>wp_sending := wp_sending p1 @ [t]\<rparr>)"

definition pool_Resize :: "int \<Rightarrow> pool \<Rightarrow> pool" where
  "pool_Resize n p =
     (if n \<le> 0 then p
      else let oldNum = sint (wp_numWorkers p);
               p1 = p\<lparr>wp_numWorkers := word_of_int n\<rparr>
           in if n > oldNum then spawn (nat (n - oldNum)) p1 else p1)"

definition pool_Stop :: "pool \<Rightarrow> pool" where
  "pool_Stop p = p\<lparr>wp_stopped := True\<rparr>"

text \<open>
  The context is done exactly when the pool is stopped. A step is labelled with the tasks it
  puts into the queue (or hands to a worker, when the queue has no buffer) and those it numbers
  and starts.
\<close>

datatype pool_event = Accepted task | Started "64 word" task

fun start_event :: "pool \<Rightarrow> worker \<Rightarrow> pool_event list" where
  "start_event p (Activated t) = [Started (wp_submitted p + 1) t]"
| "start_event p w = []"

inductive pool_step :: "int \<Rightarrow> pool \<Rightarrow> pool_event list \<Rightarrow> pool \<Rightarrow> bool" for ncpu where
  take: "i < length (wp_workers p) \<Longrightarrow> wp_workers p ! i = Waiting \<Longrightarrow> wp_tasks p = t # ts \<Longrightarrow>
    pool_step ncpu p [] (set_worker i (Received t) (p\<lparr>wp_tasks := ts\<rparr>))"
| advance: "i < length (wp_workers p) \<Longrightarrow> wp_workers p ! i = w \<Longrightarrow>
    pool_step ncpu p (start_event p w) (worker_advance i err p)"
| idle: "i < length (wp_workers p) \<Longrightarrow> wp_workers p ! i = Waiting \<Longrightarrow> pool_step ncpu p [] (worker_idle i p)"
| cancelled: "i < length (wp_workers p) \<Longrightarrow> wp_workers p ! i = Waiting \<Longrightarrow> wp_stopped p \<Longrightarrow>
    pool_step ncpu p [] (set_worker i Gone p)"
| submit: "pool_step ncpu p [] (pool_Submit ncpu t p)"
| enqueue: "wp_sending p = as @ t # bs \<Longrightarrow> length (wp_tasks p) < wp_cap p \<Longrightarrow>
    pool_step ncpu p [Accepted t] (p\<lparr>wp_sending := as @ bs, wp_tasks := wp_tasks p @ [t]\<rparr>)"
| hand_over: "wp_sending p = as @ t # bs \<Longrightarrow> wp_cap p = 0 \<Longrightarrow>
    i < length (wp_workers p) \<Longrightarrow> wp_workers p ! i = Waiting \<Longrightarrow>
    pool_step ncpu p [Accepted t] (set_worker i (Received t) (p\<lparr>wp_sending := as @ bs\<rparr>))"
| give_up: "wp_sending p = as @ t # bs \<Longrightarrow> wp_stopped p \<Longrightarrow> pool_step ncpu p [] (p\<lparr>wp_sending := as @ bs\<rparr>)"
| receive: "wp_results p = r # rs \<Longrightarrow> pool_step ncpu p [] (p\<lparr>wp_results := rs\<rparr>)"
| resize: "pool_step ncpu p [] (pool_Resize n p)"
| stop: "pool_step ncpu p [] (pool_Stop p)"

inductive pool_steps :: "int \<Rightarrow> pool \<Rightarrow> pool_event list \<Rightarrow> pool \<Rightarrow> bool" for ncpu where
  refl: "pool_steps ncpu p [] p"
| step: "pool_steps ncpu p es p1 \<Longrightarrow> pool_step ncpu p1 fs p2 \<Longrightarrow> pool_steps ncpu p (es @ fs) p2"

inductive_cases pool_stepE: "pool_step ncpu p us p'"

lemma pool_steps_one: "pool_step ncpu p es p' \<Longrightarrow> pool_steps ncpu p es p'"
  using pool_steps.step [OF pool_steps.refl] by fastforce

lemma pool_steps_trans:
  assumes "pool_steps ncpu p es p1" "pool_steps ncpu p1 fs p2"
  shows "pool_steps ncpu p (es @ fs) p2"
  using assms(2,1)
proof (induction arbitrary: es)
  case (step p es' p1 fs p2)
  then show ?case
    using pool_steps.step [of ncpu _ "es @ es'" p1 fs p2] by simp
qed simp

section \<open>Conservation of tasks\<close>

text \<open>The tasks a worker holds that are not numbered yet, and what it holds of the two counters.\<close>

fun unstarted :: "worker \<Rightarrow> task list" where
  "unstarted (Received t) = [t]"
| "unstarted (Activated t) = [t]"
| "unstarted w = []"

fun counts_active :: "worker \<Rightarrow> bool" where
  "counts_active (Activated t) = True"
| "counts_active (Running tid t) = True"
| "counts_active (Returned tid e) = True"
| "counts_active w = False"

fun counts_submitted :: "worker \<Rightarrow> bool" where
  "counts_submitted (Running tid t) = True"
| "counts_submitted (Returned tid e) = True"
| "counts_submitted (Deactivated tid e) = True"
| "counts_submitted w = False"

definition in_hand :: "pool \<Rightarrow> task list" where
  "in_hand p = concat (map unstarted (wp_workers p))"

definition count_workers :: "(worker \<Rightarrow> bool) \<Rightarrow> pool \<Rightarrow> nat" where
  "count_workers P p = length (filter P (wp_workers p))"

definition accepted :: "pool_event list \<Rightarrow> task list" where
  "accepted es = concat (map (\<lambda>e. case e of Accepted t \<Rightarrow> [t] | _ \<Rightarrow> []) es)"

definition started :: "pool_event list \<Rightarrow> (64 word \<times> task) list" where
  "started es = concat (map (\<lambda>e. case e of Started tid t \<Rightarrow> [(tid, t)] | _ \<Rightarrow> []) es)"

definition ids_upto :: "nat \<Rightarrow> 64 word list" where
  "ids_upto n = map (\<lambda>k. word_of_nat (Suc k)) [0..<n]"

definition pool_inv :: "pool_event list \<Rightarrow> pool \<Rightarrow> bool" where
  "pool_inv es p \<longleftrightarrow>
     mset (accepted es) = mset (wp_tasks p) + mset (in_hand p) + mset (map snd (started es)) \<and>
     map fst (started es) = ids_upto (length (started es)) \<and>
     wp_submitted p = word_of_nat (length (started es)) \<and>
     wp_active p = word_of_nat (count_workers counts_active p) \<and>
     wp_completed p = wp_submitted p - word_of_nat (count_workers counts_submitted p) \<and>
     length (wp_tasks p) \<le> wp_cap p \<and> length (wp_results p) \<le> wp_cap p"

lemma count_update:
  "i < length ws \<Longrightarrow>
     length (filter P (ws[i := w])) + (if P (ws ! i) then 1 else 0) = length (filter P ws) + (if P w then 1 else 0)"
proof (induction ws arbitrary: i)
  case (Cons x ws)
  show ?case
  proof (cases i)
    case (Suc j)
    then show ?thesis
      using Cons.IH [of j] Cons.prems by (auto split: if_splits)
  qed auto
qed simp

lemma concat_update:
  "i < length ws \<Longrightarrow>
     mset (concat (map f (ws[i := w]))) + mset (f (ws ! i)) = mset (concat (map f ws)) + mset (f w)"
proof (induction ws arbitrary: i)
  case (Cons x ws)
  show ?case
  proof (cases i)
    case (Suc j)
    then show ?thesis
      using Cons.IH [of j] Cons.prems by (simp add: ac_simps)
  qed (simp add: ac_simps)
qed simp

lemma set_worker_fields [simp]:
  "wp_tasks (set_worker i w p) = wp_tasks p" "wp_cap (set_worker i w p) = wp_cap p"
  "wp_results (set_worker i w p) = wp_results p" "wp_submitted (set_worker i w p) = wp_submitted p"
  "wp_completed (set_worker i w p) = wp_completed p" "wp_active (set_worker i w p) = wp_active p"
  "wp_numWorkers (set_worker i w p) = wp_numWorkers p" "wp_minWorkers (set_worker i w p) = wp_minWorkers p"
  "wp_workers (set_worker i w p) = (wp_workers p)[i := w]" "wp_sending (set_worker i w p) = wp_sending p"
  "wp_stopped (set_worker i w p) = wp_stopped p"
  by (simp_all add: set_worker_def)

lemma ids_upto_Suc: "ids_upto (Suc n) = ids_upto n @ [word_of_nat (Suc n)]"
  by (simp add: ids_upto_def)

lemma events_append [simp]:
  "accepted (es @ fs) = accepted es @ accepted fs" "started (es @ fs) = started es @ started fs"
  "accepted [] = []" "started [] = []"
  "accepted [Accepted t] = [t]" "started [Accepted t] = []"
  "accepted [Started tid t] = []" "started [Started tid t] = [(tid, t)]"
  by (simp_all add: accepted_def started_def)

text \<open>
  What changes in the invariant when one worker changes its place: \<open>w\<close> before, \<open>w'\<close> after, \<open>q\<close>
  the pool with everything else already changed.
\<close>

lemma count_set_worker:
  "i < length (wp_workers q) \<Longrightarrow> wp_workers q ! i = w \<Longrightarrow>
     count_workers P (set_worker i w' q) + (if P w then 1 else 0) = count_workers P q + (if P w' then 1 else 0)"
  using count_update [of i "wp_workers q" P w'] by (simp add: count_workers_def)

lemma count_word:
  assumes "i < length (wp_workers q)" "wp_workers q ! i = w"
  shows "(word_of_nat (count_workers P (set_worker i w' q)) :: 'l::len word) + of_bool (P w) =
     word_of_nat (count_workers P q) + of_bool (P w')"
proof -
  have "(word_of_nat (count_workers P (set_worker i w' q) + (if P w then 1 else 0)) :: 'l word) =
      word_of_nat (count_workers P q + (if P w' then 1 else 0))"
    using count_set_worker [OF assms] by simp
  then show ?thesis
    by (simp split: if_splits)
qed

lemma in_hand_set_worker:
  "i < length (wp_workers q) \<Longrightarrow> wp_workers q ! i = w \<Longrightarrow>
     mset (in_hand (set_worker i w' q)) + mset (unstarted w) = mset (in_hand q) + mset (unstarted w')"
  using concat_update [of i "wp_workers q" unstarted w'] by (simp add: in_hand_def)

lemma workers_cong:
  assumes "wp_workers q = wp_workers p"
  shows "in_hand q = in_hand p" "count_workers P q = count_workers P p"
  using assms by (simp_all add: in_hand_def count_workers_def)

text \<open>
  When worker \<open>i\<close> moves from \<open>w\<close> to \<open>w'\<close> and the rest of the pool becomes that of \<open>q\<close>, the
  invariant is kept if the queue, the two counters and the events account for the move.
\<close>

lemma inv_move:
  assumes inv: "pool_inv es p" and i: "i < length (wp_workers p)" "wp_workers p ! i = w"
    and workers: "wp_workers q = wp_workers p"
    and queue: "mset (accepted fs) + mset (wp_tasks p) + mset (unstarted w) =
          mset (wp_tasks q) + mset (unstarted w') + mset (map snd (started fs))"
    and room: "length (wp_tasks q) \<le> wp_cap q" "length (wp_results q) \<le> wp_cap q"
    and active: "wp_active q + of_bool (counts_active w) = wp_active p + of_bool (counts_active w')"
    and ids: "started fs = [] \<or> (\<exists>t. started fs = [(wp_submitted p + 1, t)])"
    and submitted: "wp_submitted q = wp_submitted p + word_of_nat (length (started fs))"
    and completed: "wp_completed q + wp_submitted p + of_bool (counts_submitted w') =
          wp_completed p + wp_submitted q + of_bool (counts_submitted w)"
  shows "pool_inv (es @ fs) (set_worker i w' q)"
proof -
  let ?q = "set_worker i w' q"
  have q: "i < length (wp_workers q)" "wp_workers q ! i = w"
    using i workers by simp_all
  have hand: "mset (in_hand p) + mset (unstarted w') = mset (in_hand ?q) + mset (unstarted w)"
    using in_hand_set_worker [OF q, of w'] by (simp add: workers_cong [OF workers])
  have "mset (accepted (es @ fs)) + mset (unstarted w) =
      (mset (accepted fs) + mset (wp_tasks p) + mset (unstarted w)) + mset (in_hand p) + mset (map snd (started es))"
    using inv by (simp add: pool_inv_def ac_simps)
  also have "\<dots> = mset (wp_tasks q) + mset (map snd (started (es @ fs))) + (mset (in_hand p) + mset (unstarted w'))"
    unfolding queue by (simp add: ac_simps)
  also have "\<dots> = mset (wp_tasks q) + mset (in_hand ?q) + mset (map snd (started (es @ fs))) + mset (unstarted w)"
    unfolding hand by (simp only: ac_simps)
  finally have "mset (accepted (es @ fs)) = mset (wp_tasks q) + mset (in_hand ?q) + mset (map snd (started (es @ fs)))"
    by (rule add_right_imp_eq)
  moreover have "wp_active q = word_of_nat (count_workers counts_active ?q)"
  proof -
    have "wp_active q + of_bool (counts_active w) =
        word_of_nat (count_workers counts_active ?q) + of_bool (counts_active w)"
      unfolding active count_word [OF q] using inv by (simp add: pool_inv_def workers_cong [OF workers])
    then show ?thesis
      by (rule add_right_imp_eq)
  qed
  moreover have "wp_completed q = wp_submitted q - word_of_nat (count_workers counts_submitted ?q)"
  proof -
    have c: "wp_completed q =
        wp_completed p + wp_submitted q + of_bool (counts_submitted w) - wp_submitted p - of_bool (counts_submitted w')"
      using completed by (simp add: eq_diff_eq ac_simps)
    have n: "(word_of_nat (count_workers counts_submitted ?q) :: 64 word) =
        word_of_nat (count_workers counts_submitted p) + of_bool (counts_submitted w') - of_bool (counts_submitted w)"
      using count_word [OF q, of counts_submitted w', where 'l = 64]
      by (simp only: eq_diff_eq workers_cong [OF workers])
    show ?thesis
      unfolding c n using inv by (simp add: pool_inv_def)
  qed
  moreover have "map fst (started (es @ fs)) = ids_upto (length (started (es @ fs)))"
    using ids inv by (auto simp: pool_inv_def ids_upto_Suc)
  ultimately show ?thesis
    using inv submitted room by (simp add: pool_inv_def)
qed

lemma inv_same_place:
  assumes "pool_inv es p" "i < length (wp_workers p)" "wp_workers p ! i = w"
    and "unstarted w = unstarted w'" "counts_active w = counts_active w'" "counts_submitted w = counts_submitted w'"
  shows "pool_inv es (set_worker i w' p)"
  using inv_move [OF assms(1-3), of p "[]" w'] assms by (simp add: pool_inv_def)

lemma inv_spawn: "pool_inv es (spawn n p) = pool_inv es p"
  by (simp add: pool_inv_def spawn_def in_hand_def count_workers_def map_replicate)

lemma inv_other_fields [simp]:
  "pool_inv es (p\<lparr>wp_numWorkers := n\<rparr>) = pool_inv es p"
  "pool_inv es (p\<lparr>wp_stopped := b\<rparr>) = pool_inv es p"
  "pool_inv es (p\<lparr>wp_sending := ts\<rparr>) = pool_inv es p"
  by (simp_all add: pool_inv_def in_hand_def count_workers_def)

lemma inv_room: "pool_inv es p \<Longrightarrow> length (wp_tasks p) \<le> wp_cap p \<and> length (wp_results p) \<le> wp_cap p"
  by (simp add: pool_inv_def)

lemma inv_advance:
  assumes inv: "pool_inv es p" and i: "i < length (wp_workers p)" "wp_workers p ! i = w"
  shows "pool_inv (es @ start_event p w) (worker_advance i err p)"
proof (cases w)
  case (Received t)
  then show ?thesis
    using inv_move [OF inv i, of "p\<lparr>wp_active := wp_active p + 1\<rparr>" "[]" "Activated t"] i inv_room [OF inv]
    by (simp add: worker_advance_def)
next
  case (Activated t)
  then show ?thesis
    using inv_move [OF inv i, of "p\<lparr>wp_submitted := wp_submitted p + 1\<rparr>" "start_event p w"
        "Running (wp_submitted p + 1) t"] i inv_room [OF inv]
    by (simp add: worker_advance_def)
next
  case (Running tid t)
  then show ?thesis
    using inv_same_place [OF inv i, of "Returned tid err"] i by (simp add: worker_advance_def)
next
  case (Returned tid e)
  then show ?thesis
    using inv_move [OF inv i, of "p\<lparr>wp_active := wp_active p - 1\<rparr>" "[]" "Deactivated tid e"] i inv_room [OF inv]
    by (simp add: worker_advance_def)
next
  case (Deactivated tid e)
  then show ?thesis
    using inv_move [OF inv i, of "p\<lparr>wp_completed := wp_completed p + 1\<rparr>" "[]" "Completed tid e"] i inv_room [OF inv]
    by (simp add: worker_advance_def)
next
  case (Completed tid e)
  then show ?thesis
    using inv_move [OF inv i, of "p\<lparr>wp_results := wp_results p @ [(e, tid)]\<rparr>" "[]" Waiting]
      inv_same_place [OF inv i, of Waiting] i inv_room [OF inv]
    by (simp add: worker_advance_def)
next
  case (Loaded n)
  then show ?thesis
    using inv_same_place [OF inv i] inv_same_place [of es "p\<lparr>wp_numWorkers := wp_numWorkers p - 1\<rparr>" i w Gone] inv i
    by (simp add: worker_advance_def)
qed (use inv i in \<open>simp_all add: worker_advance_def\<close>)

lemma inv_scale: "pool_inv es p \<Longrightarrow> pool_inv es (maybeScaleUp ncpu p)"
  by (simp add: maybeScaleUp_def Let_def inv_spawn)

lemma pool_step_inv:
  assumes "pool_step ncpu p fs q" "pool_inv es p"
  shows "pool_inv (es @ fs) q"
  using assms
proof (cases rule: pool_step.cases)
  case (take i t ts)
  then show ?thesis
    using inv_move [OF assms(2), of i Waiting "p\<lparr>wp_tasks := ts\<rparr>" "[]" "Received t"] inv_room [OF assms(2)]
    by simp
next
  case (advance i w err)
  then show ?thesis
    using inv_advance [OF assms(2)] by simp
next
  case (hand_over as t bs i)
  then show ?thesis
    using inv_move [OF assms(2), of i Waiting "p\<lparr>wp_sending := as @ bs\<rparr>" "[Accepted t]" "Received t"]
      inv_room [OF assms(2)]
    by simp
next
  case (submit t)
  then show ?thesis
    using assms(2) inv_scale by (simp add: pool_Submit_def Let_def)
next
  case (resize n)
  then show ?thesis
    using assms(2) by (simp add: pool_Resize_def Let_def inv_spawn)
qed (use assms(2) in \<open>auto simp: worker_idle_def pool_Stop_def intro!: inv_same_place\<close>,
  auto simp: pool_inv_def in_hand_def count_workers_def)

lemma pool_inv_init: "NewWorkerPool ncpu config = Return p \<Longrightarrow> pool_inv [] p"
  by (auto simp: NewWorkerPool_def Let_def pool_Start_def inv_spawn split: if_splits)
    (simp_all add: pool_inv_def in_hand_def count_workers_def ids_upto_def)

lemma pool_steps_inv:
  assumes "pool_steps ncpu p fs q" "pool_inv [] p"
  shows "pool_inv fs q"
  using assms by (induction) (auto dest: pool_step_inv)

text \<open>
  C4: However workers, submitters and callers interleave, the tasks accepted so far are exactly
  those in the queue, those a worker has received and not yet numbered, and those started: none
  is lost and none runs twice; the ids handed out are 1, 2, 3, ... in the order of the starts,
  and \<open>submitted\<close>, \<open>completed\<close> and \<open>active\<close> agree with the workers, as 64 and 32 bit numbers.
\<close>
theorem pool_conserves_tasks:
  assumes "NewWorkerPool ncpu config = Return p0" "pool_steps ncpu p0 es p"
  shows "mset (accepted es) = mset (wp_tasks p) + mset (in_hand p) + mset (map snd (started es)) \<and>
     map fst (started es) = ids_upto (length (started es)) \<and>
     wp_submitted p = word_of_nat (length (started es)) \<and>
     wp_completed p = wp_submitted p - word_of_nat (count_workers counts_submitted p) \<and>
     wp_active p = word_of_nat (count_workers counts_active p) \<and>
     length (wp_tasks p) \<le> wp_cap p \<and> length (wp_results p) \<le> wp_cap p"
  using pool_steps_inv [OF assms(2) pool_inv_init [OF assms(1)]] by (simp add: pool_inv_def)

theorem pool_conserves_tasks_witness:
  "\<exists>p0 p. NewWorkerPool 2 (Some \<lparr>pc_NumWorkers = 1, pc_QueueSize = 1\<rparr>) = Return p0 \<and>
     pool_steps 2 p0 [Accepted 7] p \<and> wp_tasks p = [] \<and> mset (in_hand p) = {#7#}"
proof -
  define p0 where "p0 = \<lparr>wp_tasks = [], wp_cap = 1, wp_results = [], wp_numWorkers = 1, wp_minWorkers = 2,
      wp_stopped = False, wp_active = 0, wp_submitted = 0, wp_completed = 0, wp_workers = [Waiting], wp_sending = []\<rparr>"
  have new: "NewWorkerPool 2 (Some \<lparr>pc_NumWorkers = 1, pc_QueueSize = 1\<rparr>) = Return p0"
    by (simp add: NewWorkerPool_def pool_Start_def spawn_def p0_def)
  define p1 where "p1 = p0\<lparr>wp_sending := [7]\<rparr>"
  define p2 where "p2 = p0\<lparr>wp_tasks := [7]\<rparr>"
  define p3 where "p3 = p0\<lparr>wp_workers := [Received 7]\<rparr>"
  have "pool_step 2 p0 [] p1"
    using pool_step.submit [of 2 p0 7] by (simp add: pool_Submit_def p0_def p1_def)
  moreover have "pool_step 2 p1 [Accepted 7] p2"
    using pool_step.enqueue [of p1 "[]" 7 "[]" 2] by (simp add: p0_def p1_def p2_def)
  moreover have "pool_step 2 p2 [] p3"
    using pool_step.take [of 0 p2 7 "[]" 2] by (simp add: p0_def p2_def p3_def set_worker_def)
  ultimately have run: "pool_steps 2 p0 [Accepted 7] p3"
    by (metis append_Nil append_Nil2 pool_steps.refl pool_steps.step)
  then have "mset [7::task] = mset (wp_tasks p3) + mset (in_hand p3)"
    using pool_conserves_tasks [OF new run] by simp
  then show ?thesis
    using new run by (auto simp: p3_def p0_def)
qed

section \<open>Scaling down\<close>

lemma all_load:
  "pool_steps ncpu (p\<lparr>wp_workers := ws @ replicate k Waiting\<rparr>) []
     (p\<lparr>wp_workers := ws @ replicate k (Loaded (wp_numWorkers p))\<rparr>)"
proof (induction k arbitrary: ws)
  case (Suc k)
  have "pool_step ncpu (p\<lparr>wp_workers := ws @ replicate (Suc k) Waiting\<rparr>) []
      (p\<lparr>wp_workers := (ws @ [Loaded (wp_numWorkers p)]) @ replicate k Waiting\<rparr>)"
    using pool_step.idle [of "length ws" "p\<lparr>wp_workers := ws @ replicate (Suc k) Waiting\<rparr>" ncpu]
    by (simp add: worker_idle_def set_worker_def nth_append list_update_append)
  from pool_steps_trans [OF pool_steps_one [OF this] Suc.IH]
  show ?case
    by simp
qed (simp add: pool_steps.refl)

lemma all_leave:
  assumes "sint m > sint (wp_minWorkers p)"
  shows "pool_steps ncpu (p\<lparr>wp_workers := ws @ replicate k (Loaded m)\<rparr>) []
     (p\<lparr>wp_workers := ws @ replicate k Gone, wp_numWorkers := wp_numWorkers p - word_of_nat k\<rparr>)"
  using assms
proof (induction k arbitrary: ws p)
  case (Suc k)
  let ?p = "p\<lparr>wp_workers := ws @ replicate (Suc k) (Loaded m)\<rparr>"
  have "pool_step ncpu ?p []
      ((p\<lparr>wp_numWorkers := wp_numWorkers p - 1\<rparr>)\<lparr>wp_workers := (ws @ [Gone]) @ replicate k (Loaded m)\<rparr>)"
    using pool_step.advance [of "length ws" ?p "Loaded m" ncpu None] Suc.prems
    by (simp add: worker_advance_def set_worker_def nth_append list_update_append)
  from pool_steps_trans [OF pool_steps_one [OF this] Suc.IH [of "p\<lparr>wp_numWorkers := wp_numWorkers p - 1\<rparr>" "ws @ [Gone]"]]
  show ?case
    using Suc.prems by (simp add: algebra_simps)
qed (simp add: pool_steps.refl)

text \<open>Submissions that find at most three quarters of the queue in use start no worker.\<close>

lemma accept_all:
  assumes "\<not> wp_stopped p" "wp_sending p = []" "wp_tasks p = []" "1 \<le> wp_cap p"
  shows "length ts \<le> Suc (wp_cap p * 3 div 4) \<Longrightarrow> pool_steps ncpu p (map Accepted ts) (p\<lparr>wp_tasks := ts\<rparr>)"
proof (induction ts rule: rev_induct)
  case Nil
  have "p\<lparr>wp_tasks := []\<rparr> = p"
    using assms by simp
  then show ?case
    by (simp add: pool_steps.refl)
next
  case (snoc t ts)
  let ?p = "p\<lparr>wp_tasks := ts\<rparr>" and ?q = "p\<lparr>wp_tasks := ts, wp_sending := [t]\<rparr>"
  have room: "length ts \<le> wp_cap p * 3 div 4" "length ts < wp_cap p"
    using snoc.prems assms(4) by auto
  have "pool_step ncpu ?p [] ?q"
    using pool_step.submit [of ncpu ?p t] assms room by (simp add: pool_Submit_def)
  moreover have "p\<lparr>wp_sending := [], wp_tasks := ts @ [t]\<rparr> = p\<lparr>wp_tasks := ts @ [t]\<rparr>"
    using assms by (cases p) simp
  then have "pool_step ncpu ?q [Accepted t] (p\<lparr>wp_tasks := ts @ [t]\<rparr>)"
    using pool_step.enqueue [of ?q "[]" t "[]" ncpu] room by simp
  ultimately have "pool_steps ncpu ?p [Accepted t] (p\<lparr>wp_tasks := ts @ [t]\<rparr>)"
    using pool_steps_trans [OF pool_steps_one pool_steps_one] by fastforce
  from pool_steps_trans [OF snoc.IH this]
  show ?case
    using snoc.prems by simp
qed

text \<open>
  C39: The scale-down loads the number of workers and decrements it in two steps, so the minimum
  is not kept: in every pool started with three workers or more there is a schedule in which
  every idle worker leaves, and the pool then accepts tasks (up to one more than three quarters
  of its queue) with no worker left to run them.
\<close>
theorem idle_workers_all_leave:
  assumes "NewWorkerPool ncpu (Some cfg) = Return p0"
    and "3 \<le> pc_NumWorkers cfg" "pc_NumWorkers cfg < 2 ^ 31" "1 \<le> pc_QueueSize cfg"
    and "length ts \<le> Suc (nat (pc_QueueSize cfg) * 3 div 4)"
  shows "\<exists>p. pool_steps ncpu p0 (map Accepted ts) p \<and> set (wp_workers p) = {Gone} \<and> wp_numWorkers p = 0 \<and>
     sint (wp_minWorkers p) \<ge> 2 \<and> wp_tasks p = ts \<and> \<not> wp_stopped p"
proof -
  define n where "n = nat (pc_NumWorkers cfg)"
  have n: "pc_NumWorkers cfg = int n" "3 \<le> n" "n < 2 ^ 31"
    using assms by (simp_all add: n_def nat_less_iff)
  have small: "sint (word_of_int k :: 32 word) = k" if "0 \<le> k" "k < 2 ^ 31" for k
    using that by (simp add: sint_sbintrunc' signed_take_bit_int_eq_self)
  have sn: "sint (word_of_nat n :: 32 word) = int n"
    using small [of "int n"] n by simp
  have p0: "wp_workers p0 = replicate n Waiting" "wp_numWorkers p0 = word_of_nat n" "wp_sending p0 = []"
    "wp_tasks p0 = []" "\<not> wp_stopped p0" "wp_cap p0 = nat (pc_QueueSize cfg)"
    "sint (wp_minWorkers p0) = max 2 (int n div 4)" "sint (wp_numWorkers p0) = int n"
    using assms(1,4) n by (auto simp: NewWorkerPool_def pool_Start_def spawn_def small sn)
  define p1 where "p1 = p0\<lparr>wp_workers := replicate n (Loaded (wp_numWorkers p0))\<rparr>"
  define p2 where "p2 = p0\<lparr>wp_workers := replicate n Gone, wp_numWorkers := 0\<rparr>"
  have "p0\<lparr>wp_workers := replicate n Waiting\<rparr> = p0"
    using p0(1) by (cases p0) simp
  then have load: "pool_steps ncpu p0 [] p1"
    using all_load [where p = p0 and ncpu = ncpu and ws = "[]" and k = n] by (simp add: p1_def)
  have leave: "pool_steps ncpu p1 [] p2"
    using all_leave [where p = p0 and m = "wp_numWorkers p0" and ncpu = ncpu and ws = "[]" and k = n] p0 n(2) by (simp add: p1_def p2_def)
  have accept: "pool_steps ncpu p2 (map Accepted ts) (p2\<lparr>wp_tasks := ts\<rparr>)"
    by (rule accept_all) (use p0 assms(4,5) in \<open>simp_all add: p2_def\<close>)
  have "pool_steps ncpu p0 (map Accepted ts) (p2\<lparr>wp_tasks := ts\<rparr>)"
    using pool_steps_trans [OF pool_steps_trans [OF load leave] accept] by simp
  then show ?thesis
    using p0 n(2) by (intro exI [of _ "p2\<lparr>wp_tasks := ts\<rparr>"]) (auto simp: p2_def)
qed

theorem idle_workers_all_leave_witness:
  "\<exists>p0 p. NewWorkerPool 8 (Some \<lparr>pc_NumWorkers = 16, pc_QueueSize = 4\<rparr>) = Return p0 \<and>
     pool_steps 8 p0 (map Accepted [1, 2, 3, 4]) p \<and> set (wp_workers p) = {Gone} \<and> wp_tasks p = [1, 2, 3, 4]"
proof -
  obtain p0 where "NewWorkerPool 8 (Some \<lparr>pc_NumWorkers = 16, pc_QueueSize = 4\<rparr>) = Return p0"
    by (simp add: NewWorkerPool_def)
  with idle_workers_all_leave [OF this, of "[1, 2, 3, 4]"] show ?thesis
    by auto
qed

section \<open>The task scheduler\<close>

text \<open>
  \<open>Flush\<close> gives the tasks it passes to \<open>Submit\<close>, in this order, one after the other. The map
  \<open>priorities\<close> of the struct is never used.
\<close>

record scheduler =
  sch_pending :: "task list"

definition NewTaskScheduler :: scheduler where
  "NewTaskScheduler = \<lparr>sch_pending = []\<rparr>"

definition Schedule :: "task \<Rightarrow> int \<Rightarrow> scheduler \<Rightarrow> scheduler" where
  "Schedule t priority s =
     (if priority > 0 then s\<lparr>sch_pending := t # sch_pending s\<rparr> else s\<lparr>sch_pending := sch_pending s @ [t]\<rparr>)"

definition scheduler_Flush :: "scheduler \<Rightarrow> task list \<times> scheduler" where
  "scheduler_Flush s = (sch_pending s, s\<lparr>sch_pending := []\<rparr>)"

lemma Schedule_all:
  "sch_pending (fold (\<lambda>(t, priority). Schedule t priority) reqs s) =
     rev (map fst (filter (\<lambda>(t, priority). priority > 0) reqs)) @ sch_pending s @
     map fst (filter (\<lambda>(t, priority). priority \<le> 0) reqs)"
  by (induction reqs arbitrary: s) (auto simp: Schedule_def)

text \<open>
  A flush submits the tasks of positive priority last scheduled first, whatever their
  priorities, and then the others in the order they were scheduled; nothing stays pending.
\<close>
lemma scheduler_order:
  "scheduler_Flush (fold (\<lambda>(t, priority). Schedule t priority) reqs NewTaskScheduler) =
     (rev (map fst (filter (\<lambda>(t, priority). priority > 0) reqs)) @
        map fst (filter (\<lambda>(t, priority). priority \<le> 0) reqs),
      NewTaskScheduler)"
  by (simp add: scheduler_Flush_def Schedule_all) (simp add: NewTaskScheduler_def)

section \<open>The parallel executor\<close>

text \<open>
  One entry per call of \<open>Execute\<close>: its slot of the semaphore is taken; the goroutine is counted
  and running; its task is over and the slot given back (the deferred calls run last first); or
  the wait group has been told.
\<close>

datatype job = Entering | Working | Leaving | Over

record executor =
  ex_max :: nat
  ex_sem :: nat
  ex_wg :: int
  ex_jobs :: "job list"

definition NewParallelExecutor :: "nat \<Rightarrow> int \<Rightarrow> executor" where
  "NewParallelExecutor ncpu maxConcurrency =
     \<lparr>ex_max = (if maxConcurrency \<le> 0 then ncpu * 2 else nat maxConcurrency), ex_sem = 0, ex_wg = 0, ex_jobs = []\<rparr>"

inductive executor_step :: "executor \<Rightarrow> executor \<Rightarrow> bool" where
  acquire: "ex_sem e < ex_max e \<Longrightarrow>
    executor_step e (e\<lparr>ex_sem := ex_sem e + 1, ex_jobs := ex_jobs e @ [Entering]\<rparr>)"
| launch: "i < length (ex_jobs e) \<Longrightarrow> ex_jobs e ! i = Entering \<Longrightarrow>
    executor_step e (e\<lparr>ex_wg := ex_wg e + 1, ex_jobs := (ex_jobs e)[i := Working]\<rparr>)"
| release: "i < length (ex_jobs e) \<Longrightarrow> ex_jobs e ! i = Working \<Longrightarrow>
    executor_step e (e\<lparr>ex_sem := ex_sem e - 1, ex_jobs := (ex_jobs e)[i := Leaving]\<rparr>)"
| tell: "i < length (ex_jobs e) \<Longrightarrow> ex_jobs e ! i = Leaving \<Longrightarrow>
    executor_step e (e\<lparr>ex_wg := ex_wg e - 1, ex_jobs := (ex_jobs e)[i := Over]\<rparr>)"

definition count_jobs :: "(job \<Rightarrow> bool) \<Rightarrow> executor \<Rightarrow> nat" where
  "count_jobs P e = length (filter P (ex_jobs e))"

definition executor_inv :: "executor \<Rightarrow> bool" where
  "executor_inv e \<longleftrightarrow>
     ex_sem e = count_jobs (\<lambda>j. j = Entering) e + count_jobs (\<lambda>j. j = Working) e \<and> ex_sem e \<le> ex_max e \<and>
     ex_wg e = int (count_jobs (\<lambda>j. j = Working) e + count_jobs (\<lambda>j. j = Leaving) e)"

lemma executor_step_inv: "executor_step e e' \<Longrightarrow> executor_inv e \<Longrightarrow> executor_inv e' \<and> ex_max e' = ex_max e"
proof (induction rule: executor_step.induct)
  case (launch i e)
  note count_update [OF launch(1), where w = Working]
  from this [of "\<lambda>j. j = Entering"] this [of "\<lambda>j. j = Working"] this [of "\<lambda>j. j = Leaving"] show ?case
    using launch by (simp add: executor_inv_def count_jobs_def)
next
  case (release i e)
  note count_update [OF release(1), where w = Leaving]
  from this [of "\<lambda>j. j = Entering"] this [of "\<lambda>j. j = Working"] this [of "\<lambda>j. j = Leaving"] show ?case
    using release by (simp add: executor_inv_def count_jobs_def) linarith
next
  case (tell i e)
  note count_update [OF tell(1), where w = Over]
  from this [of "\<lambda>j. j = Entering"] this [of "\<lambda>j. j = Working"] this [of "\<lambda>j. j = Leaving"] show ?case
    using tell by (simp add: executor_inv_def count_jobs_def)
qed (simp add: executor_inv_def count_jobs_def)

lemma executor_run_inv:
  "executor_step\<^sup>*\<^sup>* e e' \<Longrightarrow> executor_inv e \<Longrightarrow> executor_inv e' \<and> ex_max e' = ex_max e"
  by (induction rule: rtranclp_induct) (auto dest: executor_step_inv)

text \<open>
  The executor never runs more tasks at once than its limit (twice the number of CPUs when
  none is given), and when its wait group is at zero, so that \<open>Wait\<close> returns, none is running.
\<close>
lemma executor_bounded:
  assumes "executor_step\<^sup>*\<^sup>* (NewParallelExecutor ncpu m) e"
  shows "count_jobs (\<lambda>j. j = Working) e \<le> (if m \<le> 0 then ncpu * 2 else nat m) \<and>
     (ex_wg e = 0 \<longrightarrow> count_jobs (\<lambda>j. j = Working) e = 0)"
proof -
  have "executor_inv (NewParallelExecutor ncpu m)"
    by (simp add: executor_inv_def NewParallelExecutor_def count_jobs_def)
  with executor_run_inv [OF assms]
  have "executor_inv e" "ex_max e = (if m \<le> 0 then ncpu * 2 else nat m)"
    by (simp_all add: NewParallelExecutor_def)
  then show ?thesis
    by (auto simp: executor_inv_def)
qed

end
