(* ===== verification/Batch.thy ===== *)
theory Batch
  imports Worker
begin

text \<open>
  \<open>ExecuteBatch\<close> of the parallel executor: the steps of its one caller are interleaved with those of
  the goroutines it starts. Every schedule ends after the same number of steps, with every task
  run; the state of the executor is the one of \<open>Worker\<close>, whose invariant carries the proofs.
\<close>

section \<open>A batch\<close>

text \<open>
  One caller passes the tasks to \<open>Execute\<close> one after the other and then waits. It is
  about to take a slot of the semaphore, has taken it for the job with that number, or has returned
  from \<open>Wait\<close>. A task that runs returns after some time.
\<close>

datatype caller = AtExecute | HasSlot nat | BatchDone

record batch =
  ba_todo :: nat
  ba_caller :: caller
  ba_exec :: executor

definition ExecuteBatch :: "nat \<Rightarrow> executor \<Rightarrow> batch" where
  "ExecuteBatch n e = \<lparr>ba_todo = n, ba_caller = AtExecute, ba_exec = e\<rparr>"

inductive batch_step :: "batch \<Rightarrow> batch \<Rightarrow> bool" where
  take_slot: "ba_caller b = AtExecute \<Longrightarrow> ba_todo b = Suc n \<Longrightarrow> ex_sem (ba_exec b) < ex_max (ba_exec b) \<Longrightarrow>
    batch_step b (b\<lparr>ba_todo := n, ba_caller := HasSlot (length (ex_jobs (ba_exec b))),
      ba_exec := (ba_exec b)\<lparr>ex_sem := ex_sem (ba_exec b) + 1, ex_jobs := ex_jobs (ba_exec b) @ [Entering]\<rparr>\<rparr>)"
| start_job: "ba_caller b = HasSlot i \<Longrightarrow>
    batch_step b (b\<lparr>ba_caller := AtExecute,
      ba_exec := (ba_exec b)\<lparr>ex_wg := ex_wg (ba_exec b) + 1, ex_jobs := (ex_jobs (ba_exec b))[i := Working]\<rparr>\<rparr>)"
| job_over: "i < length (ex_jobs (ba_exec b)) \<Longrightarrow> ex_jobs (ba_exec b) ! i = Working \<Longrightarrow>
    batch_step b (b\<lparr>ba_exec := (ba_exec b)\<lparr>ex_sem := ex_sem (ba_exec b) - 1, ex_jobs := (ex_jobs (ba_exec b))[i := Leaving]\<rparr>\<rparr>)"
| job_told: "i < length (ex_jobs (ba_exec b)) \<Longrightarrow> ex_jobs (ba_exec b) ! i = Leaving \<Longrightarrow>
    batch_step b (b\<lparr>ba_exec := (ba_exec b)\<lparr>ex_wg := ex_wg (ba_exec b) - 1, ex_jobs := (ex_jobs (ba_exec b))[i := Over]\<rparr>\<rparr>)"
| wait_returns: "ba_caller b = AtExecute \<Longrightarrow> ba_todo b = 0 \<Longrightarrow> ex_wg (ba_exec b) = 0 \<Longrightarrow>
    batch_step b (b\<lparr>ba_caller := BatchDone\<rparr>)"

text \<open>What is left to do: four steps for a task, one for \<open>Wait\<close>; every step is one of them.\<close>

primrec job_steps :: "job \<Rightarrow> nat" where
  "job_steps Entering = 3"
| "job_steps Working = 2"
| "job_steps Leaving = 1"
| "job_steps Over = 0"

definition batch_left :: "batch \<Rightarrow> nat" where
  "batch_left b = 4 * ba_todo b + (\<Sum>j \<leftarrow> ex_jobs (ba_exec b). job_steps j) +
     (if ba_caller b = BatchDone then 0 else 1)"

text \<open>Exactly the job whose slot the caller holds has not been started.\<close>

definition entering :: "job list \<Rightarrow> caller \<Rightarrow> bool" where
  "entering js c \<longleftrightarrow> (\<forall>i. c = HasSlot i \<longleftrightarrow> i < length js \<and> js ! i = Entering)"

lemma entering_take: "entering js AtExecute \<Longrightarrow> entering (js @ [Entering]) (HasSlot (length js))"
  by (auto simp: entering_def nth_append less_Suc_eq)

lemma entering_start: "entering js (HasSlot i) \<Longrightarrow> entering (js[i := Working]) AtExecute"
proof -
  assume e: "entering js (HasSlot i)"
  then have only: "k = i" if "k < length js" "js ! k = Entering" for k
    using that unfolding entering_def by (metis caller.inject)
  have "js[i := Working] ! k \<noteq> Entering" if "k < length js" for k
    using only [OF that] that by (cases "k = i") auto
  then show ?thesis
    by (simp add: entering_def)
qed

lemma entering_other:
  "entering js c \<Longrightarrow> i < length js \<Longrightarrow> js ! i \<noteq> Entering \<Longrightarrow> w \<noteq> Entering \<Longrightarrow> entering (js[i := w]) c"
proof -
  assume e: "entering js c" and i: "i < length js" "js ! i \<noteq> Entering" "w \<noteq> Entering"
  have "(js[i := w] ! k = Entering) = (js ! k = Entering)" if "k < length js" for k
    using that i by (cases "k = i") auto
  with e show ?thesis
    unfolding entering_def by (metis length_list_update)
qed

lemma entering_done: "entering js AtExecute \<Longrightarrow> entering js BatchDone"
  by (simp add: entering_def)

definition batch_inv :: "nat \<Rightarrow> batch \<Rightarrow> bool" where
  "batch_inv n b \<longleftrightarrow> executor_inv (ba_exec b) \<and> 0 < ex_max (ba_exec b) \<and>
     ba_todo b + length (ex_jobs (ba_exec b)) = n \<and> entering (ex_jobs (ba_exec b)) (ba_caller b) \<and>
     (ba_caller b = BatchDone \<longrightarrow> ba_todo b = 0 \<and> ex_wg (ba_exec b) = 0)"

lemma slot_entering:
  "batch_inv n b \<Longrightarrow> ba_caller b = HasSlot i \<Longrightarrow> i < length (ex_jobs (ba_exec b)) \<and> ex_jobs (ba_exec b) ! i = Entering"
  unfolding batch_inv_def entering_def by blast

lemma count_jobs_exists: "0 < count_jobs (\<lambda>j. j = w) e \<Longrightarrow> \<exists>i < length (ex_jobs e). ex_jobs e ! i = w"
  by (auto simp: count_jobs_def filter_empty_conv in_set_conv_nth)

lemma count_jobs_pos: "i < length (ex_jobs e) \<Longrightarrow> ex_jobs e ! i = w \<Longrightarrow> 0 < count_jobs (\<lambda>j. j = w) e"
  by (auto simp: count_jobs_def filter_empty_conv in_set_conv_nth)

lemma wg_busy:
  "executor_inv e \<Longrightarrow> i < length (ex_jobs e) \<Longrightarrow> ex_jobs e ! i = Working \<or> ex_jobs e ! i = Leaving \<Longrightarrow> ex_wg e \<noteq> 0"
  using count_jobs_pos [of i e Working] count_jobs_pos [of i e Leaving] by (auto simp: executor_inv_def)

lemma batch_executor:
  "batch_step b b' \<Longrightarrow> batch_inv n b \<Longrightarrow> executor_step (ba_exec b) (ba_exec b') \<or> ba_exec b' = ba_exec b"
proof (induction rule: batch_step.induct)
  case (start_job b i)
  then show ?case
    using slot_entering [OF start_job(2,1)] launch by simp
next
  case (take_slot b k)
  then show ?case
    using acquire [of "ba_exec b"] by simp
next
  case (job_over i b)
  then show ?case
    using release [of i "ba_exec b"] by simp
qed (simp_all add: tell)

lemma sum_job_steps_update:
  "i < length js \<Longrightarrow> (\<Sum>j \<leftarrow> js[i := w]. job_steps j) + job_steps (js ! i) = (\<Sum>j \<leftarrow> js. job_steps j) + job_steps w"
  by (induction js arbitrary: i) (auto split: nat.split)

lemma batch_left_step: "batch_step b b' \<Longrightarrow> batch_inv n b \<Longrightarrow> batch_left b = Suc (batch_left b')"
proof (induction rule: batch_step.induct)
  case (start_job b i)
  then show ?case
    using slot_entering [OF start_job(2,1)] sum_job_steps_update [of i "ex_jobs (ba_exec b)" Working]
    by (simp add: batch_left_def)
next
  case (job_over i b)
  then show ?case
    using sum_job_steps_update [of i "ex_jobs (ba_exec b)" Leaving] by (simp add: batch_left_def)
next
  case (job_told i b)
  then show ?case
    using sum_job_steps_update [of i "ex_jobs (ba_exec b)" Over] by (simp add: batch_left_def)
qed (simp_all add: batch_left_def)

lemma batch_inv_step: "batch_step b b' \<Longrightarrow> batch_inv n b \<Longrightarrow> batch_inv n b'"
proof -
  assume step: "batch_step b b'" and inv: "batch_inv n b"
  then have ex: "executor_inv (ba_exec b')" "ex_max (ba_exec b') = ex_max (ba_exec b)"
    using batch_executor [OF step inv] executor_step_inv [of "ba_exec b" "ba_exec b'"] by (auto simp: batch_inv_def)
  from step inv ex show ?thesis
  proof (induction rule: batch_step.induct)
    case (take_slot b k)
    then show ?case
      by (simp add: batch_inv_def entering_take)
  next
    case (start_job b i)
    then show ?case
      by (simp add: batch_inv_def entering_start)
  next
    case (job_over i b)
    then have "ba_caller b \<noteq> BatchDone"
      using wg_busy [of "ba_exec b" i] by (auto simp: batch_inv_def)
    with job_over show ?case
      by (simp add: batch_inv_def entering_other)
  next
    case (job_told i b)
    then have "ba_caller b \<noteq> BatchDone"
      using wg_busy [of "ba_exec b" i] by (auto simp: batch_inv_def)
    with job_told show ?case
      by (simp add: batch_inv_def entering_other)
  next
    case (wait_returns b)
    then show ?case
      by (simp add: batch_inv_def entering_done)
  qed
qed

text \<open>As long as something is left, something can be done: a task waits for a slot only while others hold one.\<close>

lemma batch_progress:
  assumes "batch_inv n b" "ba_caller b \<noteq> BatchDone"
  shows "\<exists>b'. batch_step b b'"
proof (cases "ba_caller b")
  case AtExecute
  let ?e = "ba_exec b"
  have no_entering: "count_jobs (\<lambda>j. j = Entering) ?e = 0"
    using assms(1) AtExecute count_jobs_exists [of Entering ?e] by (force simp: batch_inv_def entering_def)
  have working: "\<exists>b'. batch_step b b'" if "0 < count_jobs (\<lambda>j. j = Working) ?e"
    using count_jobs_exists [OF that] job_over by blast
  have leaving: "\<exists>b'. batch_step b b'" if "0 < count_jobs (\<lambda>j. j = Leaving) ?e"
    using count_jobs_exists [OF that] job_told by blast
  have inv: "executor_inv ?e" "0 < ex_max ?e"
    using assms(1) by (simp_all add: batch_inv_def)
  show ?thesis
  proof (cases "ba_todo b")
    case 0
    show ?thesis
    proof (cases "ex_wg ?e = 0")
      case True
      then show ?thesis
        using wait_returns [OF AtExecute 0] by blast
    next
      case False
      then have "0 < count_jobs (\<lambda>j. j = Working) ?e \<or> 0 < count_jobs (\<lambda>j. j = Leaving) ?e"
        using inv(1) unfolding executor_inv_def by linarith
      with working leaving show ?thesis
        by (elim disjE)
    qed
  next
    case (Suc k)
    show ?thesis
    proof (cases "ex_sem ?e < ex_max ?e")
      case True
      then show ?thesis
        using take_slot [OF AtExecute Suc] by blast
    next
      case False
      then show ?thesis
        using working inv no_entering by (auto simp: executor_inv_def)
    qed
  qed
next
  case (HasSlot i)
  then show ?thesis
    using start_job by blast
qed (use assms in simp)

lemma batch_steps:
  "(batch_step ^^ k) b b' \<Longrightarrow> batch_inv n b \<Longrightarrow> batch_inv n b' \<and> batch_left b = k + batch_left b'"
proof (induction k arbitrary: b')
  case (Suc k)
  then obtain b1 where "(batch_step ^^ k) b b1" "batch_step b1 b'"
    by auto
  then show ?case
    using Suc.IH [of b1] Suc.prems(2) batch_inv_step [of b1 b' n] batch_left_step [of b1 b' n] by auto
qed simp

lemma batch_over:
  assumes "batch_inv n b" "ba_caller b = BatchDone"
  shows "ex_jobs (ba_exec b) = replicate n Over"
proof -
  have "\<forall>w \<in> {Entering, Working, Leaving}. count_jobs (\<lambda>j. j = w) (ba_exec b) = 0"
    using assms count_jobs_exists [of Entering "ba_exec b"] by (force simp: batch_inv_def entering_def executor_inv_def)
  then have "j = Over" if "j \<in> set (ex_jobs (ba_exec b))" for j
    using that by (cases j) (auto simp: count_jobs_def filter_empty_conv)
  moreover have "length (ex_jobs (ba_exec b)) = n"
    using assms by (simp add: batch_inv_def)
  ultimately show ?thesis
    by (simp add: list_eq_iff_nth_eq)
qed

text \<open>
  C40: \<open>ExecuteBatch\<close> on a new executor returns, under every schedule, with every task run to its end:
  whatever order the steps of the caller and of the goroutines are taken in, there are four for
  each task and one more, the last is the return of the call, and before it there is always a next
  one. The limit may be smaller than the batch, or missing.
\<close>

theorem batch_completes:
  assumes "0 < ncpu" "(batch_step ^^ k) (ExecuteBatch n (NewParallelExecutor ncpu limit)) b"
  shows "k \<le> 4 * n + 1 \<and> (k = 4 * n + 1 \<longleftrightarrow> ba_caller b = BatchDone) \<and>
    (k < 4 * n + 1 \<longrightarrow> (\<exists>b'. batch_step b b')) \<and>
    (ba_caller b = BatchDone \<longrightarrow> ex_jobs (ba_exec b) = replicate n Over)"
proof -
  let ?b = "ExecuteBatch n (NewParallelExecutor ncpu limit)"
  have "batch_inv n ?b" "batch_left ?b = 4 * n + 1"
    using assms(1)
    by (simp_all add: batch_inv_def entering_def batch_left_def ExecuteBatch_def NewParallelExecutor_def executor_inv_def count_jobs_def)
  with batch_steps [OF assms(2)] have b: "batch_inv n b" "4 * n + 1 = k + batch_left b"
    by auto
  have "ba_caller b = BatchDone \<Longrightarrow> batch_left b = 0"
    using batch_over [OF b(1)] b(1) by (simp add: batch_left_def batch_inv_def sum_list_replicate)
  moreover have "batch_left b = 0 \<Longrightarrow> ba_caller b = BatchDone"
    by (simp add: batch_left_def split: if_splits)
  moreover have "k < 4 * n + 1 \<Longrightarrow> \<exists>b'. batch_step b b'"
    using calculation b batch_progress [OF b(1)] by auto
  ultimately show ?thesis
    using b batch_over [OF b(1)] by auto
qed

theorem batch_completes_witness:
  "\<exists>b. (batch_step ^^ 1) (ExecuteBatch 3 (NewParallelExecutor 4 1)) b \<and> (\<exists>b'. batch_step b b') \<and> ba_caller b \<noteq> BatchDone"
proof -
  obtain b where b: "batch_step (ExecuteBatch 3 (NewParallelExecutor 4 1)) b"
    using take_slot [of "ExecuteBatch 3 (NewParallelExecutor 4 1)" 2]
    by (auto simp: ExecuteBatch_def NewParallelExecutor_def)
  then have "(batch_step ^^ 1) (ExecuteBatch 3 (NewParallelExecutor 4 1)) b"
    by auto
  then show ?thesis
    using batch_completes [of 4 1 3 1 b] by auto
qed

end
