(* ===== verification/Router.thy ===== *)
theory Router
  imports Go_Strings Net "HOL-Library.Sublist"
begin

text \<open>
  \<open>app/route/router.go\<close> and the routing part of \<open>app/config/config.go\<close>: rules are compiled
  (domains to regular expressions, addresses to networks) and the first rule that matches a
  connection decides its outbound. Of package \<open>regexp\<close> the patterns the router generates
  itself are modelled exactly (escaped literals, \<open>.*\<close>, anchors); the meaning of a
  user-written \<open>regexp:\<close> pattern, and the parsing of textual addresses by package \<open>net\<close>,
  are arguments (\<open>netlib\<close>). The lemmas show that the compiled router agrees with a
  declarative reading of the configuration.
\<close>

section \<open>Configuration\<close>

definition ErrNoRoute :: error where "ErrNoRoute = Error ''router: no matching route''"

record routing_rule =
  rr_Domain :: "string list"
  rr_IP :: "string list"
  rr_Port :: string
  rr_SourcePort :: string
  rr_Network :: string
  rr_Source :: "string list"
  rr_User :: "string list"
  rr_InboundTag :: "string list"
  rr_Protocol :: "string list"
  rr_OutboundTag :: string
  rr_BalancerTag :: string

record balancer_config =
  bc_Tag :: string
  bc_Selector :: "string list"

record routing_config =
  rc_Rules :: "routing_rule list"
  rc_Balancers :: "balancer_config list"

section \<open>Strings\<close>

definition containsString :: "string list \<Rightarrow> string \<Rightarrow> bool" where
  "containsString haystack needle \<longleftrightarrow> list_ex (\<lambda>s. s = needle) haystack"

section \<open>Ports\<close>

definition port_digit :: "u16 \<Rightarrow> char \<Rightarrow> u16" where
  "port_digit port c = (if is_digit c then port * 10 + word_of_nat (of_char c - 48) else port)"

definition parsePort :: "string \<Rightarrow> u16" where
  "parsePort s = foldl port_digit 0 s"

definition matchPort :: "string \<Rightarrow> u16 \<Rightarrow> bool" where
  "matchPort rule port =
     (let portStr = TrimSpace rule
      in if portStr = [] then True
         else case split_on (CHR ''-'') portStr of
           [f, t] \<Rightarrow> parsePort f \<le> port \<and> port \<le> parsePort t
         | _ \<Rightarrow> port = parsePort portStr)"

section \<open>Regular expressions\<close>

definition meta_char :: "char \<Rightarrow> bool" where
  "meta_char c \<longleftrightarrow> c \<in> set [CHR 0x5C, CHR ''.'', CHR ''+'', CHR ''*'', CHR ''?'', CHR ''('', CHR '')'',
     CHR ''|'', CHR ''['', CHR '']'', CHR ''{'', CHR ''}'', CHR ''^'', CHR ''$'']"

definition QuoteMeta :: "string \<Rightarrow> string" where
  "QuoteMeta s = concat (map (\<lambda>c. if meta_char c then [CHR 0x5C, c] else [c]) s)"

text \<open>\<open>strings.ReplaceAll\<close> of backslash-star by dot-star.\<close>

fun replace_star :: "string \<Rightarrow> string" where
  "replace_star (a # b # s) =
     (if a = CHR 0x5C \<and> b = CHR ''*'' then ''.*'' @ replace_star s else a # replace_star (b # s))"
| "replace_star s = s"

definition convertDomainToRegex :: "string \<Rightarrow> string" where
  "convertDomainToRegex domain0 =
     (let domain = (if HasPrefix domain0 ''domain:'' then drop 7 domain0 else domain0)
      in if HasPrefix domain ''full:'' then ''^'' @ QuoteMeta (drop 5 domain) @ ''$''
         else if HasPrefix domain ''keyword:'' then QuoteMeta (drop 8 domain)
         else ''^'' @ replace_star (QuoteMeta domain) @ ''$'')"

text \<open>
  The fragment of the pattern syntax the router generates: an optional \<open>^\<close>, escaped or
  plain characters and \<open>.*\<close>, an optional \<open>$\<close>. Everything else is left to the argument
  \<open>user\<close>. A compiled expression is its \<open>MatchString\<close>.
\<close>

datatype token = Lit char | AnyStar

fun parse_tokens :: "string \<Rightarrow> (token list \<times> bool) option" where
  "parse_tokens [] = Some ([], False)"
| "parse_tokens [c] =
     (if c = CHR ''$'' then Some ([], True) else if meta_char c then None else Some ([Lit c], False))"
| "parse_tokens (a # b # s) =
     (if a = CHR 0x5C then
        if meta_char b then map_option (apfst (Cons (Lit b))) (parse_tokens s) else None
      else if a = CHR ''.'' \<and> b = CHR ''*'' then map_option (apfst (Cons AnyStar)) (parse_tokens s)
      else if meta_char a then None
      else map_option (apfst (Cons (Lit a))) (parse_tokens (b # s)))"

function tokens_match :: "token list \<Rightarrow> bool \<Rightarrow> string \<Rightarrow> bool" where
  "tokens_match [] atEnd s = (\<not> atEnd \<or> s = [])"
| "tokens_match (Lit c # ts) atEnd s =
     (case s of [] \<Rightarrow> False | x # xs \<Rightarrow> x = c \<and> tokens_match ts atEnd xs)"
| "tokens_match (AnyStar # ts) atEnd s =
     (tokens_match ts atEnd s \<or>
      (case s of [] \<Rightarrow> False | x # xs \<Rightarrow> x \<noteq> CHR 0x0A \<and> tokens_match (AnyStar # ts) atEnd xs))"
  by pat_completeness auto
termination
  by (relation "measure (\<lambda>(ts, _, s). length ts + length s)") auto

fun search_match :: "token list \<Rightarrow> bool \<Rightarrow> string \<Rightarrow> bool" where
  "search_match ts atEnd [] = tokens_match ts atEnd []"
| "search_match ts atEnd (x # xs) = (tokens_match ts atEnd (x # xs) \<or> search_match ts atEnd xs)"

definition regexp_Compile :: "(string \<Rightarrow> (string \<Rightarrow> bool) option) \<Rightarrow> string \<Rightarrow> (string \<Rightarrow> bool) option" where
  "regexp_Compile user s =
     (let (start, body) = (case s of c # cs \<Rightarrow> if c = CHR ''^'' then (True, cs) else (False, s) | [] \<Rightarrow> (False, s))
      in case parse_tokens body of
           Some (ts, atEnd) \<Rightarrow> Some (if start then tokens_match ts atEnd else search_match ts atEnd)
         | None \<Rightarrow> user s)"

section \<open>Addresses\<close>

definition networkNumberAndMask :: "ip \<times> bytes \<Rightarrow> (ip \<times> bytes) option" where
  "networkNumberAndMask n =
     (case n of (a, m) \<Rightarrow>
        let a' = (case To4 a of Some x \<Rightarrow> x | None \<Rightarrow> a)
        in if To4 a = None \<and> length a \<noteq> 16 then None
           else if length m = 4 then (if length a' \<noteq> 4 then None else Some (a', m))
           else if length m = 16 then Some (a', if length a' = 4 then drop 12 m else m)
           else None)"

definition IPNet_Contains :: "ip \<times> bytes \<Rightarrow> ip \<Rightarrow> bool" where
  "IPNet_Contains n a =
     (let x = (case To4 a of Some x \<Rightarrow> x | None \<Rightarrow> a)
      in case networkNumberAndMask n of
           None \<Rightarrow> length x = 0
         | Some (nn, m) \<Rightarrow> length x = length nn \<and>
             list_all (\<lambda>i. (nn ! i AND m ! i) = (x ! i AND m ! i)) [0..<length x])"

definition IP_Equal :: "ip \<Rightarrow> ip \<Rightarrow> bool" where
  "IP_Equal a b =
     (if length a = length b then a = b
      else if length a = 4 \<and> length b = 16 then take 12 b = v4prefix \<and> a = drop 12 b
      else if length a = 16 \<and> length b = 4 then take 12 a = v4prefix \<and> drop 12 a = b
      else False)"

record netlib =
  lib_regexp :: "string \<Rightarrow> (string \<Rightarrow> bool) option"
  lib_ParseIP :: "string \<Rightarrow> ip option"
  lib_ParseCIDR :: "string \<Rightarrow> (ip \<times> bytes) option"

definition matchIP :: "netlib \<Rightarrow> ip \<Rightarrow> string \<Rightarrow> bool" where
  "matchIP lib a pattern =
     (if list_ex (\<lambda>c. c = CHR ''/'') pattern then
        (case lib_ParseCIDR lib pattern of None \<Rightarrow> False | Some n \<Rightarrow> IPNet_Contains n a)
      else case lib_ParseIP lib pattern of None \<Rightarrow> False | Some b \<Rightarrow> IP_Equal a b)"

section \<open>Compiling rules\<close>

record compiled_rule =
  cr_Raw :: routing_rule
  cr_domainRegex :: "(string \<Rightarrow> bool) list"
  cr_ipNets :: "(ip \<times> bytes) list"
  cr_outboundTag :: string
  cr_balancerTag :: string

record router =
  rt_config :: routing_config
  rt_rules :: "compiled_rule list"

text \<open>Strings are valid UTF-8, so \<open>Compile\<close> fails on patterns of users only.\<close>

definition compile_domain :: "netlib \<Rightarrow> string \<Rightarrow> (string \<Rightarrow> bool) option" where
  "compile_domain lib domain =
     (if HasPrefix domain ''regexp:'' then regexp_Compile (lib_regexp lib) (drop 7 domain)
      else regexp_Compile (lib_regexp lib) (convertDomainToRegex domain))"

definition compile_ip :: "netlib \<Rightarrow> string \<Rightarrow> (ip \<times> bytes) option" where
  "compile_ip lib ipstr =
     (if list_ex (\<lambda>c. c = CHR ''/'') ipstr then lib_ParseCIDR lib ipstr
      else case lib_ParseIP lib ipstr of
        None \<Rightarrow> None
      | Some a \<Rightarrow> Some (a, if To4 a \<noteq> None then replicate 4 0xFF else replicate 16 0xFF))"

definition compile_rule :: "netlib \<Rightarrow> routing_rule \<Rightarrow> compiled_rule" where
  "compile_rule lib rule =
     \<lparr>cr_Raw = rule, cr_domainRegex = List.map_filter (compile_domain lib) (rr_Domain rule),
      cr_ipNets = List.map_filter (compile_ip lib) (rr_IP rule),
      cr_outboundTag = rr_OutboundTag rule, cr_balancerTag = rr_BalancerTag rule\<rparr>"

definition compileRules :: "netlib \<Rightarrow> router \<Rightarrow> router" where
  "compileRules lib r = r\<lparr>rt_rules := map (compile_rule lib) (rc_Rules (rt_config r))\<rparr>"

definition NewRouter :: "netlib \<Rightarrow> routing_config \<Rightarrow> router" where
  "NewRouter lib cfg = compileRules lib \<lparr>rt_config = cfg, rt_rules = []\<rparr>"

text \<open>Reloading releases the lock between its two halves; a route may be taken in between.\<close>

definition reload_config :: "routing_config \<Rightarrow> router \<Rightarrow> router" where
  "reload_config cfg r = r\<lparr>rt_config := cfg\<rparr>"

definition ReloadConfig :: "netlib \<Rightarrow> routing_config \<Rightarrow> router \<Rightarrow> router" where
  "ReloadConfig lib cfg r = compileRules lib (reload_config cfg r)"

section \<open>Routing\<close>

record routing_context =
  x_InboundTag :: string
  x_Network :: string
  x_SourceIP :: "ip option"
  x_TargetIP :: "ip option"
  x_TargetDomain :: string
  x_Port :: u16
  x_SourcePort :: u16
  x_Protocol :: string
  x_User :: string

definition matchRule :: "netlib \<Rightarrow> compiled_rule \<Rightarrow> routing_context \<Rightarrow> bool" where
  "matchRule lib rule rc =
     (let raw = cr_Raw rule in
      if rr_InboundTag raw \<noteq> [] \<and> \<not> containsString (rr_InboundTag raw) (x_InboundTag rc) then False
      else if rr_Network raw \<noteq> [] \<and> rr_Network raw \<noteq> x_Network rc then False
      else if rr_Protocol raw \<noteq> [] \<and> \<not> containsString (rr_Protocol raw) (x_Protocol rc) then False
      else if rr_User raw \<noteq> [] \<and> \<not> containsString (rr_User raw) (x_User rc) then False
      else if rr_Port raw \<noteq> [] \<and> \<not> matchPort (rr_Port raw) (x_Port rc) then False
      else if rr_SourcePort raw \<noteq> [] \<and> \<not> matchPort (rr_SourcePort raw) (x_SourcePort rc) then False
      else if rr_Source raw \<noteq> [] \<and>
         (case x_SourceIP rc of None \<Rightarrow> False
          | Some src \<Rightarrow> \<not> list_ex (matchIP lib src) (rr_Source raw)) then False
      else
        let domainCond = (rr_Domain raw \<noteq> [] \<and> x_TargetDomain rc \<noteq> []);
            domainMatched = (domainCond \<and> list_ex (\<lambda>re. re (x_TargetDomain rc)) (cr_domainRegex rule))
        in if domainCond \<and> \<not> domainMatched then False
        else
          let ipMatched = (case x_TargetIP rc of None \<Rightarrow> False
                | Some a \<Rightarrow> rr_IP raw \<noteq> [] \<and> list_ex (\<lambda>n. IPNet_Contains n a) (cr_ipNets rule))
          in if rr_IP raw \<noteq> [] \<and> x_TargetIP rc \<noteq> None \<and> \<not> ipMatched then False
          else if rr_Domain raw \<noteq> [] \<or> rr_IP raw \<noteq> [] then
            if x_TargetDomain rc \<noteq> [] \<and> domainMatched then True
            else if x_TargetIP rc \<noteq> None \<and> ipMatched then True
            else if \<not> domainMatched \<and> \<not> ipMatched then False
            else True
          else True)"

fun selectBalancer_in :: "balancer_config list \<Rightarrow> string \<Rightarrow> string" where
  "selectBalancer_in [] tag = ''direct''"
| "selectBalancer_in (b # bs) tag =
     (if bc_Tag b = tag \<and> bc_Selector b \<noteq> [] then hd (bc_Selector b) else selectBalancer_in bs tag)"

definition selectBalancer :: "router \<Rightarrow> string \<Rightarrow> string" where
  "selectBalancer r tag = selectBalancer_in (rc_Balancers (rt_config r)) tag"

fun route_rules :: "netlib \<Rightarrow> router \<Rightarrow> routing_context \<Rightarrow> compiled_rule list \<Rightarrow> string option" where
  "route_rules lib r rc [] = None"
| "route_rules lib r rc (rule # rules) =
     (if matchRule lib rule rc then
        if cr_outboundTag rule \<noteq> [] then Some (cr_outboundTag rule)
        else if cr_balancerTag rule \<noteq> [] then Some (selectBalancer r (cr_balancerTag rule))
        else route_rules lib r rc rules
      else route_rules lib r rc rules)"

definition Route :: "netlib \<Rightarrow> router \<Rightarrow> routing_context \<Rightarrow> string go" where
  "Route lib r rc =
     (case route_rules lib r rc (rt_rules r) of
        Some tag \<Rightarrow> Return tag
      | None \<Rightarrow> (case rc_Balancers (rt_config r) of
                   b # _ \<Rightarrow> Return (selectBalancer r (bc_Tag b))
                 | [] \<Rightarrow> Fail ErrNoRoute))"

section \<open>Domain patterns mean what they say\<close>

text \<open>The intended reading: a star stands for any run of characters within a line.\<close>

function glob :: "string \<Rightarrow> string \<Rightarrow> bool" where
  "glob [] s = (s = [])"
| "glob (p # ps) s =
     (if p = CHR ''*'' then
        glob ps s \<or> (case s of [] \<Rightarrow> False | x # xs \<Rightarrow> x \<noteq> CHR 0x0A \<and> glob (p # ps) xs)
      else case s of [] \<Rightarrow> False | x # xs \<Rightarrow> x = p \<and> glob ps xs)"
  by pat_completeness auto
termination
  by (relation "measure (\<lambda>(ps, s). length ps + length s)") auto

definition domain_spec :: "string \<Rightarrow> string \<Rightarrow> bool" where
  "domain_spec domain0 t =
     (let domain = (if HasPrefix domain0 ''domain:'' then drop 7 domain0 else domain0)
      in if HasPrefix domain ''full:'' then t = drop 5 domain
         else if HasPrefix domain ''keyword:'' then sublist (drop 8 domain) t
         else glob domain t)"

definition glob_token :: "char \<Rightarrow> token" where
  "glob_token c = (if c = CHR ''*'' then AnyStar else Lit c)"

lemma meta_facts [simp]:
  "meta_char (CHR 0x5C)" "meta_char (CHR ''*'')" "meta_char (CHR ''.'')" "meta_char (CHR ''$'')" "meta_char (CHR ''^'')"
  by (simp_all add: meta_char_def)

lemma QuoteMeta_Cons:
  "QuoteMeta (c # s) = (if meta_char c then [CHR 0x5C, c] else [c]) @ QuoteMeta s"
  by (simp add: QuoteMeta_def)

lemma QuoteMeta_Nil [simp]: "QuoteMeta [] = []"
  by (simp add: QuoteMeta_def)

lemma parse_tokens_plain:
  "\<not> meta_char c \<Longrightarrow> parse_tokens (c # s) = map_option (apfst (Cons (Lit c))) (parse_tokens s)"
  by (cases s) (auto simp: meta_char_def)

lemma parse_tokens_quoted:
  "parse_tokens s = Some (ts, e) \<Longrightarrow>
     parse_tokens (QuoteMeta d @ s) = Some (map Lit d @ ts, e)"
  by (induction d) (auto simp: QuoteMeta_Cons parse_tokens_plain)

lemma replace_star_cons:
  "a \<noteq> CHR 0x5C \<Longrightarrow> replace_star (a # s) = a # replace_star s"
  by (cases s) auto

lemma QuoteMeta_hd: "QuoteMeta d = c # s \<Longrightarrow> c \<noteq> CHR ''*''"
  by (cases d) (auto simp: QuoteMeta_Cons meta_char_def split: if_splits)

lemma replace_star_escaped:
  assumes "c \<noteq> CHR ''*''"
  shows "replace_star (CHR 0x5C # c # QuoteMeta d) = CHR 0x5C # c # replace_star (QuoteMeta d)"
proof (cases "c = CHR 0x5C")
  case True
  show ?thesis
  proof (cases "QuoteMeta d")
    case (Cons x xs)
    then show ?thesis
      using QuoteMeta_hd [OF Cons] True by simp
  qed (simp add: True)
next
  case False
  then show ?thesis
    using assms by (simp add: replace_star_cons)
qed

lemma parse_tokens_starred:
  "parse_tokens (replace_star (QuoteMeta d) @ ''$'') = Some (map glob_token d, True)"
proof (induction d)
  case (Cons c d)
  show ?case
  proof (cases "c = CHR ''*''")
    case True
    then show ?thesis
      using Cons by (simp add: QuoteMeta_Cons glob_token_def)
  next
    case False
    then show ?thesis
      using Cons replace_star_escaped [OF False, of d]
      by (auto simp: QuoteMeta_Cons glob_token_def replace_star_cons parse_tokens_plain)
  qed
qed simp

lemma glob_tokens: "tokens_match (map glob_token d) True s = glob d s"
proof (induction d s rule: glob.induct)
  case (2 p ps s)
  then show ?case
    by (cases s) (auto simp: glob_token_def)
qed simp

lemma literal_tokens: "tokens_match (map Lit d) e s \<longleftrightarrow> (if e then s = d else prefix d s)"
  by (induction d arbitrary: s) (auto split: list.split)

lemma search_literal: "search_match (map Lit d) False s \<longleftrightarrow> sublist d s"
  by (induction s) (auto simp: literal_tokens sublist_Cons_right)

lemma compile_convert:
  "\<exists>m. regexp_Compile user (convertDomainToRegex d) = Some m \<and> (\<forall>t. m t = domain_spec d t)"
proof -
  define x where "x = (if HasPrefix d ''domain:'' then drop 7 d else d)"
  have anchored: "regexp_Compile user (''^'' @ s) =
      (case parse_tokens s of Some (ts, e) \<Rightarrow> Some (tokens_match ts e) | None \<Rightarrow> user (''^'' @ s))" for s
    by (cases "parse_tokens s") (auto simp: regexp_Compile_def)
  have dollar: "parse_tokens ''$'' = Some ([], True)"
    by simp
  consider (full) "HasPrefix x ''full:''" | (keyword) "\<not> HasPrefix x ''full:''" "HasPrefix x ''keyword:''"
    | (glob) "\<not> HasPrefix x ''full:''" "\<not> HasPrefix x ''keyword:''"
    by blast
  then show ?thesis
  proof cases
    case full
    then have "convertDomainToRegex d = ''^'' @ QuoteMeta (drop 5 x) @ ''$''"
      by (simp add: convertDomainToRegex_def x_def [symmetric] Let_def)
    then have "regexp_Compile user (convertDomainToRegex d) = Some (tokens_match (map Lit (drop 5 x)) True)"
      using parse_tokens_quoted [OF dollar, of "drop 5 x"] by (simp only: anchored) simp
    with full show ?thesis
      by (simp add: literal_tokens domain_spec_def x_def [symmetric] Let_def)
  next
    case keyword
    have parse: "parse_tokens (QuoteMeta (drop 8 x)) = Some (map Lit (drop 8 x), False)"
      using parse_tokens_quoted [of "[]" "[]" False "drop 8 x"] by simp
    have "regexp_Compile user (QuoteMeta (drop 8 x)) = Some (search_match (map Lit (drop 8 x)) False)"
    proof (cases "drop 8 x")
      case Nil
      then show ?thesis by (simp add: regexp_Compile_def)
    next
      case (Cons c cs)
      then have "(case QuoteMeta (drop 8 x) of c # cs \<Rightarrow> if c = CHR ''^'' then (True, cs) else (False, QuoteMeta (drop 8 x))
          | [] \<Rightarrow> (False, QuoteMeta (drop 8 x))) = (False, QuoteMeta (drop 8 x))"
        by (auto simp: QuoteMeta_Cons)
      then show ?thesis
        using parse by (simp add: regexp_Compile_def)
    qed
    with keyword show ?thesis
      by (simp add: convertDomainToRegex_def domain_spec_def search_literal x_def [symmetric] Let_def)
  next
    case glob
    then have "convertDomainToRegex d = ''^'' @ replace_star (QuoteMeta x) @ ''$''"
      by (simp add: convertDomainToRegex_def x_def [symmetric] Let_def)
    then have "regexp_Compile user (convertDomainToRegex d) = Some (tokens_match (map glob_token x) True)"
      using parse_tokens_starred [of x] by (simp only: anchored) simp
    with glob show ?thesis
      by (simp add: glob_tokens domain_spec_def x_def [symmetric] Let_def)
  qed
qed


section \<open>The router decides what the configuration says\<close>

definition domain_applies :: "netlib \<Rightarrow> string \<Rightarrow> string \<Rightarrow> bool" where
  "domain_applies lib d t =
     (if HasPrefix d ''regexp:''
      then (case regexp_Compile (lib_regexp lib) (drop 7 d) of None \<Rightarrow> False | Some m \<Rightarrow> m t)
      else domain_spec d t)"

definition ip_applies :: "netlib \<Rightarrow> string \<Rightarrow> ip \<Rightarrow> bool" where
  "ip_applies lib s a = (case compile_ip lib s of None \<Rightarrow> False | Some n \<Rightarrow> IPNet_Contains n a)"

text \<open>
  A rule applies when every condition it names holds. A condition on the destination name
  or address is skipped when the connection has no name (or no address), but a rule with
  such conditions needs at least one of them to be decided.
\<close>

definition rule_applies :: "netlib \<Rightarrow> routing_rule \<Rightarrow> routing_context \<Rightarrow> bool" where
  "rule_applies lib raw rc \<longleftrightarrow>
     (rr_InboundTag raw = [] \<or> x_InboundTag rc \<in> set (rr_InboundTag raw)) \<and>
     (rr_Network raw = [] \<or> rr_Network raw = x_Network rc) \<and>
     (rr_Protocol raw = [] \<or> x_Protocol rc \<in> set (rr_Protocol raw)) \<and>
     (rr_User raw = [] \<or> x_User rc \<in> set (rr_User raw)) \<and>
     (rr_Port raw = [] \<or> matchPort (rr_Port raw) (x_Port rc)) \<and>
     (rr_SourcePort raw = [] \<or> matchPort (rr_SourcePort raw) (x_SourcePort rc)) \<and>
     (rr_Source raw = [] \<or> x_SourceIP rc = None \<or> list_ex (matchIP lib (the (x_SourceIP rc))) (rr_Source raw)) \<and>
     (let byName = rr_Domain raw \<noteq> [] \<and> x_TargetDomain rc \<noteq> [];
          byAddr = rr_IP raw \<noteq> [] \<and> x_TargetIP rc \<noteq> None
      in (byName \<longrightarrow> list_ex (\<lambda>d. domain_applies lib d (x_TargetDomain rc)) (rr_Domain raw)) \<and>
         (byAddr \<longrightarrow> list_ex (\<lambda>s. ip_applies lib s (the (x_TargetIP rc))) (rr_IP raw)) \<and>
         (rr_Domain raw \<noteq> [] \<or> rr_IP raw \<noteq> [] \<longrightarrow> byName \<or> byAddr))"

lemma list_ex_map_filter:
  "list_ex P (List.map_filter f xs) = list_ex (\<lambda>x. case f x of None \<Rightarrow> False | Some y \<Rightarrow> P y) xs"
  by (induction xs) (auto simp: List.map_filter_def split: option.split)

lemma compile_domain_applies:
  "(case compile_domain lib d of None \<Rightarrow> False | Some m \<Rightarrow> m t) = domain_applies lib d t"
proof (cases "HasPrefix d ''regexp:''")
  case True
  then show ?thesis by (simp only: domain_applies_def compile_domain_def if_True)
next
  case False
  then show ?thesis
    using compile_convert [of "lib_regexp lib" d] by (auto simp only: domain_applies_def compile_domain_def if_False option.case)
qed

lemma containsString_iff: "containsString xs x \<longleftrightarrow> x \<in> set xs"
  by (auto simp: containsString_def list_ex_iff)

lemma matchRule_applies: "matchRule lib (compile_rule lib raw) rc = rule_applies lib raw rc"
proof -
  have dom: "list_ex (\<lambda>re. re t) (List.map_filter (compile_domain lib) ds) =
      list_ex (\<lambda>d. domain_applies lib d t) ds" for t ds
    by (simp add: list_ex_map_filter compile_domain_applies)
  have addr: "list_ex (\<lambda>n. IPNet_Contains n a) (List.map_filter (compile_ip lib) ss) =
      list_ex (\<lambda>s. ip_applies lib s a) ss" for a ss
    by (simp add: list_ex_map_filter ip_applies_def)
  show ?thesis
    by (cases "x_TargetIP rc"; cases "x_SourceIP rc")
       (auto simp: matchRule_def rule_applies_def compile_rule_def containsString_iff Let_def dom addr)
qed

definition decisive :: "routing_rule \<Rightarrow> bool" where
  "decisive raw \<longleftrightarrow> rr_OutboundTag raw \<noteq> [] \<or> rr_BalancerTag raw \<noteq> []"

definition config_route :: "netlib \<Rightarrow> routing_config \<Rightarrow> routing_context \<Rightarrow> string go" where
  "config_route lib cfg rc =
     (case find (\<lambda>raw. rule_applies lib raw rc \<and> decisive raw) (rc_Rules cfg) of
        Some raw \<Rightarrow> Return (if rr_OutboundTag raw \<noteq> [] then rr_OutboundTag raw
                           else selectBalancer_in (rc_Balancers cfg) (rr_BalancerTag raw))
      | None \<Rightarrow> (case rc_Balancers cfg of
                   b # _ \<Rightarrow> Return (selectBalancer_in (rc_Balancers cfg) (bc_Tag b))
                 | [] \<Rightarrow> Fail ErrNoRoute))"

lemma route_rules_find:
  "route_rules lib r rc (map (compile_rule lib) raws) =
     map_option (\<lambda>raw. if rr_OutboundTag raw \<noteq> [] then rr_OutboundTag raw
                      else selectBalancer r (rr_BalancerTag raw))
       (find (\<lambda>raw. rule_applies lib raw rc \<and> decisive raw) raws)"
  by (induction raws) (auto simp: matchRule_applies decisive_def compile_rule_def [of lib, THEN arg_cong [of _ _ cr_outboundTag]]
      compile_rule_def [of lib, THEN arg_cong [of _ _ cr_balancerTag]])

text \<open>
  C2: a router decides what its configuration says: for a new router and after a reload
  alike, the first rule that applies and names a target gives the outbound, then the first
  balancer, and without either there is no route.
\<close>

theorem Route_refines_config:
  "Route lib (NewRouter lib cfg) rc = config_route lib cfg rc \<and>
   Route lib (ReloadConfig lib cfg r) rc = config_route lib cfg rc"
  by (auto simp: Route_def NewRouter_def ReloadConfig_def reload_config_def compileRules_def
      route_rules_find config_route_def selectBalancer_def split: option.split list.split)

section \<open>Port conditions\<close>

lemma port_digit_char: "d < 10 \<Longrightarrow> port_digit p (char_of (48 + d)) = p * 10 + word_of_nat d"
  by (simp only: port_digit_def digit_char of_char_digit if_True add_diff_cancel_left')

lemma foldl_port_decimal:
  "foldl port_digit p (decimal n) = p * 10 ^ length (decimal n) + word_of_nat n"
proof (induction n rule: decimal.induct)
  case (1 n)
  show ?case
  proof (cases "n < 10")
    case True
    then show ?thesis
      by (simp add: decimal.simps [of n] port_digit_char)
  next
    case False
    define q r l where "q = n div 10" and "r = n mod 10" and "l = length (decimal q)"
    have r: "r < 10" and "q * 10 + r = n"
      by (simp_all add: r_def q_def)
    then have n: "word_of_nat q * 10 + word_of_nat r = (word_of_nat n :: u16)"
      by (metis of_nat_add of_nat_mult of_nat_numeral)
    have "decimal n = decimal q @ [char_of (48 + r)]"
      using False by (simp add: decimal.simps [of n] q_def r_def)
    moreover have "foldl port_digit p (decimal q) = p * 10 ^ l + word_of_nat q"
      using 1 False by (simp add: q_def l_def)
    ultimately have "foldl port_digit p (decimal n) = (p * 10 ^ l + word_of_nat q) * 10 + word_of_nat r"
      and "length (decimal n) = Suc l"
      using r by (simp_all only: foldl_append foldl.simps port_digit_char l_def length_append) simp
    moreover have "(p * 10 ^ l + word_of_nat q) * 10 + word_of_nat r =
        p * 10 ^ Suc l + (word_of_nat q * 10 + word_of_nat r)"
      by (simp only: power_Suc2 distrib_right mult.assoc add.assoc)
    ultimately show ?thesis
      by (simp only: n)
  qed
qed

lemma parsePort_decimal: "parsePort (decimal n) = word_of_nat n"
  by (simp add: parsePort_def foldl_port_decimal)

lemma digit_not: "is_digit c \<Longrightarrow> \<not> is_space c \<and> c \<noteq> CHR ''-'' \<and> c \<noteq> CHR '',''"
  by (auto simp: is_digit_def is_space_def)

lemma TrimSpace_id:
  assumes "s \<noteq> []" and "is_digit (hd s)" and "is_digit (last s)"
  shows "TrimSpace s = s"
proof -
  have "dropWhile is_space s = s"
    using assms digit_not by (cases s) auto
  moreover have "dropWhile is_space (rev s) = rev s"
    using assms digit_not by (cases s rule: rev_cases) auto
  ultimately show ?thesis
    by (simp add: TrimSpace_def)
qed

lemma decimal_no: "CHR ''-'' \<notin> set (decimal n)" "CHR '','' \<notin> set (decimal n)"
  using decimal_digits [of n] digit_not by (fastforce simp: list_all_iff)+

lemma hd_last_pair:
  "is_digit (hd (decimal a @ c # decimal b)) \<and> is_digit (last (decimal a @ c # decimal b))"
  using decimal_hd_last by simp

lemma comma_no_digit [simp]: "\<not> is_digit (CHR '','')"
  by (simp add: is_digit_def)

lemma parsePort_comma: "parsePort (decimal a @ '','' @ decimal b) = word_of_nat (a * 10 ^ length (decimal b) + b)"
proof -
  have "parsePort (decimal a @ '','' @ decimal b) = foldl port_digit (port_digit (foldl port_digit 0 (decimal a)) (CHR '','')) (decimal b)"
    by (simp add: parsePort_def)
  also have "\<dots> = foldl port_digit (word_of_nat a) (decimal b)"
    by (simp add: foldl_port_decimal port_digit_def)
  finally show ?thesis
    by (simp add: foldl_port_decimal)
qed

text \<open>
  Port conditions: a number admits that port and a range the ports from its lower to
  its upper end, where every number is read modulo 65536. A comma-separated list is not a
  list: its digits are read as one number.
\<close>

lemma matchPort_meaning:
  "(matchPort (decimal n) p \<longleftrightarrow> p = word_of_nat n) \<and>
   (matchPort (decimal a @ ''-'' @ decimal b) p \<longleftrightarrow> word_of_nat a \<le> p \<and> p \<le> word_of_nat b) \<and>
   (matchPort (decimal a @ '','' @ decimal b) p \<longleftrightarrow> p = word_of_nat (a * 10 ^ length (decimal b) + b))"
proof (intro conjI)
  have "TrimSpace (decimal n) = decimal n"
    using decimal_hd_last by (simp add: TrimSpace_id)
  then show "matchPort (decimal n) p \<longleftrightarrow> p = word_of_nat n"
    by (simp add: matchPort_def Let_def split_on_none decimal_no parsePort_decimal)
  have "TrimSpace (decimal a @ ''-'' @ decimal b) = decimal a @ ''-'' @ decimal b"
    using hd_last_pair [of a _ b] by (intro TrimSpace_id) auto
  then show "matchPort (decimal a @ ''-'' @ decimal b) p \<longleftrightarrow> word_of_nat a \<le> p \<and> p \<le> word_of_nat b"
    by (simp add: matchPort_def Let_def split_on_none split_on_append decimal_no parsePort_decimal)
  have t: "TrimSpace (decimal a @ '','' @ decimal b) = decimal a @ '','' @ decimal b"
    using hd_last_pair [of a _ b] by (intro TrimSpace_id) auto
  have "split_on (CHR ''-'') (decimal a @ '','' @ decimal b) = [decimal a @ '','' @ decimal b]"
    by (intro split_on_none) (simp add: decimal_no)
  then show "matchPort (decimal a @ '','' @ decimal b) p \<longleftrightarrow> p = word_of_nat (a * 10 ^ length (decimal b) + b)"
    using t by (simp add: matchPort_def Let_def parsePort_comma [simplified])
qed

end
