(* ===== verification/Proxy.thy ===== *)
theory Proxy
  imports Router
begin

text \<open>
  \<open>app/proxy/registry.go\<close>, \<open>proxy.go\<close> and \<open>constructors.go\<close>: the registries of protocol factories, the
  handlers as the program creates them, and the manager that starts the inbounds and dispatches
  their connections to an outbound. What a handler does with a connection is an outcome; the
  copying between two connections, sockets and time limits are left out. The JSON decoder is a
  parameter. The handlers of the packages \<open>shadowsocks\<close>, \<open>trojan\<close>, \<open>vless\<close> and \<open>vmess\<close> are not used
  by these files.
\<close>

section \<open>Configuration\<close>

record stream_settings =
  ssn_Network :: string
  ssn_hasDCCP :: bool

record inbound_config =
  ib_Tag :: string
  ib_Port :: u16
  ib_Listen :: string
  ib_Protocol :: string
  ib_Settings :: "bytes option"
  ib_Stream :: "stream_settings option"

record outbound_config =
  ob_Tag :: string
  ob_Protocol :: string
  ob_Settings :: "bytes option"
  ob_Stream :: "stream_settings option"

record core_config =
  cf_Inbounds :: "inbound_config list"
  cf_Outbounds :: "outbound_config list"
  cf_Routing :: "routing_config option"

section \<open>Handlers\<close>

datatype inbound_handler =
  DCCPInbound string u16 string "stream_settings option"
| SOCKSInbound string u16 string
| HTTPInbound string u16 string
| VmessInbound string u16 string "bytes option" "stream_settings option"
| VlessInbound string u16 string "bytes option" "stream_settings option"
| TrojanInbound string u16 string "bytes option" "stream_settings option"
| ShadowsocksInbound string u16 string "bytes option" "stream_settings option"
| DokodemoInbound string u16 string string string int
| LoopbackInbound string u16 string

datatype outbound_handler =
  DCCPOutbound string "stream_settings option"
| VMessOutbound string
| VLESSOutbound string
| TrojanOutbound string
| ShadowsocksOutbound string
| SocksOutbound string
| DirectOutbound string
| FreedomOutbound string
| BlackholeOutbound string
| DNSOutbound string string string u16

text \<open>The constructors of \<open>constructors.go\<close> and \<open>proxy.go\<close>; the manager they also store is not part of a handler here.\<close>

definition NewDCCPInboundHandler :: "string \<Rightarrow> u16 \<Rightarrow> string \<Rightarrow> stream_settings option \<Rightarrow> inbound_handler" where
  [simp]: "NewDCCPInboundHandler t p l ss = DCCPInbound t p l ss"

definition NewVmessInboundHandler :: "string \<Rightarrow> u16 \<Rightarrow> string \<Rightarrow> bytes option \<Rightarrow> stream_settings option \<Rightarrow> inbound_handler" where
  [simp]: "NewVmessInboundHandler t p l st ss = VmessInbound t p l st ss"

definition NewVlessInboundHandler :: "string \<Rightarrow> u16 \<Rightarrow> string \<Rightarrow> bytes option \<Rightarrow> stream_settings option \<Rightarrow> inbound_handler" where
  [simp]: "NewVlessInboundHandler t p l st ss = VlessInbound t p l st ss"

definition NewTrojanInboundHandler :: "string \<Rightarrow> u16 \<Rightarrow> string \<Rightarrow> bytes option \<Rightarrow> stream_settings option \<Rightarrow> inbound_handler" where
  [simp]: "NewTrojanInboundHandler t p l st ss = TrojanInbound t p l st ss"

definition NewShadowsocksInboundHandler :: "string \<Rightarrow> u16 \<Rightarrow> string \<Rightarrow> bytes option \<Rightarrow> stream_settings option \<Rightarrow> inbound_handler" where
  [simp]: "NewShadowsocksInboundHandler t p l st ss = ShadowsocksInbound t p l st ss"

definition NewSOCKSInboundHandler :: "string \<Rightarrow> u16 \<Rightarrow> string \<Rightarrow> inbound_handler" where
  [simp]: "NewSOCKSInboundHandler t p l = SOCKSInbound t p l"

definition NewHTTPInboundHandler :: "string \<Rightarrow> u16 \<Rightarrow> string \<Rightarrow> inbound_handler" where
  [simp]: "NewHTTPInboundHandler t p l = HTTPInbound t p l"

definition NewDirectOutboundHandler :: "string \<Rightarrow> outbound_handler" where
  [simp]: "NewDirectOutboundHandler t = DirectOutbound t"

definition NewFreedomOutboundHandler :: "string \<Rightarrow> outbound_handler" where
  [simp]: "NewFreedomOutboundHandler t = FreedomOutbound t"

definition NewBlackholeOutboundHandler :: "string \<Rightarrow> outbound_handler" where
  [simp]: "NewBlackholeOutboundHandler t = BlackholeOutbound t"

definition NewSocksOutboundHandler :: "string \<Rightarrow> outbound_handler" where
  [simp]: "NewSocksOutboundHandler t = SocksOutbound t"

definition NewDNSOutboundHandler :: "string \<Rightarrow> string \<Rightarrow> string \<Rightarrow> u16 \<Rightarrow> outbound_handler" where
  [simp]: "NewDNSOutboundHandler t network address port = DNSOutbound t network address port"

text \<open>The target of a DCCP outbound is always the zero address.\<close>

definition NewDCCPOutboundHandler :: "string \<Rightarrow> stream_settings option \<Rightarrow> outbound_handler" where
  [simp]: "NewDCCPOutboundHandler t ss = DCCPOutbound t ss"

fun inbound_Tag :: "inbound_handler \<Rightarrow> string" where
  "inbound_Tag (DCCPInbound t _ _ _) = t"
| "inbound_Tag (SOCKSInbound t _ _) = t"
| "inbound_Tag (HTTPInbound t _ _) = t"
| "inbound_Tag (VmessInbound t _ _ _ _) = t"
| "inbound_Tag (VlessInbound t _ _ _ _) = t"
| "inbound_Tag (TrojanInbound t _ _ _ _) = t"
| "inbound_Tag (ShadowsocksInbound t _ _ _ _) = t"
| "inbound_Tag (DokodemoInbound t _ _ _ _ _) = t"
| "inbound_Tag (LoopbackInbound t _ _) = t"

fun inbound_Network :: "inbound_handler \<Rightarrow> string list" where
  "inbound_Network (SOCKSInbound _ _ _) = [''tcp'']"
| "inbound_Network (HTTPInbound _ _ _) = [''tcp'']"
| "inbound_Network (LoopbackInbound _ _ _) = [''tcp'']"
| "inbound_Network (DokodemoInbound _ _ _ _ _ _) = [''tcp'', ''udp'']"
| "inbound_Network h = [''tcp'', ''udp'', ''dccp'']"

fun outbound_Tag :: "outbound_handler \<Rightarrow> string" where
  "outbound_Tag (DCCPOutbound t _) = t"
| "outbound_Tag (VMessOutbound t) = t"
| "outbound_Tag (VLESSOutbound t) = t"
| "outbound_Tag (TrojanOutbound t) = t"
| "outbound_Tag (ShadowsocksOutbound t) = t"
| "outbound_Tag (SocksOutbound t) = t"
| "outbound_Tag (DirectOutbound t) = t"
| "outbound_Tag (FreedomOutbound t) = t"
| "outbound_Tag (BlackholeOutbound t) = t"
| "outbound_Tag (DNSOutbound t _ _ _) = t"

text \<open>
  What an inbound handler passes on: the accepted connection itself, unread, or a new DCCP
  transport in its place, whose constructor panics when its settings are missing.
\<close>

datatype handed = AsIs | NewDCCP

definition dccp_or_conn :: "stream_settings option \<Rightarrow> handed go" where
  "dccp_or_conn ss =
     (case ss of
        Some st \<Rightarrow> if ssn_Network st = ''dccp''
                  then (if ssn_hasDCCP st then Return NewDCCP else Panic) else Return AsIs
      | None \<Rightarrow> Return AsIs)"

fun inbound_Process :: "inbound_handler \<Rightarrow> handed go" where
  "inbound_Process (DCCPInbound _ _ _ ss) = dccp_or_conn ss"
| "inbound_Process (VmessInbound _ _ _ _ ss) = dccp_or_conn ss"
| "inbound_Process (VlessInbound _ _ _ _ ss) = dccp_or_conn ss"
| "inbound_Process (TrojanInbound _ _ _ _ ss) = dccp_or_conn ss"
| "inbound_Process (ShadowsocksInbound _ _ _ _ ss) = dccp_or_conn ss"
| "inbound_Process h = Return AsIs"

text \<open>
  What an outbound handler does with a connection: it returns an error; returns without reading;
  returns and lets the bytes be discarded; or copies both ways with a server it dials, over a
  network of the system or over DCCP.
\<close>

datatype outcome = Refuses error | Ends | Discards | Relays string string u16 | RelaysDCCP | Crash

fun outbound_Process :: "outbound_handler \<Rightarrow> outcome" where
  "outbound_Process (DCCPOutbound _ ss) =
     (case dccp_or_conn ss of Return NewDCCP \<Rightarrow> RelaysDCCP | Panic \<Rightarrow> Crash | _ \<Rightarrow> Relays ''tcp'' '''' 0)"
| "outbound_Process (VMessOutbound _) = Ends"
| "outbound_Process (VLESSOutbound _) = Ends"
| "outbound_Process (TrojanOutbound _) = Ends"
| "outbound_Process (ShadowsocksOutbound _) = Ends"
| "outbound_Process (SocksOutbound _) = Ends"
| "outbound_Process (DirectOutbound _) = Refuses (Error ''direct outbound: no target specified'')"
| "outbound_Process (FreedomOutbound _) = Discards"
| "outbound_Process (BlackholeOutbound _) = Discards"
| "outbound_Process (DNSOutbound _ network address port) = Relays network address port"

section \<open>Registries\<close>

type_synonym inbound_factory = "inbound_config \<Rightarrow> inbound_handler go"
type_synonym outbound_factory = "outbound_config \<Rightarrow> outbound_handler go"

record registry =
  rg_in :: "string \<rightharpoonup> inbound_factory"
  rg_out :: "string \<rightharpoonup> outbound_factory"

definition RegisterInboundProtocol :: "string \<Rightarrow> inbound_factory \<Rightarrow> registry \<Rightarrow> registry" where
  "RegisterInboundProtocol protocol factory rg = rg\<lparr>rg_in := (rg_in rg)(protocol \<mapsto> factory)\<rparr>"

definition RegisterOutboundProtocol :: "string \<Rightarrow> outbound_factory \<Rightarrow> registry \<Rightarrow> registry" where
  "RegisterOutboundProtocol protocol factory rg = rg\<lparr>rg_out := (rg_out rg)(protocol \<mapsto> factory)\<rparr>"

definition GetInboundFactory :: "string \<Rightarrow> registry \<Rightarrow> inbound_factory go" where
  "GetInboundFactory protocol rg =
     (case rg_in rg protocol of
        None \<Rightarrow> Fail (Error ''inbound protocol '%s' not registered'')
      | Some factory \<Rightarrow> Return factory)"

definition GetOutboundFactory :: "string \<Rightarrow> registry \<Rightarrow> outbound_factory go" where
  "GetOutboundFactory protocol rg =
     (case rg_out rg protocol of
        None \<Rightarrow> Fail (Error ''outbound protocol '%s' not registered'')
      | Some factory \<Rightarrow> Return factory)"

text \<open>Settings that the JSON decoder writes over defaults (its error is ignored).\<close>

record jsonlib =
  js_dokodemo :: "bytes \<Rightarrow> string \<times> string \<times> int \<Rightarrow> string \<times> string \<times> int"
  js_dns :: "bytes \<Rightarrow> string \<times> string \<times> u16 \<Rightarrow> string \<times> string \<times> u16"

definition CreateDokodemoInbound :: "jsonlib \<Rightarrow> inbound_factory" where
  "CreateDokodemoInbound js cfg =
     (let d = ('''', ''tcp'', 300);
          (address, network, timeout) = (case ib_Settings cfg of None \<Rightarrow> d | Some bs \<Rightarrow> js_dokodemo js bs d)
      in Return (DokodemoInbound (ib_Tag cfg) (ib_Port cfg) (ib_Listen cfg) address network timeout))"

definition CreateLoopbackInbound :: inbound_factory where
  "CreateLoopbackInbound cfg = Return (LoopbackInbound (ib_Tag cfg) (ib_Port cfg) (ib_Listen cfg))"

definition CreateDNSOutbound :: "jsonlib \<Rightarrow> outbound_factory" where
  "CreateDNSOutbound js cfg =
     (let d = (''udp'', '''', 0);
          (network, address, port) = (case ob_Settings cfg of None \<Rightarrow> d | Some bs \<Rightarrow> js_dns js bs d)
      in Return (DNSOutbound (ob_Tag cfg) network address port))"

section \<open>The manager\<close>

definition ErrProxyNotFound :: error where "ErrProxyNotFound = Error ''proxy: outbound not found''"
definition ErrInboundNotFound :: error where "ErrInboundNotFound = Error ''proxy: inbound not found''"
definition ErrUnsupportedProxy :: error where "ErrUnsupportedProxy = Error ''proxy: unsupported proxy protocol''"
definition MaxConnsPerInbound :: nat where "MaxConnsPerInbound = 4096"

record manager =
  pm_inbounds :: "string \<rightharpoonup> inbound_handler"
  pm_outbounds :: "string \<rightharpoonup> outbound_handler"
  pm_config :: core_config
  pm_cancelled :: bool

definition NewProxyManager :: "core_config \<Rightarrow> manager" where
  "NewProxyManager cfg =
     \<lparr>pm_inbounds = Map.empty, pm_outbounds = Map.empty, pm_config = cfg, pm_cancelled = False\<rparr>"

definition RegisterInbound :: "inbound_handler \<Rightarrow> manager \<Rightarrow> manager" where
  "RegisterInbound h pm = pm\<lparr>pm_inbounds := (pm_inbounds pm)(inbound_Tag h \<mapsto> h)\<rparr>"

definition RegisterOutbound :: "outbound_handler \<Rightarrow> manager \<Rightarrow> manager" where
  "RegisterOutbound h pm = pm\<lparr>pm_outbounds := (pm_outbounds pm)(outbound_Tag h \<mapsto> h)\<rparr>"

definition GetOutbound :: "string \<Rightarrow> manager \<Rightarrow> outbound_handler go" where
  "GetOutbound tag pm = (case pm_outbounds pm tag of None \<Rightarrow> Fail ErrProxyNotFound | Some h \<Rightarrow> Return h)"

definition GetInbound :: "string \<Rightarrow> manager \<Rightarrow> inbound_handler go" where
  "GetInbound tag pm = (case pm_inbounds pm tag of None \<Rightarrow> Fail ErrInboundNotFound | Some h \<Rightarrow> Return h)"

definition createInboundHandler :: "registry \<Rightarrow> inbound_config \<Rightarrow> inbound_handler go" where
  "createInboundHandler rg ib =
     (case GetInboundFactory (ib_Protocol ib) rg of
        Return factory \<Rightarrow> factory ib
      | _ \<Rightarrow>
        (let t = ib_Tag ib; p = ib_Port ib; l = ib_Listen ib; st = ib_Settings ib; ss = ib_Stream ib
         in if ib_Protocol ib = ''dccp'' then Return (DCCPInbound t p l ss)
            else if ib_Protocol ib = ''socks'' then Return (SOCKSInbound t p l)
            else if ib_Protocol ib = ''http'' then Return (HTTPInbound t p l)
            else if ib_Protocol ib = ''vmess'' then Return (VmessInbound t p l st ss)
            else if ib_Protocol ib = ''vless'' then Return (VlessInbound t p l st ss)
            else if ib_Protocol ib = ''trojan'' then Return (TrojanInbound t p l st ss)
            else if ib_Protocol ib = ''shadowsocks'' then Return (ShadowsocksInbound t p l st ss)
            else Fail ErrUnsupportedProxy))"

text \<open>The handlers \<open>Start\<close> launches, each in its own goroutine, and its result.\<close>

fun start_inbounds :: "registry \<Rightarrow> inbound_config list \<Rightarrow> inbound_handler list \<times> unit go" where
  "start_inbounds rg [] = ([], Return ())"
| "start_inbounds rg (ib # ibs) =
     (case createInboundHandler rg ib of
        Return h \<Rightarrow> apfst (Cons h) (start_inbounds rg ibs)
      | Fail e \<Rightarrow> ([], Fail e)
      | Panic \<Rightarrow> ([], Panic))"

definition manager_Start :: "registry \<Rightarrow> manager \<Rightarrow> inbound_handler list \<times> unit go" where
  "manager_Start rg pm = start_inbounds rg (cf_Inbounds (pm_config pm))"

text \<open>The accept loop of one inbound: \<open>n\<close> connections are being served; a new one is served or closed.\<close>

definition accept_conn :: "nat \<Rightarrow> nat \<times> bool" where
  "accept_conn n = (if n < MaxConnsPerInbound then (n + 1, True) else (n, False))"

fun first_rule_tag :: "routing_rule list \<Rightarrow> string option" where
  "first_rule_tag [] = None"
| "first_rule_tag (r # rs) = (if rr_OutboundTag r \<noteq> [] then Some (rr_OutboundTag r) else first_rule_tag rs)"

definition dispatch_tag :: "core_config \<Rightarrow> string" where
  "dispatch_tag cfg =
     (let tag = (if length (cf_Outbounds cfg) > 0 then ob_Tag (cf_Outbounds cfg ! 0) else ''direct'')
      in case cf_Routing cfg of
           None \<Rightarrow> tag
         | Some rc \<Rightarrow> (case first_rule_tag (rc_Rules rc) of None \<Rightarrow> tag | Some t \<Rightarrow> t))"

text \<open>\<open>None\<close>: no outbound has the tag, and the connection is closed.\<close>

definition dispatchRequest :: "manager \<Rightarrow> outcome option" where
  "dispatchRequest pm = map_option outbound_Process (pm_outbounds pm (dispatch_tag (pm_config pm)))"

definition manager_Close :: "manager \<Rightarrow> manager" where
  "manager_Close pm = pm\<lparr>pm_cancelled := True\<rparr>"

text \<open>Decimal digits of a number; the empty string for a negative one.\<close>

function itoa_digits :: "nat \<Rightarrow> string \<Rightarrow> string" where
  "itoa_digits n acc = (if n > 0 then itoa_digits (n div 10) (char_of (48 + n mod 10) # acc) else acc)"
  by pat_completeness auto
termination
  by (relation "measure fst") auto

declare itoa_digits.simps [simp del]

definition itoa :: "int \<Rightarrow> string" where
  "itoa n = (if n = 0 then ''0'' else if n < 0 then [] else itoa_digits (nat n) [])"

end
