(* ===== verification/Core.thy ===== *)
theory Core
  imports Proxy Worker
begin

text \<open>
  \<open>app/core/core.go\<close>: construction, start, stop and reload of the core, over the proxy manager,
  the router and the worker pool. The congestion controller, the dual-stack dialer and the
  certificate manager are only held by the core (their construction and background refresh are
  left out), as are log lines and statistics. The registries of protocols are package variables:
  \<open>NewCore\<close> takes and returns them. \<open>Shutdown\<close> of the pool also waits for its workers.
\<close>

section \<open>Construction\<close>

record worker_pool_config =
  wc_NumWorkers :: int
  wc_QueueSize :: int

record core =
  co_config :: core_config
  co_manager :: "manager option"
  co_router :: "router option"
  co_running :: bool
  co_cancelled :: bool
  co_pool :: "pool option"
  co_executor :: executor

definition createVMessInbound :: inbound_factory where
  "createVMessInbound cfg = Return (NewVmessInboundHandler (ib_Tag cfg) (ib_Port cfg) (ib_Listen cfg) (ib_Settings cfg) (ib_Stream cfg))"

definition createVLESSInbound :: inbound_factory where
  "createVLESSInbound cfg = Return (NewVlessInboundHandler (ib_Tag cfg) (ib_Port cfg) (ib_Listen cfg) (ib_Settings cfg) (ib_Stream cfg))"

definition createTrojanInbound :: inbound_factory where
  "createTrojanInbound cfg = Return (NewTrojanInboundHandler (ib_Tag cfg) (ib_Port cfg) (ib_Listen cfg) (ib_Settings cfg) (ib_Stream cfg))"

definition createShadowsocksInbound :: inbound_factory where
  "createShadowsocksInbound cfg =
     Return (NewShadowsocksInboundHandler (ib_Tag cfg) (ib_Port cfg) (ib_Listen cfg) (ib_Settings cfg) (ib_Stream cfg))"

text \<open>These four return a handler with all fields zero: its tag is the empty string.\<close>

definition createVMessOutbound :: outbound_factory where "createVMessOutbound cfg = Return (VMessOutbound '''')"
definition createVLESSOutbound :: outbound_factory where "createVLESSOutbound cfg = Return (VLESSOutbound '''')"
definition createTrojanOutbound :: outbound_factory where "createTrojanOutbound cfg = Return (TrojanOutbound '''')"
definition createShadowsocksOutbound :: outbound_factory where
  "createShadowsocksOutbound cfg = Return (ShadowsocksOutbound '''')"

definition registerAllProtocols :: "jsonlib \<Rightarrow> registry \<Rightarrow> registry" where
  "registerAllProtocols js rg =
     (let rg = RegisterInboundProtocol ''vmess'' createVMessInbound rg;
          rg = RegisterInboundProtocol ''vless'' createVLESSInbound rg;
          rg = RegisterInboundProtocol ''trojan'' createTrojanInbound rg;
          rg = RegisterInboundProtocol ''shadowsocks'' createShadowsocksInbound rg;
          rg = RegisterInboundProtocol ''socks''
                 (\<lambda>cfg. Return (NewSOCKSInboundHandler (ib_Tag cfg) (ib_Port cfg) (ib_Listen cfg))) rg;
          rg = RegisterInboundProtocol ''http''
                 (\<lambda>cfg. Return (NewHTTPInboundHandler (ib_Tag cfg) (ib_Port cfg) (ib_Listen cfg))) rg;
          rg = RegisterInboundProtocol ''dokodemo-door'' (CreateDokodemoInbound js) rg;
          rg = RegisterInboundProtocol ''loopback'' CreateLoopbackInbound rg;
          rg = RegisterInboundProtocol ''dccp''
                 (\<lambda>cfg. Return (NewDCCPInboundHandler (ib_Tag cfg) (ib_Port cfg) (ib_Listen cfg) (ib_Stream cfg))) rg;
          rg = RegisterOutboundProtocol ''freedom'' (\<lambda>cfg. Return (NewFreedomOutboundHandler (ob_Tag cfg))) rg;
          rg = RegisterOutboundProtocol ''blackhole'' (\<lambda>cfg. Return (NewBlackholeOutboundHandler (ob_Tag cfg))) rg;
          rg = RegisterOutboundProtocol ''direct'' (\<lambda>cfg. Return (NewDirectOutboundHandler (ob_Tag cfg))) rg;
          rg = RegisterOutboundProtocol ''dns'' (CreateDNSOutbound js) rg;
          rg = RegisterOutboundProtocol ''vmess'' createVMessOutbound rg;
          rg = RegisterOutboundProtocol ''vless'' createVLESSOutbound rg;
          rg = RegisterOutboundProtocol ''trojan'' createTrojanOutbound rg;
          rg = RegisterOutboundProtocol ''shadowsocks'' createShadowsocksOutbound rg;
          rg = RegisterOutboundProtocol ''socks'' (\<lambda>cfg. Return (NewSocksOutboundHandler (ob_Tag cfg))) rg
      in RegisterOutboundProtocol ''dccp'' (\<lambda>cfg. Return (NewDCCPOutboundHandler (ob_Tag cfg) (ob_Stream cfg))) rg)"

text \<open>The pool part of \<open>NewCore\<close>: positive numbers of the configuration replace the defaults.\<close>

definition core_pool :: "int \<Rightarrow> worker_pool_config option \<Rightarrow> pool option go" where
  "core_pool ncpu wpc =
     (case wpc of
        None \<Rightarrow> Return None
      | Some w \<Rightarrow>
          let d = DefaultWorkerPoolConfig ncpu;
              d = (if wc_NumWorkers w > 0 then d\<lparr>pc_NumWorkers := wc_NumWorkers w\<rparr> else d);
              d = (if wc_QueueSize w > 0 then d\<lparr>pc_QueueSize := wc_QueueSize w\<rparr> else d)
          in go_map Some (NewWorkerPool ncpu (Some d)))"

definition NewCore ::
  "jsonlib \<Rightarrow> nat \<Rightarrow> core_config \<Rightarrow> worker_pool_config option \<Rightarrow> registry \<Rightarrow> (core \<times> registry) go" where
  "NewCore js ncpu cfg wpc rg =
     go_map (\<lambda>p. (\<lparr>co_config = cfg, co_manager = None, co_router = None, co_running = False, co_cancelled = False,
                   co_pool = p, co_executor = NewParallelExecutor ncpu (int ncpu * 2)\<rparr>, registerAllProtocols js rg))
       (core_pool (int ncpu) wpc)"

section \<open>Start, stop and reload\<close>

definition createOutboundHandler :: "registry \<Rightarrow> outbound_config \<Rightarrow> outbound_handler go" where
  "createOutboundHandler rg ob =
     (case GetOutboundFactory (ob_Protocol ob) rg of
        Return factory \<Rightarrow> factory ob
      | _ \<Rightarrow>
          if ob_Protocol ob = ''dccp'' then Return (NewDCCPOutboundHandler (ob_Tag ob) (ob_Stream ob))
          else if ob_Protocol ob = ''freedom'' then Return (NewFreedomOutboundHandler (ob_Tag ob))
          else if ob_Protocol ob = ''blackhole'' then Return (NewBlackholeOutboundHandler (ob_Tag ob))
          else if ob_Protocol ob = ''dns'' then Return (NewDNSOutboundHandler (ob_Tag ob) ''udp'' ''8.8.8.8'' 53)
          else Return (NewDirectOutboundHandler (ob_Tag ob)))"

text \<open>An outbound that cannot be created is logged and skipped.\<close>

fun register_outbounds :: "registry \<Rightarrow> outbound_config list \<Rightarrow> manager \<Rightarrow> manager go" where
  "register_outbounds rg [] pm = Return pm"
| "register_outbounds rg (ob # obs) pm =
     (case createOutboundHandler rg ob of
        Return h \<Rightarrow> register_outbounds rg obs (RegisterOutbound h pm)
      | Fail e \<Rightarrow> register_outbounds rg obs pm
      | Panic \<Rightarrow> Panic)"

definition registerDefaultOutbounds :: "registry \<Rightarrow> core_config \<Rightarrow> manager \<Rightarrow> manager go" where
  "registerDefaultOutbounds rg cfg pm =
     (let pm = RegisterOutbound (NewDirectOutboundHandler ''direct'') pm;
          pm = RegisterOutbound (NewFreedomOutboundHandler ''freedom'') pm;
          pm = RegisterOutbound (NewBlackholeOutboundHandler ''blackhole'') pm;
          pm = RegisterOutbound (NewDNSOutboundHandler ''dns'' ''udp'' ''8.8.8.8'' 53) pm
      in register_outbounds rg (cf_Outbounds cfg) pm)"

text \<open>The inbounds that were launched are part of the result, also when a later one fails.\<close>

definition core_Start :: "netlib \<Rightarrow> registry \<Rightarrow> core \<Rightarrow> core \<times> inbound_handler list \<times> unit go" where
  "core_Start lib rg c =
     (if co_running c then (c, [], Fail (Error ''core already running''))
      else let rt = (case cf_Routing (co_config c) of
                       Some rc \<Rightarrow> NewRouter lib rc
                     | None \<Rightarrow> NewRouter lib \<lparr>rc_Rules = [], rc_Balancers = []\<rparr>)
           in case registerDefaultOutbounds rg (co_config c) (NewProxyManager (co_config c)) of
                Return pm \<Rightarrow>
                  let c1 = c\<lparr>co_manager := Some pm, co_router := Some rt\<rparr>
                  in (case manager_Start rg pm of
                        (hs, Return _) \<Rightarrow> (c1\<lparr>co_running := True\<rparr>, hs, Return ())
                      | (hs, Fail e) \<Rightarrow> (c1, hs, Fail (Error ''failed to start proxy manager''))
                      | (hs, Panic) \<Rightarrow> (c1, hs, Panic))
              | _ \<Rightarrow> (c, [], Panic))"

definition core_Stop :: "core \<Rightarrow> core" where
  "core_Stop c =
     (if \<not> co_running c then c
      else c\<lparr>co_cancelled := True, co_manager := map_option manager_Close (co_manager c),
             co_pool := map_option pool_Stop (co_pool c), co_running := False\<rparr>)"

text \<open>\<open>parse\<close> is \<open>ParseConfig\<close>, the JSON decoder.\<close>

definition LoadConfig :: "netlib \<Rightarrow> (bytes \<Rightarrow> core_config go) \<Rightarrow> bytes \<Rightarrow> core \<Rightarrow> core \<times> unit go" where
  "LoadConfig lib parse data c =
     (case parse data of
        Fail e \<Rightarrow> (c, Fail e)
      | Panic \<Rightarrow> (c, Panic)
      | Return cfg \<Rightarrow>
          let c1 = c\<lparr>co_config := cfg\<rparr>
          in (case (cf_Routing cfg, co_router c) of
                (Some rc, Some rt) \<Rightarrow> (c1\<lparr>co_router := Some (ReloadConfig lib rc rt)\<rparr>, Return ())
              | _ \<Rightarrow> (c1, Return ())))"

section \<open>What a configuration means for a connection\<close>

text \<open>
  The handler of a configured outbound: the protocols of the table below, and \<open>direct\<close> for any
  other name. The first component is the tag it is registered under.
\<close>

definition configured :: "jsonlib \<Rightarrow> outbound_config \<Rightarrow> outbound_handler" where
  "configured js ob =
     (let p = ob_Protocol ob; t = ob_Tag ob
      in if p = ''freedom'' then FreedomOutbound t
         else if p = ''blackhole'' then BlackholeOutbound t
         else if p = ''dns'' then
           (case (case ob_Settings ob of None \<Rightarrow> (''udp'', '''', 0) | Some bs \<Rightarrow> js_dns js bs (''udp'', '''', 0)) of
              (n, a, q) \<Rightarrow> DNSOutbound t n a q)
         else if p = ''dccp'' then DCCPOutbound t (ob_Stream ob)
         else if p = ''socks'' then SocksOutbound t
         else if p = ''vmess'' then VMessOutbound ''''
         else if p = ''vless'' then VLESSOutbound ''''
         else if p = ''trojan'' then TrojanOutbound ''''
         else if p = ''shadowsocks'' then ShadowsocksOutbound ''''
         else DirectOutbound t)"

definition all_outbounds :: "jsonlib \<Rightarrow> core_config \<Rightarrow> outbound_handler list" where
  "all_outbounds js cfg =
     [DirectOutbound ''direct'', FreedomOutbound ''freedom'', BlackholeOutbound ''blackhole'',
      DNSOutbound ''dns'' ''udp'' ''8.8.8.8'' 53] @ map (configured js) (cf_Outbounds cfg)"

text \<open>
  A reading of the configuration alone. The tags a connection may go to, in the order of preference:
  those that the rules name, whatever their conditions, then those of the outbounds, then
  \<open>direct\<close>. The outbound is the last one with the preferred tag.
\<close>

definition preferred_tags :: "core_config \<Rightarrow> string list" where
  "preferred_tags cfg =
     filter (\<lambda>t. t \<noteq> []) (case cf_Routing cfg of None \<Rightarrow> [] | Some rc \<Rightarrow> map rr_OutboundTag (rc_Rules rc)) @
     map ob_Tag (cf_Outbounds cfg) @ [''direct'']"

definition config_dispatch :: "jsonlib \<Rightarrow> core_config \<Rightarrow> outcome option" where
  "config_dispatch js cfg =
     map_option outbound_Process (find (\<lambda>h. outbound_Tag h = hd (preferred_tags cfg)) (rev (all_outbounds js cfg)))"

text \<open>What \<open>dispatchRequest\<close> computes with its two lookups and its loop is the first of these tags.\<close>

lemma first_rule_tag_filter:
  "first_rule_tag rs = (case filter (\<lambda>t. t \<noteq> []) (map rr_OutboundTag rs) of [] \<Rightarrow> None | t # _ \<Rightarrow> Some t)"
  by (induction rs) simp_all

lemma dispatch_tag_preferred: "dispatch_tag cfg = hd (preferred_tags cfg)"
proof -
  have "(if 0 < length (cf_Outbounds cfg) then ob_Tag (cf_Outbounds cfg ! 0) else ''direct'') =
      hd (map ob_Tag (cf_Outbounds cfg) @ [''direct''])"
    by (cases "cf_Outbounds cfg") simp_all
  then show ?thesis
    by (simp add: dispatch_tag_def preferred_tags_def first_rule_tag_filter Let_def split: option.split list.split)
qed

lemma find_append: "find P (xs @ ys) = (case find P xs of None \<Rightarrow> find P ys | Some x \<Rightarrow> Some x)"
  by (induction xs) simp_all

lemma fold_register:
  "pm_outbounds (fold RegisterOutbound hs pm) t =
     (case find (\<lambda>h. outbound_Tag h = t) (rev hs) of None \<Rightarrow> pm_outbounds pm t | Some h \<Rightarrow> Some h)"
  by (induction hs arbitrary: pm) (auto simp: find_append RegisterOutbound_def split: option.split)

lemma fold_register_config [simp]: "pm_config (fold RegisterOutbound hs pm) = pm_config pm"
  by (induction hs arbitrary: pm) (simp_all add: RegisterOutbound_def)

lemmas register_defs = registerAllProtocols_def RegisterInboundProtocol_def RegisterOutboundProtocol_def

lemma create_configured:
  assumes "rg_out rg = Map.empty"
  shows "createOutboundHandler (registerAllProtocols js rg) ob = Return (configured js ob)"
  using assms
  by (simp add: createOutboundHandler_def GetOutboundFactory_def register_defs Let_def configured_def
      createVMessOutbound_def createVLESSOutbound_def createTrojanOutbound_def createShadowsocksOutbound_def
      CreateDNSOutbound_def case_prod_beta split: option.split)

lemma register_outbounds_configured:
  assumes "rg_out rg = Map.empty"
  shows "register_outbounds (registerAllProtocols js rg) obs pm =
    Return (fold RegisterOutbound (map (configured js) obs) pm)"
  by (induction obs arbitrary: pm) (simp_all add: create_configured [OF assms])

lemma default_outbounds:
  assumes "rg_out rg = Map.empty"
  shows "registerDefaultOutbounds (registerAllProtocols js rg) cfg pm =
    Return (fold RegisterOutbound (all_outbounds js cfg) pm)"
  by (simp add: registerDefaultOutbounds_def Let_def register_outbounds_configured [OF assms] all_outbounds_def)

lemma core_Start_Return:
  assumes "rg_out rg = Map.empty" "\<not> co_running c"
    and "core_Start lib (registerAllProtocols js rg) c = (c', hs, Return ())"
  shows "co_manager c' = Some (fold RegisterOutbound (all_outbounds js (co_config c)) (NewProxyManager (co_config c)))"
  using assms(2,3)
  by (auto simp: core_Start_def default_outbounds [OF assms(1)] Let_def split: go.splits prod.splits)

text \<open>A sequence of reloads.\<close>

definition reloads :: "netlib \<Rightarrow> (bytes \<Rightarrow> core_config go) \<Rightarrow> bytes list \<Rightarrow> core \<Rightarrow> core" where
  "reloads lib parse ds c = fold (\<lambda>d c. fst (LoadConfig lib parse d c)) ds c"

lemma LoadConfig_manager [simp]: "co_manager (fst (LoadConfig lib parse d c)) = co_manager c"
  by (auto simp: LoadConfig_def Let_def split: go.splits option.splits)

lemma reloads_manager: "co_manager (reloads lib parse ds c) = co_manager c"
  by (induction ds arbitrary: c) (simp_all add: reloads_def)

text \<open>
  C1: in a started core a connection goes where a direct reading of its configuration says: to the
  outbound of the first rule that names one, else to the first outbound, else to \<open>direct\<close>, and there
  to the last of the four built-in and the configured outbounds with that tag. The conditions of
  the rules do not matter, nor does a configuration loaded later.
\<close>
theorem core_dispatch_meaning:
  assumes "NewCore js ncpu cfg wpc rg0 = Return (c, rg)" "rg_out rg0 = Map.empty"
    and "core_Start lib rg c = (c1, hs, Return ())"
  shows "\<exists>pm. co_manager (reloads lib' parse ds c1) = Some pm \<and> dispatchRequest pm = config_dispatch js cfg"
proof -
  have c: "co_config c = cfg" "\<not> co_running c" "rg = registerAllProtocols js rg0"
    using assms(1) by (auto simp: NewCore_def go_map_Return_iff)
  have "co_manager c1 = Some (fold RegisterOutbound (all_outbounds js cfg) (NewProxyManager cfg))"
    using core_Start_Return [OF assms(2) c(2)] assms(3) c by simp
  then show ?thesis
    by (simp add: reloads_manager dispatchRequest_def config_dispatch_def dispatch_tag_preferred fold_register NewProxyManager_def
        split: option.split)
qed

theorem core_dispatch_meaning_witness:
  "\<exists>lib c rg c1 hs pm. NewCore \<lparr>js_dokodemo = \<lambda>_ d. d, js_dns = \<lambda>_ d. d\<rparr> 4
       \<lparr>cf_Inbounds = [], cf_Outbounds = [\<lparr>ob_Tag = ''out'', ob_Protocol = ''freedom'', ob_Settings = None, ob_Stream = None\<rparr>],
        cf_Routing = None\<rparr> None \<lparr>rg_in = Map.empty, rg_out = Map.empty\<rparr> = Return (c, rg) \<and>
     core_Start lib rg c = (c1, hs, Return ()) \<and> co_manager c1 = Some pm \<and> dispatchRequest pm = Some Discards"
  (is "\<exists>lib c rg c1 hs pm. NewCore ?js 4 ?cfg None ?rg = Return (c, rg) \<and> _ lib c rg c1 hs pm")
proof -
  obtain c rg where new: "NewCore ?js 4 ?cfg None ?rg = Return (c, rg)"
    by (simp add: NewCore_def core_pool_def)
  then have c: "co_config c = ?cfg" "\<not> co_running c" "rg = registerAllProtocols ?js ?rg"
    by (auto simp: NewCore_def core_pool_def)
  fix lib
  obtain c1 hs where start: "core_Start lib rg c = (c1, hs, Return ())"
    using c by (simp add: core_Start_def default_outbounds manager_Start_def NewProxyManager_def Let_def)
  have "\<exists>pm. co_manager (reloads lib (\<lambda>_. Panic) [] c1) = Some pm \<and> dispatchRequest pm = config_dispatch ?js ?cfg"
    by (rule core_dispatch_meaning [OF new _ start]) simp
  then show ?thesis
    using new start by (fastforce simp: reloads_def config_dispatch_def all_outbounds_def configured_def preferred_tags_def)
qed

lemma find_in: "find P xs = Some x \<Longrightarrow> x \<in> set xs \<and> P x"
  by (induction xs) (auto split: if_splits)

lemmas outbound_cases = all_outbounds_def configured_def Let_def

text \<open>
  Bytes are only ever forwarded by a DNS outbound or a DCCP outbound (the latter without a
  target address): a connection whose outbound is a VMess, VLESS, Trojan, Shadowsocks, SOCKS,
  freedom or direct one is answered by nothing that comes from elsewhere, and one whose tag
  belongs only to VMess, VLESS, Trojan or Shadowsocks outbounds finds no outbound at all.
\<close>
lemma core_forwards_only_dns_dccp:
  "(config_dispatch js cfg \<in> {Some (Relays network address port), Some RelaysDCCP} \<longrightarrow>
      dispatch_tag cfg = ''dns'' \<or>
      (\<exists>ob \<in> set (cf_Outbounds cfg). ob_Tag ob = dispatch_tag cfg \<and> ob_Protocol ob \<in> {''dns'', ''dccp''})) \<and>
   (dispatch_tag cfg \<notin> {'''', ''direct'', ''freedom'', ''blackhole'', ''dns''} \<and>
    (\<forall>ob \<in> set (cf_Outbounds cfg). ob_Tag ob = dispatch_tag cfg \<longrightarrow>
        ob_Protocol ob \<in> {''vmess'', ''vless'', ''trojan'', ''shadowsocks''}) \<longrightarrow>
    config_dispatch js cfg = None)"
proof (intro conjI impI)
  assume "config_dispatch js cfg \<in> {Some (Relays network address port), Some RelaysDCCP}"
  then obtain h where h: "find (\<lambda>h. outbound_Tag h = dispatch_tag cfg) (rev (all_outbounds js cfg)) = Some h"
    "outbound_Process h \<in> {Relays network address port, RelaysDCCP}"
    by (auto simp: config_dispatch_def simp flip: dispatch_tag_preferred)
  then have "h \<in> set (all_outbounds js cfg)" "outbound_Tag h = dispatch_tag cfg"
    using find_in [OF h(1)] by simp_all
  then show "dispatch_tag cfg = ''dns'' \<or>
      (\<exists>ob \<in> set (cf_Outbounds cfg). ob_Tag ob = dispatch_tag cfg \<and> ob_Protocol ob \<in> {''dns'', ''dccp''})"
    using h(2) by (auto simp: outbound_cases split: if_splits prod.splits)
next
  assume tag: "dispatch_tag cfg \<notin> {'''', ''direct'', ''freedom'', ''blackhole'', ''dns''} \<and>
    (\<forall>ob \<in> set (cf_Outbounds cfg). ob_Tag ob = dispatch_tag cfg \<longrightarrow>
        ob_Protocol ob \<in> {''vmess'', ''vless'', ''trojan'', ''shadowsocks''})"
  have "outbound_Tag h \<noteq> dispatch_tag cfg" if "h \<in> set (all_outbounds js cfg)" for h
    using that tag by (auto simp: outbound_cases split: if_splits prod.splits)
  then have "find (\<lambda>h. outbound_Tag h = dispatch_tag cfg) (rev (all_outbounds js cfg)) = None"
    by (auto simp: find_None_iff)
  then show "config_dispatch js cfg = None"
    by (simp add: config_dispatch_def flip: dispatch_tag_preferred)
qed

end
