(* ===== verification/Bbr.thy ===== *)
theory Bbr
  imports Go_Float
begin

text \<open>
  \<open>app/transport/bbr/bbr.go\<close>: the BBR controller, its variants and their factory. The fields
  nothing reads are left out. A time is \<open>None\<close> while the field holds the zero time. The
  filters are arrays of a configured length; an empty one makes an update panic.
\<close>

section \<open>Configuration and state\<close>

type_synonym algorithm = string

definition BBROriginal :: algorithm where "BBROriginal = ''bbr''"
definition BBRv2 :: algorithm where "BBRv2 = ''bbrv2''"
definition BBRv3 :: algorithm where "BBRv3 = ''bbrv3''"
definition BBRPlus :: algorithm where "BBRPlus = ''bbrplus''"
definition BBRECN :: algorithm where "BBRECN = ''bbr_ecn''"
definition BBRAdaptive :: algorithm where "BBRAdaptive = ''bbr_adaptive''"
definition BBRProbeRTTAlgo :: algorithm where "BBRProbeRTTAlgo = ''bbr_probert''"

datatype bbr_mode = ModeStartup | ModeDrain | ModeProbeBW | ModeProbeRTT

record bbr_config =
  bc_Algorithm :: algorithm
  bc_MSS :: int
  bc_InitCWND :: f64
  bc_BWFilterLen :: int
  bc_RTTFilterLen :: int
  bc_ECNThreshold :: f64
  bc_StartupPacingGain :: f64
  bc_StartupCWNDGain :: f64
  bc_DrainPacingGain :: f64
  bc_BBRv2Alpha :: f64
  bc_BBRv2Beta :: f64

definition DefaultBBRConfig :: "algorithm \<Rightarrow> bbr_config" where
  "DefaultBBRConfig algorithm =
     \<lparr>bc_Algorithm = algorithm, bc_MSS = 1460, bc_InitCWND = Fin 10, bc_BWFilterLen = 10,
      bc_RTTFilterLen = 10, bc_ECNThreshold = rnd (8 / 100), bc_StartupPacingGain = rnd (277 / 100),
      bc_StartupCWNDGain = Fin 2, bc_DrainPacingGain = Fin (1 / 2), bc_BBRv2Alpha = rnd (85 / 100),
      bc_BBRv2Beta = rnd (7 / 10)\<rparr>"

record bbr =
  bb_algorithm :: algorithm
  bb_mode :: bbr_mode
  bb_bw :: f64
  bb_bwMax :: f64
  bb_bwLatest :: f64
  bb_bwFilter :: "f64 list"
  bb_bwFilterIdx :: nat
  bb_minRTT :: duration
  bb_minRTTFilter :: "duration list"
  bb_minRTTIdx :: nat
  bb_latestRTT :: duration
  bb_cwnd :: f64
  bb_cwndGain :: f64
  bb_pacingGain :: f64
  bb_pacingRate :: f64
  bb_lostBytes :: u64
  bb_inflight :: u64
  bb_packetsSent :: u64
  bb_packetsLost :: u64
  bb_packetsAcked :: u64
  bb_bytesSent :: u64
  bb_bytesAcked :: u64
  bb_ecnCount :: u64
  bb_ecnThreshold :: f64
  bb_probeRTTSince :: "int option"
  bb_probeRTTDoneAt :: "int option"
  bb_fullBW :: bool
  bb_fullBWCount :: u64
  bb_cycleCount :: u64
  bb_firstSentTime :: "int option"
  bb_mss :: int
  bb_initCWND :: f64
  bb_startupPacingGain :: f64
  bb_startupCWNDGain :: f64
  bb_drainPacingGain :: f64
  bb_tcpAwareECN :: bool
  bb_alpha :: f64
  bb_beta :: f64

text \<open>The two coefficients the controller reads from its configuration later are kept with the state.\<close>

definition newBBRState :: "bbr_config \<Rightarrow> bbr go" where
  "newBBRState config =
     (if bc_BWFilterLen config < 0 \<or> bc_RTTFilterLen config < 0 then Panic
      else Return
        \<lparr>bb_algorithm = bc_Algorithm config, bb_mode = ModeStartup, bb_bw = Fin 0, bb_bwMax = Fin 0,
         bb_bwLatest = Fin 0, bb_bwFilter = replicate (nat (bc_BWFilterLen config)) (Fin 0),
         bb_bwFilterIdx = 0, bb_minRTT = Hour,
         bb_minRTTFilter = replicate (nat (bc_RTTFilterLen config)) Hour, bb_minRTTIdx = 0,
         bb_latestRTT = 0, bb_cwnd = bc_InitCWND config, bb_cwndGain = bc_StartupCWNDGain config,
         bb_pacingGain = bc_StartupPacingGain config,
         bb_pacingRate = f_mul (Fin 10) (f_of_int (bc_MSS config)), bb_lostBytes = 0, bb_inflight = 0,
         bb_packetsSent = 0, bb_packetsLost = 0, bb_packetsAcked = 0, bb_bytesSent = 0, bb_bytesAcked = 0,
         bb_ecnCount = 0, bb_ecnThreshold = bc_ECNThreshold config, bb_probeRTTSince = None,
         bb_probeRTTDoneAt = None, bb_fullBW = False, bb_fullBWCount = 0, bb_cycleCount = 0,
         bb_firstSentTime = None, bb_mss = bc_MSS config, bb_initCWND = bc_InitCWND config,
         bb_startupPacingGain = bc_StartupPacingGain config, bb_startupCWNDGain = bc_StartupCWNDGain config,
         bb_drainPacingGain = bc_DrainPacingGain config, bb_tcpAwareECN = False,
         bb_alpha = bc_BBRv2Alpha config, bb_beta = bc_BBRv2Beta config\<rparr>)"

section \<open>Filters, window and rate\<close>

definition filter_max :: "f64 list \<Rightarrow> f64" where
  "filter_max bws = foldl (\<lambda>m bw. if f_less m bw then bw else m) (Fin 0) bws"

definition updateBWFilter :: "bbr \<Rightarrow> bbr go" where
  "updateBWFilter s =
     (if bb_bwFilterIdx s \<ge> length (bb_bwFilter s) then Panic
      else let bws = (bb_bwFilter s)[bb_bwFilterIdx s := bb_bwLatest s]
           in Return (s\<lparr>bb_bwFilter := bws, bb_bwFilterIdx := (bb_bwFilterIdx s + 1) mod length bws,
                        bb_bwMax := filter_max bws,
                        bb_bw := (if f_less (bb_bw s) (bb_bwLatest s) then bb_bwLatest s else bb_bw s)\<rparr>))"

definition filter_min :: "duration list \<Rightarrow> duration" where
  "filter_min rtts = foldl (\<lambda>m rtt. if sint rtt < sint m then rtt else m) Hour rtts"

definition updateMinRTTFilter :: "bbr \<Rightarrow> bbr go" where
  "updateMinRTTFilter s =
     (if bb_minRTTIdx s \<ge> length (bb_minRTTFilter s) then Panic
      else let rtts = (bb_minRTTFilter s)[bb_minRTTIdx s := bb_latestRTT s]
           in Return (s\<lparr>bb_minRTTFilter := rtts, bb_minRTTIdx := (bb_minRTTIdx s + 1) mod length rtts,
                        bb_minRTT := filter_min rtts\<rparr>))"

definition bdp :: "bbr \<Rightarrow> f64" where
  "bdp s = (if sint (bb_minRTT s) \<le> 0 then bb_initCWND s else f_mul (bb_bw s) (Seconds (bb_minRTT s)))"

definition bdpBytes :: "bbr \<Rightarrow> f64" where
  "bdpBytes s = f_mul (bdp s) (f_of_int (bb_mss s))"

definition updatePacingRate :: "bbr \<Rightarrow> bbr" where
  "updatePacingRate s =
     (if f_less (Fin 0) (bb_bw s) \<and> f_less (Fin 0) (bb_pacingGain s) then
        let rate = f_mul (f_mul (bb_bw s) (bb_pacingGain s)) (f_of_int (bb_mss s))
        in if f_less (bb_pacingRate s) rate \<or> f_eq (bb_pacingRate s) (Fin 0)
           then s\<lparr>bb_pacingRate := rate\<rparr> else s
      else s)"

text \<open>The window before it is limited to the initial window below and 600 above.\<close>

definition wanted_cwnd :: "bbr \<Rightarrow> f64" where
  "wanted_cwnd s =
     (case bb_mode s of
        ModeStartup \<Rightarrow> f_min (f_add (bb_cwnd s) (bb_cwndGain s)) (f_mul (bdpBytes s) (bb_cwndGain s))
      | ModeProbeBW \<Rightarrow> f_mul (bdpBytes s) (Fin 2)
      | _ \<Rightarrow> bdpBytes s)"

definition updateCWND :: "bbr \<Rightarrow> bbr" where
  "updateCWND s =
     (if bb_mode s = ModeProbeRTT then s\<lparr>bb_cwnd := f_min (bb_cwnd s) (bb_initCWND s)\<rparr>
      else let w = wanted_cwnd s;
               w1 = (if f_less w (bb_initCWND s) then bb_initCWND s else w);
               w2 = (if f_less (Fin 600) w1 then Fin 600 else w1)
           in s\<lparr>bb_cwnd := w2\<rparr>)"

text \<open>\<open>time.Since\<close> saturates; the zero time is longer ago than a duration can tell.\<close>

definition time_Since :: "int \<Rightarrow> int option \<Rightarrow> duration" where
  "time_Since now t =
     (case t of None \<Rightarrow> word_of_int (2 ^ 63 - 1)
      | Some t \<Rightarrow> word_of_int (max (- (2 ^ 63)) (min (2 ^ 63 - 1) (now - t))))"

definition probe_gains :: "f64 list" where
  "probe_gains = [Fin (5 / 4), Fin (3 / 4), Fin 1, Fin 1, Fin 1, Fin 1, Fin 1, Fin 1]"

text \<open>The cycle count is below \<open>2 ^ 63\<close>, so that its index into the gains is not negative.\<close>

definition advanceMode :: "int \<Rightarrow> bbr \<Rightarrow> bbr" where
  "advanceMode now s =
     (case bb_mode s of
        ModeStartup \<Rightarrow>
          if f_eq (bb_bwMax s) (bb_bwLatest s) \<and> bb_fullBW s then
            let s1 = s\<lparr>bb_fullBWCount := bb_fullBWCount s + 1\<rparr>
            in if bb_fullBWCount s1 \<ge> 3
               then s1\<lparr>bb_mode := ModeDrain, bb_pacingGain := bb_drainPacingGain s1, bb_cwndGain := Fin 1,
                       bb_fullBW := False\<rparr>
               else s1
          else s\<lparr>bb_fullBW := True, bb_fullBWCount := 0\<rparr>
      | ModeDrain \<Rightarrow>
          if f_le (f_of_int (uint (bb_inflight s))) (bdp s)
          then s\<lparr>bb_mode := ModeProbeBW, bb_pacingGain := Fin (5 / 4), bb_cwndGain := Fin 2, bb_cycleCount := 0\<rparr>
          else s
      | ModeProbeBW \<Rightarrow>
          let n = bb_cycleCount s + 1; idx = nat (sint n smod 8)
          in s\<lparr>bb_cycleCount := n, bb_pacingGain := probe_gains ! idx,
               bb_cwndGain := (if idx = 0 then Fin 2 else Fin 1)\<rparr>
      | ModeProbeRTT \<Rightarrow>
          if sint (200 * Millisecond) < sint (time_Since now (bb_probeRTTDoneAt s))
          then s\<lparr>bb_mode := ModeProbeBW, bb_pacingGain := Fin (5 / 4), bb_cwndGain := Fin 2\<rparr>
          else s)"

section \<open>Construction\<close>

definition config_or_default :: "algorithm \<Rightarrow> bbr_config option \<Rightarrow> bbr_config" where
  "config_or_default a config = (case config of None \<Rightarrow> DefaultBBRConfig a | Some c \<Rightarrow> c)"

definition NewBBR :: "bbr_config option \<Rightarrow> bbr go" where
  "NewBBR config = newBBRState (config_or_default BBROriginal config)"

definition NewBBRv2 :: "bbr_config option \<Rightarrow> bbr go" where
  "NewBBRv2 config =
     go_map (\<lambda>s. s\<lparr>bb_tcpAwareECN := True\<rparr>) (newBBRState (config_or_default BBRv2 config))"

definition NewBBRv3 :: "bbr_config option \<Rightarrow> bbr go" where
  "NewBBRv3 config =
     go_map (\<lambda>s. s\<lparr>bb_tcpAwareECN := True, bb_ecnThreshold := rnd (5 / 100)\<rparr>)
       (newBBRState (config_or_default BBRv3 config))"

definition newBBR :: "int \<Rightarrow> algorithm \<Rightarrow> bbr_config option \<Rightarrow> bbr go" where
  "newBBR now algorithm config =
     (let c = Some (config_or_default algorithm config)
      in if algorithm = BBROriginal then NewBBR c
         else if algorithm = BBRv2 then NewBBRv2 c
         else if algorithm = BBRv3 then NewBBRv3 c
         else if algorithm = BBRPlus then go_map (\<lambda>s. s\<lparr>bb_startupPacingGain := rnd (289 / 100)\<rparr>) (NewBBR c)
         else if algorithm = BBRECN then go_map (\<lambda>s. s\<lparr>bb_tcpAwareECN := True\<rparr>) (NewBBR c)
         else if algorithm = BBRAdaptive then go_map (\<lambda>s. s\<lparr>bb_cwndGain := Fin 3\<rparr>) (NewBBR c)
         else if algorithm = BBRProbeRTTAlgo then go_map (\<lambda>s. s\<lparr>bb_probeRTTSince := Some now\<rparr>) (NewBBR c)
         else NewBBR c)"

type_synonym bbr_factory = "algorithm \<rightharpoonup> int \<Rightarrow> bbr_config option \<Rightarrow> bbr go"

definition factory_Register ::
  "algorithm \<Rightarrow> (int \<Rightarrow> bbr_config option \<Rightarrow> bbr go) \<Rightarrow> bbr_factory \<Rightarrow> bbr_factory" where
  "factory_Register algorithm factory f = f(algorithm \<mapsto> factory)"

definition GetBBRFactory :: bbr_factory where
  "GetBBRFactory =
     factory_Register BBRProbeRTTAlgo (\<lambda>now. newBBR now BBRProbeRTTAlgo)
      (factory_Register BBRAdaptive (\<lambda>now. newBBR now BBRAdaptive)
       (factory_Register BBRECN (\<lambda>now. newBBR now BBRECN)
        (factory_Register BBRPlus (\<lambda>now. newBBR now BBRPlus)
         (factory_Register BBRv3 (\<lambda>_. NewBBRv3)
          (factory_Register BBRv2 (\<lambda>_. NewBBRv2)
           (factory_Register BBROriginal (\<lambda>_. NewBBR) Map.empty))))))"

definition factory_Create :: "bbr_factory \<Rightarrow> int \<Rightarrow> algorithm \<Rightarrow> bbr_config option \<Rightarrow> bbr go" where
  "factory_Create f now algorithm config =
     (case f algorithm of Some factory \<Rightarrow> factory now config | None \<Rightarrow> NewBBR config)"

definition bbr_Name :: "bbr \<Rightarrow> string" where
  "bbr_Name s =
     (if bb_algorithm s = BBRv2 then ''BBRv2''
      else if bb_algorithm s = BBRv3 then ''BBRv3''
      else if bb_algorithm s = BBRPlus then ''BBRPlus''
      else if bb_algorithm s = BBRECN then ''BBR-ECN''
      else if bb_algorithm s = BBRAdaptive then ''BBR-Adaptive''
      else if bb_algorithm s = BBRProbeRTTAlgo then ''BBR-ProbeRTT''
      else ''BBR'')"

section \<open>Operations\<close>

definition bbr_OnPacketSent :: "int \<Rightarrow> int \<Rightarrow> bbr \<Rightarrow> bbr" where
  "bbr_OnPacketSent now sz s =
     s\<lparr>bb_packetsSent := bb_packetsSent s + 1, bb_inflight := bb_inflight s + 1,
       bb_bytesSent := bb_bytesSent s + word_of_int sz,
       bb_firstSentTime := (if bb_firstSentTime s = None then Some now else bb_firstSentTime s)\<rparr>"

definition land_one :: "bbr \<Rightarrow> bbr" where
  "land_one s = (if bb_inflight s > 0 then s\<lparr>bb_inflight := bb_inflight s - 1\<rparr> else s)"

definition at_least_init :: "bbr \<Rightarrow> f64 \<Rightarrow> f64" where
  "at_least_init s w = (if f_less w (bb_initCWND s) then bb_initCWND s else w)"

definition count_lost :: "bool \<Rightarrow> bbr \<Rightarrow> bbr" where
  "count_lost ecn s =
     (let s1 = land_one (s\<lparr>bb_packetsLost := bb_packetsLost s + 1,
                           bb_lostBytes := bb_lostBytes s + word_of_int (bb_mss s)\<rparr>)
      in if ecn then s1\<lparr>bb_ecnCount := bb_ecnCount s1 + 1\<rparr> else s1)"

definition lost_cwnd :: "bool \<Rightarrow> bbr \<Rightarrow> f64" where
  "lost_cwnd ecn s =
     (if bb_algorithm s = BBRv2 \<or> bb_algorithm s = BBRv3 then
        if ecn \<and> f_less (f_mul (bb_ecnThreshold s) (f_of_int (uint (bb_packetsSent s))))
                        (f_of_int (uint (bb_ecnCount s)))
        then at_least_init s (f_mul (bb_cwnd s) (bb_alpha s))
        else f_mul (bb_cwnd s) (bb_beta s)
      else f_mul (bb_cwnd s) (rnd (8 / 10)))"

definition bbr_OnPacketLost :: "bool \<Rightarrow> bbr \<Rightarrow> bbr" where
  "bbr_OnPacketLost ecn s =
     (let s1 = count_lost ecn s in s1\<lparr>bb_cwnd := at_least_init s1 (lost_cwnd ecn s1)\<rparr>)"

definition note_minRTT :: "duration \<Rightarrow> bbr \<Rightarrow> bbr" where
  "note_minRTT rtt s =
     (let s1 = s\<lparr>bb_latestRTT := rtt\<rparr>
      in if sint rtt < sint (bb_minRTT s1) \<and> sint rtt > 0 then s1\<lparr>bb_minRTT := rtt\<rparr> else s1)"

definition bbr_measure :: "int \<Rightarrow> duration \<Rightarrow> bbr \<Rightarrow> bbr go" where
  "bbr_measure sz rtt s =
     (if sz > 0 then
        let rate = f_div (f_of_int sz) (Seconds rtt)
        in if f_less (Fin 0) rate then updateBWFilter (s\<lparr>bb_bwLatest := rate\<rparr>) else Return s
      else Return s)"

definition bbr_OnPacketAcked :: "int \<Rightarrow> int \<Rightarrow> duration \<Rightarrow> bbr \<Rightarrow> bbr go" where
  "bbr_OnPacketAcked now sz rtt s =
     (let s1 = land_one (s\<lparr>bb_packetsAcked := bb_packetsAcked s + 1,
                           bb_bytesAcked := bb_bytesAcked s + word_of_int sz\<rparr>)
      in go_bind (updateMinRTTFilter (note_minRTT rtt s1)) (\<lambda>s2.
         go_bind (bbr_measure sz rtt s2) (\<lambda>s3.
           let s4 = (if bb_mode s3 = ModeStartup then advanceMode now s3 else s3)
           in Return (updateCWND (updatePacingRate s4)))))"

definition bbr_OnRTTUpdate :: "int \<Rightarrow> duration \<Rightarrow> bbr \<Rightarrow> bbr go" where
  "bbr_OnRTTUpdate now rtt s =
     go_bind (updateMinRTTFilter (note_minRTT rtt s)) (\<lambda>s1.
       Return (if sint (bb_minRTT s1) > 0 \<and>
                  sint (10 * Second) < sint (time_Since now (bb_probeRTTDoneAt s1))
               then s1\<lparr>bb_mode := ModeProbeRTT, bb_probeRTTSince := Some now\<rparr> else s1))"

definition bbr_CanSend :: "bbr \<Rightarrow> bool" where
  "bbr_CanSend s = f_less (f_of_int (uint (bb_inflight s))) (bb_cwnd s)"

definition bbr_Reset :: "bbr \<Rightarrow> bbr" where
  "bbr_Reset s =
     s\<lparr>bb_cwnd := bb_initCWND s, bb_bw := Fin 0, bb_bwMax := Fin 0, bb_mode := ModeStartup,
       bb_pacingGain := bb_startupPacingGain s, bb_cwndGain := bb_startupCWNDGain s,
       bb_packetsSent := 0, bb_packetsLost := 0, bb_packetsAcked := 0, bb_inflight := 0,
       bb_bytesSent := 0, bb_bytesAcked := 0\<rparr>"

text \<open>The calls of the interface that change a controller, and a history of them.\<close>

datatype bbr_call =
    PacketSent int | PacketLost bool | PacketAcked int duration | RTTUpdate duration | BbrReset

fun bbr_do :: "int \<Rightarrow> bbr_call \<Rightarrow> bbr \<Rightarrow> bbr go" where
  "bbr_do now (PacketSent sz) s = Return (bbr_OnPacketSent now sz s)"
| "bbr_do now (PacketLost ecn) s = Return (bbr_OnPacketLost ecn s)"
| "bbr_do now (PacketAcked sz rtt) s = bbr_OnPacketAcked now sz rtt s"
| "bbr_do now (RTTUpdate rtt) s = bbr_OnRTTUpdate now rtt s"
| "bbr_do now BbrReset s = Return (bbr_Reset s)"

fun bbr_run :: "(int \<times> bbr_call) list \<Rightarrow> bbr \<Rightarrow> bbr go" where
  "bbr_run [] s = Return s"
| "bbr_run ((now, call) # calls) s = go_bind (bbr_do now call s) (bbr_run calls)"

section \<open>The invariant of a controller with the default configuration\<close>

definition bbr_inv :: "bbr \<Rightarrow> bool" where
  "bbr_inv s \<longleftrightarrow>
     bb_mode s \<noteq> ModeProbeBW \<and> f_within 10 600 (bb_cwnd s) \<and> f_nonneg (bb_bw s) \<and>
     f_within 1 3 (bb_cwndGain s) \<and> bb_startupCWNDGain s = Fin 2 \<and>
     bb_initCWND s = Fin 10 \<and> bb_mss s = 1460 \<and>
     f_within (1 / 2) 1 (bb_alpha s) \<and> f_within (1 / 2) 1 (bb_beta s) \<and>
     bb_bwFilterIdx s < length (bb_bwFilter s) \<and> bb_minRTTIdx s < length (bb_minRTTFilter s)"

lemma rnd_half_one: "1 / 2 \<le> x \<Longrightarrow> x \<le> 1 \<Longrightarrow> f_within (1 / 2) 1 (rnd x)"
  using rnd_exp [of "- 1" 0 x] by (simp add: f_exp_def power_int_def)

lemma shrunk_window:
  assumes w: "f_within 10 600 w" and y: "f_within (1 / 2) 1 y"
  shows "f_within 5 600 (f_mul w y)"
proof -
  obtain a b where ab: "w = Fin a" "10 \<le> a" "a \<le> 600" "y = Fin b" "1 / 2 \<le> b" "b \<le> 1"
    using assms by (auto simp: f_within_def)
  have "5 \<le> a * b" "a * b \<le> 600"
    using ab mult_mono [of 10 a "1 / 2" b] mult_mono [of a 600 b 1] by simp_all
  then have "f_within 5 600 (rnd (a * b))"
    by (intro rnd_within [OF rnd_numeral rnd_numeral]) simp_all
  then show ?thesis
    by (simp add: ab)
qed

lemma land_one_inv [simp]: "bbr_inv (land_one s) = bbr_inv s"
  by (simp add: land_one_def bbr_inv_def)

lemma land_one_mode [simp]: "bb_mode (land_one s) = bb_mode s"
  by (simp add: land_one_def)

lemma inv_count_lost: "bbr_inv s \<Longrightarrow> bbr_inv (count_lost ecn s)"
  and count_lost_simps [simp]: "bb_mode (count_lost ecn s) = bb_mode s" "bb_cwnd (count_lost ecn s) = bb_cwnd s"
  by (simp_all add: count_lost_def land_one_def bbr_inv_def Let_def)

lemma lost_cwnd_within:
  assumes "bbr_inv s" and shrunk: "\<And>y. f_within (1 / 2) 1 y \<Longrightarrow> f_within 5 hi (f_mul (bb_cwnd s) y)"
    and "10 \<le> hi"
  shows "f_within 10 hi (at_least_init s (lost_cwnd ecn s))"
proof -
  have s: "bb_initCWND s = Fin 10" "f_within (1 / 2) 1 (bb_alpha s)" "f_within (1 / 2) 1 (bb_beta s)"
    using assms(1) by (simp_all add: bbr_inv_def)
  have up: "f_within 10 hi (at_least_init s w)" if "f_within 5 hi w" for w
    using that s(1) assms(3) by (auto simp: at_least_init_def f_within_def)
  have "f_within 5 hi (at_least_init s (f_mul (bb_cwnd s) (bb_alpha s)))"
    by (rule f_within_mono [OF up [OF shrunk [OF s(2)]]]) simp_all
  then have "f_within 5 hi (lost_cwnd ecn s)"
    by (simp add: lost_cwnd_def shrunk s rnd_half_one)
  then show ?thesis
    by (rule up)
qed

lemma inv_Lost:
  assumes "bbr_inv s"
  shows "bbr_inv (bbr_OnPacketLost ecn s)"
proof -
  let ?s = "count_lost ecn s"
  have s: "bbr_inv ?s"
    using assms by (rule inv_count_lost)
  then have "f_within 10 600 (at_least_init ?s (lost_cwnd ecn ?s))"
    by (intro lost_cwnd_within shrunk_window) (simp_all add: bbr_inv_def)
  with s show ?thesis
    by (simp add: bbr_inv_def bbr_OnPacketLost_def Let_def)
qed

lemma note_minRTT_inv [simp]: "bbr_inv (note_minRTT rtt s) = bbr_inv s"
  by (simp add: note_minRTT_def Let_def bbr_inv_def)

lemma note_minRTT_mode [simp]: "bb_mode (note_minRTT rtt s) = bb_mode s"
  by (simp add: note_minRTT_def Let_def)

lemma idx_wrap [simp]: "i < n \<Longrightarrow> Suc i mod n < n"
  by (meson mod_less_divisor order_le_less_trans zero_le)

lemma inv_counts [simp]: "bbr_inv (s\<lparr>bb_packetsAcked := n, bb_bytesAcked := m\<rparr>) = bbr_inv s"
  by (simp add: bbr_inv_def)

lemma inv_updateMinRTT:
  "bbr_inv s \<Longrightarrow> \<exists>s'. updateMinRTTFilter s = Return s' \<and> bbr_inv s' \<and> bb_mode s' = bb_mode s"
  by (auto simp: bbr_inv_def updateMinRTTFilter_def Let_def)

lemma inv_measure:
  "bbr_inv s \<Longrightarrow> \<exists>s'. bbr_measure sz rtt s = Return s' \<and> bbr_inv s' \<and> bb_mode s' = bb_mode s"
  by (auto simp: bbr_inv_def bbr_measure_def updateBWFilter_def Let_def dest: f_nonneg_less)

lemma bbr_inv_advance:
  "bbr_inv s \<Longrightarrow> bb_mode s = ModeStartup \<Longrightarrow> bbr_inv (advanceMode now s)"
  by (auto simp: bbr_inv_def advanceMode_def Let_def)

lemma inv_pacing [simp]: "bbr_inv (updatePacingRate s) = bbr_inv s"
  by (auto simp: bbr_inv_def updatePacingRate_def Let_def)

lemma pacing_mode [simp]: "bb_mode (updatePacingRate s) = bb_mode s"
  by (simp add: updatePacingRate_def Let_def)

lemma bdp_nonneg: "bbr_inv s \<Longrightarrow> f_nonneg (bdpBytes s)"
proof -
  assume s: "bbr_inv s"
  have "f_nonneg (bdp s)"
  proof (cases "sint (bb_minRTT s) \<le> 0")
    case False
    then obtain x where "0 < x" "Seconds (bb_minRTT s) = Fin x"
      using Seconds_pos by force
    with s False show ?thesis
      by (simp add: bdp_def bbr_inv_def f_nonneg_mul)
  qed (use s in \<open>simp add: bdp_def bbr_inv_def\<close>)
  moreover have "f_of_int 1460 = Fin 1460"
    by (simp add: f_of_int_small)
  ultimately show ?thesis
    using s by (simp add: bdpBytes_def bbr_inv_def f_nonneg_mul)
qed

lemma wanted_nonneg:
  assumes "bbr_inv s"
  shows "f_nonneg (wanted_cwnd s)"
proof -
  obtain g where g: "bb_cwndGain s = Fin g" "1 \<le> g"
    using assms by (auto simp: bbr_inv_def f_within_def)
  have "f_nonneg (bb_cwnd s)"
    using assms by (auto simp: bbr_inv_def intro: f_within_nonneg)
  then show ?thesis
    using bdp_nonneg [OF assms] g(2)
    by (auto simp: wanted_cwnd_def g(1) intro!: f_nonneg_min f_nonneg_add f_nonneg_mul split: bbr_mode.split)
qed

lemma inv_updateCWND:
  assumes "bbr_inv s"
  shows "bbr_inv (updateCWND s)" and "bb_mode s = ModeProbeRTT \<Longrightarrow> bb_cwnd (updateCWND s) = Fin 10"
proof -
  show "bb_cwnd (updateCWND s) = Fin 10" if "bb_mode s = ModeProbeRTT"
    using assms that by (auto simp: updateCWND_def bbr_inv_def f_within_def f_min_def)
  then have "f_within 10 600 (bb_cwnd (updateCWND s))"
    using wanted_nonneg [OF assms] assms
    by (cases "wanted_cwnd s") (auto simp: updateCWND_def bbr_inv_def Let_def)
  then show "bbr_inv (updateCWND s)"
    using assms by (simp add: bbr_inv_def updateCWND_def Let_def)
qed

lemma updateCWND_mode [simp]: "bb_mode (updateCWND s) = bb_mode s"
  by (simp add: updateCWND_def Let_def)

lemma inv_Acked:
  assumes "bbr_inv s"
  shows "\<exists>s'. bbr_OnPacketAcked now sz rtt s = Return s' \<and> bbr_inv s' \<and>
    (bb_mode s = ModeProbeRTT \<longrightarrow> bb_mode s' = ModeProbeRTT \<and> bb_cwnd s' = Fin 10)"
proof -
  let ?s1 = "land_one (s\<lparr>bb_packetsAcked := bb_packetsAcked s + 1, bb_bytesAcked := bb_bytesAcked s + word_of_int sz\<rparr>)"
  have s1: "bbr_inv ?s1" "bb_mode ?s1 = bb_mode s"
    using assms by simp_all
  obtain s2 where s2: "updateMinRTTFilter (note_minRTT rtt ?s1) = Return s2" "bbr_inv s2" "bb_mode s2 = bb_mode s"
    using inv_updateMinRTT [of "note_minRTT rtt ?s1"] s1 by auto
  obtain s3 where s3: "bbr_measure sz rtt s2 = Return s3" "bbr_inv s3" "bb_mode s3 = bb_mode s"
    using inv_measure [OF s2(2)] s2(3) by fastforce
  let ?s4 = "if bb_mode s3 = ModeStartup then advanceMode now s3 else s3"
  have "bbr_inv (updatePacingRate ?s4)" "bb_mode s = ModeProbeRTT \<longrightarrow> bb_mode ?s4 = ModeProbeRTT"
    using s3(2,3) bbr_inv_advance [OF s3(2)] by simp_all
  then show ?thesis
    using inv_updateCWND [of "updatePacingRate ?s4"]
    by (simp add: bbr_OnPacketAcked_def Let_def s2(1) s3(1))
qed

lemma inv_RTTUpdate:
  assumes "bbr_inv s"
  shows "\<exists>s'. bbr_OnRTTUpdate now rtt s = Return s' \<and> bbr_inv s' \<and> bb_cwnd s' = bb_cwnd s \<and>
    (bb_mode s = ModeProbeRTT \<longrightarrow> bb_mode s' = ModeProbeRTT)"
proof -
  obtain s2 where s2: "updateMinRTTFilter (note_minRTT rtt s) = Return s2" "bbr_inv s2" "bb_mode s2 = bb_mode s"
    using inv_updateMinRTT [of "note_minRTT rtt s"] assms by auto
  moreover have "bb_cwnd s2 = bb_cwnd s"
    using s2(1) by (auto simp: updateMinRTTFilter_def note_minRTT_def Let_def split: if_splits)
  ultimately show ?thesis
    by (auto simp: bbr_OnRTTUpdate_def bbr_inv_def)
qed

lemma inv_do: "bbr_inv s \<Longrightarrow> \<exists>s'. bbr_do now call s = Return s' \<and> bbr_inv s'"
proof (cases call)
  case (PacketAcked sz rtt)
  then show "bbr_inv s \<Longrightarrow> ?thesis" using inv_Acked by fastforce
next
  case (RTTUpdate rtt)
  then show "bbr_inv s \<Longrightarrow> ?thesis" using inv_RTTUpdate by fastforce
qed (simp_all add: inv_Lost, simp_all add: bbr_inv_def bbr_OnPacketSent_def bbr_Reset_def)

lemma bbr_inv_run: "bbr_inv s \<Longrightarrow> \<exists>s'. bbr_run calls s = Return s' \<and> bbr_inv s'"
proof (induction calls arbitrary: s)
  case (Cons x calls)
  obtain now call where x: "x = (now, call)"
    by (cases x)
  from inv_do [OF Cons.prems, of now call] Cons.IH show ?case
    by (auto simp: x)
qed simp

lemma inv_Create: "\<exists>s. factory_Create GetBBRFactory now algorithm None = Return s \<and> bbr_inv s \<and> bb_mode s = ModeStartup"
  by (simp add: factory_Create_def GetBBRFactory_def factory_Register_def newBBR_def NewBBR_def NewBBRv2_def
      NewBBRv3_def newBBRState_def DefaultBBRConfig_def config_or_default_def bbr_inv_def rnd_half_one
      BBROriginal_def BBRv2_def BBRv3_def BBRPlus_def BBRECN_def BBRAdaptive_def BBRProbeRTTAlgo_def)

section \<open>Probing for the round trip\<close>

lemma probe_rtt_lost:
  assumes "bbr_inv s" "bb_cwnd s = Fin 10"
  shows "bb_cwnd (bbr_OnPacketLost ecn s) = Fin 10"
proof -
  have "f_within 5 10 (f_mul (Fin 10) y)" if y: "f_within (1 / 2) 1 y" for y
  proof -
    obtain b where "y = Fin b" "1 / 2 \<le> b" "b \<le> 1"
      using y by (auto simp: f_within_def)
    then show ?thesis
      by (auto intro!: rnd_within [OF rnd_numeral rnd_numeral])
  qed
  then have "f_within 10 10 (at_least_init (count_lost ecn s) (lost_cwnd ecn (count_lost ecn s)))"
    using assms(2) by (intro lost_cwnd_within inv_count_lost assms(1)) simp_all
  then show ?thesis
    by (auto simp: bbr_OnPacketLost_def Let_def f_within_def)
qed

lemma probe_rtt_do:
  assumes "bbr_inv s" "bb_mode s = ModeProbeRTT" "call \<noteq> BbrReset"
  shows "\<exists>s'. bbr_do now call s = Return s' \<and> bbr_inv s' \<and> bb_mode s' = ModeProbeRTT \<and>
    (bb_cwnd s = Fin 10 \<or> (\<exists>sz rtt. call = PacketAcked sz rtt) \<longrightarrow> bb_cwnd s' = Fin 10)"
proof (cases call)
  case (PacketSent sz)
  then show ?thesis
    using assms by (simp add: bbr_OnPacketSent_def bbr_inv_def)
next
  case (PacketLost ecn)
  then show ?thesis
    using assms inv_Lost [OF assms(1)] probe_rtt_lost [OF assms(1)]
    by (simp add: bbr_OnPacketLost_def Let_def)
next
  case (PacketAcked sz rtt)
  then show ?thesis
    using inv_Acked [OF assms(1), of now sz rtt] assms(2) by auto
next
  case (RTTUpdate rtt)
  then show ?thesis
    using inv_RTTUpdate [OF assms(1), of now rtt] assms(2) by auto
qed (use assms in simp)

lemma probe_rtt_run:
  assumes "bbr_inv s" "bb_mode s = ModeProbeRTT" "list_all (\<lambda>(now, call). call \<noteq> BbrReset) calls"
  shows "\<exists>s'. bbr_run calls s = Return s' \<and> bb_mode s' = ModeProbeRTT \<and>
    (bb_cwnd s = Fin 10 \<or> (\<exists>now sz rtt. (now, PacketAcked sz rtt) \<in> set calls) \<longrightarrow> bb_cwnd s' = Fin 10)"
  using assms
proof (induction calls arbitrary: s)
  case (Cons x calls)
  obtain now call where x: "x = (now, call)"
    by (cases x)
  have "call \<noteq> BbrReset"
    using Cons.prems(3) by (simp add: x)
  from probe_rtt_do [OF Cons.prems(1,2) this, of now]
  obtain s1 where s1: "bbr_do now call s = Return s1" "bbr_inv s1" "bb_mode s1 = ModeProbeRTT"
    "bb_cwnd s = Fin 10 \<or> (\<exists>sz rtt. call = PacketAcked sz rtt) \<longrightarrow> bb_cwnd s1 = Fin 10"
    by blast
  have "list_all (\<lambda>(now, call). call \<noteq> BbrReset) calls"
    using Cons.prems(3) by simp
  from Cons.IH [OF s1(2,3) this] s1(1,4) show ?case
    by (auto simp: x)
qed simp

text \<open>What a controller of any variant with the default settings starts from, and its first round-trip update.\<close>

definition fresh :: "bbr \<Rightarrow> bool" where
  "fresh s \<longleftrightarrow>
     bb_cwnd s = Fin 10 \<and> bb_minRTT s = Hour \<and> bb_minRTTFilter s = replicate 10 Hour \<and> bb_minRTTIdx s = 0 \<and>
     bb_probeRTTDoneAt s = None"

lemma Create_default:
  "\<exists>s. factory_Create GetBBRFactory now algorithm (Some (DefaultBBRConfig algorithm)) = Return s \<and> bbr_inv s \<and> fresh s"
  by (simp add: factory_Create_def GetBBRFactory_def factory_Register_def newBBR_def NewBBR_def NewBBRv2_def
      NewBBRv3_def newBBRState_def DefaultBBRConfig_def config_or_default_def bbr_inv_def fresh_def rnd_half_one
      BBROriginal_def BBRv2_def BBRv3_def BBRPlus_def BBRECN_def BBRAdaptive_def BBRProbeRTTAlgo_def)

lemma first_tick:
  assumes "bbr_inv s" "fresh s"
  shows "\<exists>s1. bbr_OnRTTUpdate now Second s = Return s1 \<and> bbr_inv s1 \<and> bb_mode s1 = ModeProbeRTT \<and> bb_cwnd s1 = Fin 10"
proof -
  have ten: "replicate 10 Hour = [Hour, Hour, Hour, Hour, Hour, Hour, Hour, Hour, Hour, Hour]"
    by (simp add: eval_nat_numeral)
  obtain s1 where "bbr_OnRTTUpdate now Second s = Return s1" "bb_mode s1 = ModeProbeRTT"
    using assms(2)
    by (simp add: fresh_def bbr_OnRTTUpdate_def note_minRTT_def updateMinRTTFilter_def filter_min_def time_Since_def ten Let_def)
  with inv_RTTUpdate [OF assms(1), of now Second] assms(2) show ?thesis
    by (auto simp: fresh_def)
qed

section \<open>Properties\<close>

text \<open>
  C13: a controller of any variant with its default configuration, whatever is sent,
  acknowledged with any size and round trip, lost, measured or reset, never panics, keeps a
  window between 10 and 600, and never enters the mode that probes for bandwidth: the mode is
  advanced in start-up only.
\<close>

theorem bbr_never_probes_bandwidth:
  "\<exists>s s'. factory_Create GetBBRFactory now algorithm None = Return s \<and> bbr_run calls s = Return s' \<and>
     bb_mode s' \<noteq> ModeProbeBW \<and> f_within 10 600 (bb_cwnd s')"
  using inv_Create [of now algorithm] bbr_inv_run [of _ calls] unfolding bbr_inv_def by metis

text \<open>
  Once such a controller probes for the round trip (the first round-trip update with a
  positive minimum does it, since the end of the previous probe is never recorded), it does so
  until it is reset: from the next acknowledgement on its window is the initial 10 packets.
\<close>

lemma bbr_probe_rtt_trap:
  assumes "factory_Create GetBBRFactory now algorithm None = Return s0"
    and "bbr_run before s0 = Return s" "bb_mode s = ModeProbeRTT"
    and "list_all (\<lambda>(now, call). call \<noteq> BbrReset) calls"
  shows "\<exists>s'. bbr_run calls s = Return s' \<and> bb_mode s' = ModeProbeRTT \<and>
    ((\<exists>now sz rtt. (now, PacketAcked sz rtt) \<in> set calls) \<longrightarrow> bb_cwnd s' = Fin 10)"
proof -
  have "bbr_inv s0"
    using assms(1) inv_Create [of now algorithm] by simp
  then have "bbr_inv s"
    using assms(2) bbr_inv_run [of s0 before] by simp
  then show ?thesis
    using probe_rtt_run [of s calls] assms(3,4) by blast
qed

end
