(* ===== verification/Address.thy ===== *)
theory Address
  imports Go_Strings Net
begin

text \<open>
  \<open>app/common/net/addr.go\<close> and \<open>app/common/net/conn.go\<close>: addresses as text and the counters of a
  connection. Of the library's package \<open>net\<close> the theory models \<open>IP.String\<close>, \<open>ParseIP\<close> for IPv4
  (the parser of IPv6 literals is the argument \<open>parse6\<close>), \<open>SplitHostPort\<close> and \<open>JoinHostPort\<close>.
\<close>

section \<open>Host and port\<close>

definition addr_error :: "string \<Rightarrow> 'a go" where
  "addr_error e = Fail (Error e)"

definition JoinHostPort :: "string \<Rightarrow> string \<Rightarrow> string" where
  "JoinHostPort host port =
     (if CHR '':'' \<in> set host then ''['' @ host @ '']:'' @ port else host @ CHR '':'' # port)"

definition SplitHostPort :: "string \<Rightarrow> (string \<times> string) go" where
  "SplitHostPort s =
     (if CHR '':'' \<notin> set s then addr_error ''missing port in address''
      else let port = after_last (CHR '':'') s; i = length s - length port - 1
      in if hd s = CHR ''['' then
           if CHR '']'' \<notin> set s then addr_error ''missing ']' in address''
           else let e = length (takeWhile (\<lambda>c. c \<noteq> CHR '']'') s)
             in if e + 1 = length s then addr_error ''missing port in address''
                else if e + 1 \<noteq> i then
                  addr_error (if s ! (e + 1) = CHR '':'' then ''too many colons in address'' else ''missing port in address'')
                else if CHR ''['' \<in> set (drop 1 s) then addr_error ''unexpected '[' in address''
                else if CHR '']'' \<in> set (drop (e + 1) s) then addr_error ''unexpected ']' in address''
                else Return (drop 1 (take e s), port)
         else if CHR '':'' \<in> set (take i s) then addr_error ''too many colons in address''
         else if CHR ''['' \<in> set s then addr_error ''unexpected '[' in address''
         else if CHR '']'' \<in> set s then addr_error ''unexpected ']' in address''
         else Return (take i s, port))"

section \<open>IP addresses as text\<close>

fun join_with :: "string \<Rightarrow> string list \<Rightarrow> string" where
  "join_with sep [] = []"
| "join_with sep [x] = x"
| "join_with sep (x # y # ys) = x @ sep @ join_with sep (y # ys)"

definition ip4_String :: "ip \<Rightarrow> string" where
  "ip4_String a = join_with ''.'' (map (\<lambda>b. decimal (unat b)) a)"

text \<open>The sixteen-bit groups of an address, and the longest run of at least two zero groups.\<close>

fun groups :: "bytes \<Rightarrow> nat list" where
  "groups (a # b # bs) = (unat a * 256 + unat b) # groups bs"
| "groups bs = []"

definition zero_run :: "nat list \<Rightarrow> nat \<times> nat" where
  "zero_run gs =
     fold (\<lambda>i (zs, ze). let l = length (takeWhile (\<lambda>g. g = 0) (drop i gs))
                       in if 2 \<le> l \<and> ze - zs < l then (i, i + l) else (zs, ze)) [0..<length gs] (255, 255)"

definition ip6_String :: "ip \<Rightarrow> string" where
  "ip6_String a =
     (let gs = groups a; hex = (\<lambda>gs. join_with '':'' (map hexadecimal gs))
      in case zero_run gs of (zs, ze) \<Rightarrow>
           if zs < length gs then hex (take zs gs) @ ''::'' @ hex (drop ze gs) else hex gs)"

definition IP_String :: "ip \<Rightarrow> string" where
  "IP_String a =
     (if a = [] then ''<nil>''
      else if length a \<noteq> 4 \<and> length a \<noteq> 16 then CHR ''?'' # hex_bytes a
      else case To4 a of Some p4 \<Rightarrow> ip4_String p4 | None \<Rightarrow> ip6_String a)"

text \<open>A field of a dotted address: one to three digits, no leading zero, at most 255.\<close>

definition ip4_field :: "string \<Rightarrow> byte option" where
  "ip4_field s =
     (if s \<noteq> [] \<and> list_all is_digit s \<and> (hd s = CHR ''0'' \<longrightarrow> length s = 1) \<and> digits_value s \<le> 255
      then Some (word_of_nat (digits_value s)) else None)"

definition parse4 :: "string \<Rightarrow> ip option" where
  "parse4 s =
     (case map ip4_field (split_on (CHR ''.'') s) of
        [Some a, Some b, Some c, Some d] \<Rightarrow> Some (v4prefix @ [a, b, c, d])
      | _ \<Rightarrow> None)"

definition ParseIP :: "(string \<Rightarrow> ip option) \<Rightarrow> string \<Rightarrow> ip option" where
  "ParseIP parse6 s =
     (case dropWhile (\<lambda>c. c \<noteq> CHR ''.'' \<and> c \<noteq> CHR '':'') s of
        [] \<Rightarrow> None
      | c # _ \<Rightarrow> if c = CHR ''.'' then parse4 s else parse6 s)"

section \<open>Addresses\<close>

datatype address_family = AddressFamilyIPv4 | AddressFamilyIPv6 | AddressFamilyDomain

record address =
  ad_Family :: address_family
  ad_IP :: ip
  ad_Domain :: string
  ad_Port :: u16

definition addr_String :: "address \<Rightarrow> string" where
  "addr_String a =
     (case ad_Family a of
        AddressFamilyDomain \<Rightarrow> JoinHostPort (ad_Domain a) (Itoa (int (unat (ad_Port a))))
      | _ \<Rightarrow> JoinHostPort (IP_String (ad_IP a)) (Itoa (int (unat (ad_Port a)))))"

definition IPAddress :: "ip \<Rightarrow> u16 \<Rightarrow> address" where
  "IPAddress a port =
     \<lparr>ad_Family = (if length a = 16 then AddressFamilyIPv6 else AddressFamilyIPv4), ad_IP = a, ad_Domain = [], ad_Port = port\<rparr>"

definition DomainAddress :: "string \<Rightarrow> u16 \<Rightarrow> address" where
  "DomainAddress domain port =
     \<lparr>ad_Family = AddressFamilyDomain, ad_IP = [], ad_Domain = domain, ad_Port = port\<rparr>"

text \<open>The port is converted to sixteen bits without a check of its range.\<close>

definition ParseAddress :: "(string \<Rightarrow> ip option) \<Rightarrow> string \<Rightarrow> address go" where
  "ParseAddress parse6 s =
     go_bind (SplitHostPort s) (\<lambda>(host, portStr).
     go_bind (Atoi portStr) (\<lambda>port.
     case ParseIP parse6 host of
       Some a \<Rightarrow> Return (IPAddress a (word_of_int port))
     | None \<Rightarrow> Return (DomainAddress host (word_of_int port))))"

record destination =
  de_Address :: address
  de_Network :: string

definition dest_String :: "destination \<Rightarrow> string" where
  "dest_String d = addr_String (de_Address d)"

definition Address_Network :: "address \<Rightarrow> string" where "Address_Network a = ''dccp''"
definition TCPDestination_Network :: "address \<Rightarrow> string" where "TCPDestination_Network a = ''tcp''"
definition UDPDestination_Network :: "address \<Rightarrow> string" where "UDPDestination_Network a = ''udp''"
definition DCCPDestination_Network :: "address \<Rightarrow> string" where "DCCPDestination_Network a = ''dccp''"

section \<open>Counting connections\<close>

record stat_counter =
  sc_ReadBytes :: u64
  sc_WrittenBytes :: u64

definition AddRead :: "u64 \<Rightarrow> stat_counter \<Rightarrow> stat_counter" where
  "AddRead n s = s\<lparr>sc_ReadBytes := sc_ReadBytes s + n\<rparr>"

definition AddWritten :: "u64 \<Rightarrow> stat_counter \<Rightarrow> stat_counter" where
  "AddWritten n s = s\<lparr>sc_WrittenBytes := sc_WrittenBytes s + n\<rparr>"

text \<open>
  The wrapped connection's \<open>Read\<close> and \<open>Write\<close> return how many bytes they moved, and an error;
  the wrapper counts the bytes whether or not there is one.
\<close>

definition stat_Read :: "('c \<Rightarrow> nat \<Rightarrow> 'c \<times> bytes \<times> error option) \<Rightarrow> nat \<Rightarrow> 'c \<times> stat_counter \<Rightarrow>
    ('c \<times> stat_counter) \<times> bytes \<times> error option" where
  "stat_Read rd n = (\<lambda>(c, s). case rd c n of (c', bs, e) \<Rightarrow> ((c', AddRead (word_of_nat (length bs)) s), bs, e))"

definition stat_Write :: "('c \<Rightarrow> bytes \<Rightarrow> 'c \<times> nat \<times> error option) \<Rightarrow> bytes \<Rightarrow> 'c \<times> stat_counter \<Rightarrow>
    ('c \<times> stat_counter) \<times> nat \<times> error option" where
  "stat_Write wr b = (\<lambda>(c, s). case wr c b of (c', n, e) \<Rightarrow> ((c', AddWritten (word_of_nat n) s), n, e))"

section \<open>Lemmas on text\<close>

lemma colon_not_digit [simp]: "\<not> is_digit (CHR '':'')" "\<not> is_digit (CHR ''.'')"
    "\<not> is_digit (CHR ''['')" "\<not> is_digit (CHR '']'')"
  by (simp_all add: is_digit_def)

lemma colon_not_hex [simp]: "\<not> is_hex (CHR '':'')" "\<not> is_hex (CHR ''['')" "\<not> is_hex (CHR '']'')"
  by (simp_all add: is_hex_def)

text \<open>A host without brackets comes back from what \<open>JoinHostPort\<close> makes of it.\<close>

lemma SplitHostPort_Join:
  assumes "CHR ''['' \<notin> set host" "CHR '']'' \<notin> set host"
    and "CHR '':'' \<notin> set port" "CHR ''['' \<notin> set port" "CHR '']'' \<notin> set port"
  shows "SplitHostPort (JoinHostPort host port) = Return (host, port)"
proof (cases "CHR '':'' \<in> set host")
  case True
  have e: "takeWhile (\<lambda>c. c \<noteq> CHR '']'') (host @ CHR '']'' # CHR '':'' # port) = host"
    using assms(2) by (subst takeWhile_append2) auto
  have a: "after_last (CHR '':'') (CHR ''['' # host @ CHR '']'' # CHR '':'' # port) = port"
    using after_last_append [OF assms(3), of "CHR ''['' # host @ [CHR '']'']"] by simp
  show ?thesis
    using assms True by (simp add: JoinHostPort_def SplitHostPort_def Let_def e a)
next
  case False
  then have "hd (host @ CHR '':'' # port) \<noteq> CHR ''[''"
    using assms(1) by (cases host) auto
  with False assms show ?thesis
    by (simp add: JoinHostPort_def SplitHostPort_def Let_def)
qed

text \<open>What the dialler makes of a host with a colon is refused.\<close>

lemma SplitHostPort_colons:
  assumes "CHR '':'' \<in> set host" "hd host \<noteq> CHR ''[''" "CHR '':'' \<notin> set port"
  shows "SplitHostPort (host @ CHR '':'' # port) = Fail (Error ''too many colons in address'')"
proof -
  have "hd (host @ CHR '':'' # port) \<noteq> CHR ''[''"
    using assms(1,2) by (cases host) auto
  with assms show ?thesis
    by (simp add: SplitHostPort_def Let_def addr_error_def)
qed

lemma set_join_with: "set (join_with sep xs) \<subseteq> set sep \<union> \<Union> (set ` set xs)"
  by (induction sep xs rule: join_with.induct) auto

lemma split_join:
  "xs \<noteq> [] \<Longrightarrow> list_all (\<lambda>x. c \<notin> set x) xs \<Longrightarrow> split_on c (join_with [c] xs) = xs"
  by (induction "[c]" xs rule: join_with.induct) (auto simp: split_on_none split_on_append)

lemma set_ip4_String: "c \<in> set (ip4_String a) \<Longrightarrow> is_digit c \<or> c = CHR ''.''"
  using set_join_with [of "''.''" "map (\<lambda>b. decimal (unat b)) a"]
  by (auto simp: ip4_String_def dest!: subsetD in_decimal)

lemma ip4_String_chars [simp]:
  "CHR '':'' \<notin> set (ip4_String a)" "CHR ''['' \<notin> set (ip4_String a)" "CHR '']'' \<notin> set (ip4_String a)"
  using set_ip4_String by fastforce+

lemma decimal_hd_zero: "hd (decimal n) = CHR ''0'' \<Longrightarrow> length (decimal n) = 1"
proof (induction n rule: decimal.induct)
  case (1 n)
  show ?case
  proof (cases "n < 10")
    case False
    then have d: "decimal n = decimal (n div 10) @ [char_of (48 + n mod 10)]"
      by (simp add: decimal.simps [of n])
    with 1 False have "length (decimal (n div 10)) = 1" "hd (decimal (n div 10)) = CHR ''0''"
      by simp_all
    then have "digits_value (decimal (n div 10)) = 0"
      by (cases "decimal (n div 10)") (simp_all add: digits_value_def)
    with False show ?thesis
      by simp
  qed (simp add: decimal.simps [of n])
qed

lemma ip4_field_decimal [simp]: "ip4_field (decimal (unat b)) = Some b"
proof -
  have "unat b \<le> 255"
    using unat_bound [of b] by simp
  then show ?thesis
    using decimal_digits [of "unat b"] decimal_hd_zero [of "unat b"] by (simp add: ip4_field_def)
qed

lemma parse4_String: "length a = 4 \<Longrightarrow> parse4 (ip4_String a) = Some (v4prefix @ a)"
proof -
  assume "length a = 4"
  then obtain w x y z where a: "a = [w, x, y, z]"
    by (auto simp: numeral_eq_Suc length_Suc_conv)
  have "split_on (CHR ''.'') (ip4_String a) = map (\<lambda>b. decimal (unat b)) a"
    unfolding ip4_String_def by (rule split_join) (auto simp: a not_in_decimal)
  then show ?thesis
    by (simp add: parse4_def a)
qed

lemma ParseIP_ip4: "length a = 4 \<Longrightarrow> ParseIP parse6 (ip4_String a) = Some (v4prefix @ a)"
proof -
  assume len: "length a = 4"
  let ?s = "ip4_String a" and ?P = "\<lambda>c. c \<noteq> CHR ''.'' \<and> c \<noteq> CHR '':''"
  have "CHR ''.'' \<in> set ?s"
    using len by (auto simp: numeral_eq_Suc length_Suc_conv ip4_String_def)
  then have ne: "dropWhile ?P ?s \<noteq> []"
    by (auto simp: dropWhile_eq_Nil_conv)
  then obtain c r where cr: "dropWhile ?P ?s = c # r"
    by (cases "dropWhile ?P ?s") auto
  then have "\<not> ?P c" "c \<in> set ?s"
    using hd_dropWhile [OF ne] set_dropWhileD [of c ?P ?s] by auto
  then have "c = CHR ''.''"
    by auto
  then show ?thesis
    by (simp add: ParseIP_def cr parse4_String [OF len])
qed

subsection \<open>IPv6 text\<close>

lemma length_groups [simp]: "length (groups bs) = length bs div 2"
  by (induction bs rule: groups.induct) auto

lemma hex_join_chars: "c \<in> set (join_with '':'' (map hexadecimal gs)) \<Longrightarrow> is_hex c \<or> c = CHR '':''"
  using set_join_with [of "'':''" "map hexadecimal gs"] by (auto dest!: subsetD in_hexadecimal)

lemma ip6_String_chars: "c \<in> set (ip6_String a) \<Longrightarrow> is_hex c \<or> c = CHR '':''"
  by (auto simp: ip6_String_def Let_def split: prod.splits if_splits dest: hex_join_chars)

lemma ip6_String_no [simp]:
  "CHR ''['' \<notin> set (ip6_String a)" "CHR '']'' \<notin> set (ip6_String a)" "CHR ''.'' \<notin> set (ip6_String a)"
  using ip6_String_chars by (fastforce simp: is_hex_def)+

lemma ip6_String_colon:
  assumes "length a = 16"
  shows "CHR '':'' \<in> set (ip6_String a)"
proof -
  have "length (groups a) = 8"
    using assms by simp
  then have "2 \<le> length (groups a)"
    by simp
  then obtain g h gs where "groups a = g # h # gs"
    by (cases "groups a" rule: remdups_adj.cases) auto
  then have "CHR '':'' \<in> set (join_with '':'' (map hexadecimal (groups a)))"
    by simp
  then show ?thesis
    by (cases "zero_run (groups a)") (simp add: ip6_String_def Let_def)
qed

lemma ParseIP_ip6:
  assumes "length a = 16"
  shows "ParseIP parse6 (ip6_String a) = parse6 (ip6_String a)"
proof -
  let ?s = "ip6_String a" and ?P = "\<lambda>c. c \<noteq> CHR ''.'' \<and> c \<noteq> CHR '':''"
  have ne: "dropWhile ?P ?s \<noteq> []"
    using ip6_String_colon [OF assms] by (auto simp: dropWhile_eq_Nil_conv)
  then obtain c r where cr: "dropWhile ?P ?s = c # r"
    by (cases "dropWhile ?P ?s") auto
  then have "\<not> ?P c" "c \<in> set ?s"
    using hd_dropWhile [OF ne] set_dropWhileD [of c ?P ?s] by auto
  then have "c = CHR '':''"
    using ip6_String_no(3) [of a] by auto
  then show ?thesis
    by (simp add: ParseIP_def cr)
qed

text \<open>An address is read back from its text when its host is; the port is never lost.\<close>

lemma ParseAddress_Join:
  assumes "CHR ''['' \<notin> set host" "CHR '']'' \<notin> set host"
  shows "ParseAddress parse6 (JoinHostPort host (Itoa (int (unat port)))) =
    Return (case ParseIP parse6 host of None \<Rightarrow> DomainAddress host port | Some a \<Rightarrow> IPAddress a port)"
proof -
  have "int (unat port) < 2 ^ 63" "word_of_int (int (unat port)) = port"
    using uint_bounded [of port] by simp_all
  then show ?thesis
    using assms by (simp add: ParseAddress_def SplitHostPort_Join not_in_decimal Atoi_decimal Itoa_def split: option.split)
qed

lemma parse4_dot: "parse4 s = Some a \<Longrightarrow> CHR ''.'' \<in> set s"
  by (rule ccontr) (simp add: parse4_def split_on_none split: list.splits option.splits)

lemma ParseIP_no_colon: "CHR '':'' \<notin> set s \<Longrightarrow> ParseIP parse6 s = parse4 s"
proof -
  assume colon: "CHR '':'' \<notin> set s"
  let ?P = "\<lambda>c. c \<noteq> CHR ''.'' \<and> c \<noteq> CHR '':''"
  show ?thesis
  proof (cases "dropWhile ?P s")
    case Nil
    then have "CHR ''.'' \<notin> set s"
      by (auto simp: dropWhile_eq_Nil_conv)
    with parse4_dot [of s] show ?thesis
      by (cases "parse4 s") (auto simp: ParseIP_def Nil)
  next
    case (Cons c r)
    then have "\<not> ?P c" "c \<in> set s"
      using hd_dropWhile [of ?P s] set_dropWhileD [of c ?P s] by auto
    with colon have "c = CHR ''.''"
      by auto
    then show ?thesis
      by (simp add: ParseIP_def Cons)
  qed
qed

lemma IP_String_To4: "To4 a = Some p \<Longrightarrow> IP_String a = ip4_String p \<and> length p = 4"
  by (auto simp: To4_def IP_String_def split: if_splits)

text \<open>An IPv6 address comes back if the library's parser reads what its printer writes.\<close>

lemma address6_text:
  assumes "length a = 16" "To4 a = None" "parse6 (ip6_String a) = Some a"
  shows "ParseAddress parse6 (addr_String (IPAddress a port)) = Return (IPAddress a port)"
proof -
  have "IP_String a = ip6_String a"
    using assms(1,2) by (auto simp: IP_String_def)
  with assms show ?thesis
    using ParseAddress_Join [of "ip6_String a" parse6 port] ParseIP_ip6 [OF assms(1), of parse6]
    by (simp add: addr_String_def IPAddress_def)
qed

text \<open>
  C38: the text of an IPv4 address and of a domain address. An IPv4 address, of four bytes or in
  its sixteen-byte form, is read back in the sixteen-byte form: with the same text, but with the
  family of IPv6, since the family is taken from the length of what the library's parser returns.
  A domain without colons and brackets is read back as it was, unless it is itself the text of
  an IPv4 address, which is read as such. Ports are never lost.
\<close>

theorem address_text_roundtrip:
  assumes "To4 a = Some p" and "CHR '':'' \<notin> set d" "CHR ''['' \<notin> set d" "CHR '']'' \<notin> set d"
  shows "ParseAddress parse6 (addr_String (IPAddress a port)) = Return (IPAddress (v4prefix @ p) port) \<and>
    addr_String (IPAddress (v4prefix @ p) port) = addr_String (IPAddress a port) \<and>
    ad_Family (IPAddress (v4prefix @ p) port) = AddressFamilyIPv6 \<and>
    ParseAddress parse6 (addr_String (DomainAddress d port)) =
      Return (case parse4 d of None \<Rightarrow> DomainAddress d port | Some b \<Rightarrow> IPAddress b port)"
proof -
  have p: "IP_String a = ip4_String p" "length p = 4" "length (v4prefix @ p) = 16"
    using IP_String_To4 [OF assms(1)] by (simp_all add: v4prefix_def)
  then have "To4 (v4prefix @ p) = Some p"
    by (simp add: To4_def v4prefix_def)
  then have s: "IP_String (v4prefix @ p) = ip4_String p"
    using IP_String_To4 by blast
  have str: "addr_String (IPAddress b port) = JoinHostPort (IP_String b) (Itoa (int (unat port)))" for b
    by (simp add: addr_String_def IPAddress_def)
  show ?thesis
    using p s ParseAddress_Join [of "ip4_String p" parse6 port] ParseAddress_Join [OF assms(3,4), of parse6 port]
    by (simp add: str ParseIP_ip4 ParseIP_no_colon [OF assms(2)] addr_String_def [of "DomainAddress d port"])
      (simp add: DomainAddress_def IPAddress_def)
qed

theorem address_text_roundtrip_witness:
  "ParseAddress (\<lambda>_. None) (addr_String (IPAddress [127, 0, 0, 1] 80)) =
     Return (IPAddress (v4prefix @ [127, 0, 0, 1]) 80) \<and>
   ParseAddress (\<lambda>_. None) (addr_String (DomainAddress ''a.b'' 80)) = Return (DomainAddress ''a.b'' 80)"
proof -
  have "To4 [127, 0, 0, 1] = Some [127, 0, 0, 1]" "parse4 ''a.b'' = None"
    by (simp_all add: To4_def parse4_def split: option.split)
  with address_text_roundtrip [OF this(1), of "''a.b''" "\<lambda>_. None" 80] show ?thesis
    by simp
qed

text \<open>A port is cut to sixteen bits.\<close>

lemma ParseAddress_wraps: "ParseAddress parse6 ''host:65616'' = Return (DomainAddress ''host'' 80)"
proof -
  have "SplitHostPort ''host:65616'' = Return (''host'', ''65616'')"
    by (simp add: SplitHostPort_def after_last_def)
  moreover have "Atoi ''65616'' = Return 65616"
    by (simp add: Atoi_def is_digit_def digits_value_def)
  moreover have "ParseIP parse6 ''host'' = None"
    by (simp add: ParseIP_def)
  moreover have "(65616 :: u16) = 80"
    by (simp add: word_eq_iff_unsigned)
  ultimately show ?thesis
    by (simp add: ParseAddress_def DomainAddress_def)
qed

end
