(* ===== verification/Dualstack.thy ===== *)
theory Dualstack
  imports Address
begin

text \<open>
  \<open>app/common/net/dualstack.go\<close>: the pools of lines, probing them, and the dialler that prefers one
  address family or races all addresses. A dial of the library first splits the address it is given into a
  host and a port, and then connects to it; the second half is the argument \<open>connect\<close>. The clock
  and the random source are arguments. Latencies and times are nanoseconds.
\<close>

section \<open>Addresses and pools\<close>

datatype preference = PreferIPv4 | PreferIPv6 | PreferDual | IPv4Only | IPv6Only

text \<open>\<open>DualStackMode\<close>, the bind addresses and the intervals are not read by the dialler.\<close>

record dual_config =
  dc_Preference :: preference
  dc_Failover :: bool
  dc_ProbeTimeout :: int
  dc_Strategy :: string

definition DefaultDualStackConfig :: dual_config where
  "DefaultDualStackConfig =
     \<lparr>dc_Preference = PreferDual, dc_Failover = True, dc_ProbeTimeout = 2000000000, dc_Strategy = ''latency''\<rparr>"

text \<open>\<open>ip.To4() != nil\<close>.\<close>

definition is_ipv4 :: "ip \<Rightarrow> bool" where
  "is_ipv4 a \<longleftrightarrow> To4 a \<noteq> None"

record line_addr =
  la_IP :: ip
  la_Port :: int
  la_Weight :: int
  la_Latency :: int
  la_Alive :: bool
  la_Tag :: string

record line_stats =
  ls_SuccessCount :: int
  ls_FailureCount :: int
  ls_TotalLatency :: int
  ls_LastLatency :: int
  ls_MinLatency :: int
  ls_MaxLatency :: int
  ls_LastChecked :: int
  ls_ConsecutiveFails :: int

definition new_stats :: line_stats where
  "new_stats =
     \<lparr>ls_SuccessCount = 0, ls_FailureCount = 0, ls_TotalLatency = 0, ls_LastLatency = 0,
      ls_MinLatency = 3600000000000, ls_MaxLatency = 0, ls_LastChecked = 0, ls_ConsecutiveFails = 0\<rparr>"

record line_pool =
  pl_addresses :: "line_addr list"
  pl_stats :: "string \<rightharpoonup> line_stats"

record dialer =
  dl_config :: dual_config
  dl_ipv4 :: line_pool
  dl_ipv6 :: line_pool
  dl_cancelled :: bool

definition NewDualStackDialer :: "dual_config \<Rightarrow> dialer" where
  "NewDualStackDialer config =
     \<lparr>dl_config = config, dl_ipv4 = \<lparr>pl_addresses = [], pl_stats = Map.empty\<rparr>,
      dl_ipv6 = \<lparr>pl_addresses = [], pl_stats = Map.empty\<rparr>, dl_cancelled = False\<rparr>"

definition pool_add :: "line_addr \<Rightarrow> line_pool \<Rightarrow> line_pool" where
  "pool_add a p = p\<lparr>pl_addresses := pl_addresses p @ [a], pl_stats := (pl_stats p)(la_Tag a \<mapsto> new_stats)\<rparr>"

definition line_addr_of :: "ip \<Rightarrow> int \<Rightarrow> string \<Rightarrow> int \<Rightarrow> line_addr" where
  "line_addr_of a port tag weight =
     \<lparr>la_IP = a, la_Port = port, la_Weight = weight, la_Latency = 0, la_Alive = True, la_Tag = tag\<rparr>"

definition AddAddress :: "ip \<Rightarrow> int \<Rightarrow> string \<Rightarrow> int \<Rightarrow> dialer \<Rightarrow> dialer" where
  "AddAddress a port tag weight d =
     (let addr = line_addr_of a port tag weight
      in if is_ipv4 a then d\<lparr>dl_ipv4 := pool_add addr (dl_ipv4 d)\<rparr>
         else d\<lparr>dl_ipv6 := pool_add addr (dl_ipv6 d)\<rparr>)"

fun removeByTag :: "string \<Rightarrow> line_addr list \<Rightarrow> line_addr list" where
  "removeByTag tag [] = []"
| "removeByTag tag (a # as) = (if la_Tag a = tag then as else a # removeByTag tag as)"

definition pool_remove :: "string \<Rightarrow> line_pool \<Rightarrow> line_pool" where
  "pool_remove tag p =
     p\<lparr>pl_addresses := removeByTag tag (pl_addresses p), pl_stats := (pl_stats p)(tag := None)\<rparr>"

definition RemoveAddress :: "string \<Rightarrow> dialer \<Rightarrow> dialer" where
  "RemoveAddress tag d = d\<lparr>dl_ipv4 := pool_remove tag (dl_ipv4 d), dl_ipv6 := pool_remove tag (dl_ipv6 d)\<rparr>"

definition GetStats :: "string \<Rightarrow> dialer \<Rightarrow> line_stats option" where
  "GetStats tag d =
     (case pl_stats (dl_ipv4 d) tag of Some s \<Rightarrow> Some s | None \<Rightarrow> pl_stats (dl_ipv6 d) tag)"

definition dialer_Close :: "dialer \<Rightarrow> dialer" where
  "dialer_Close d = d\<lparr>dl_cancelled := True\<rparr>"

section \<open>Probing\<close>

text \<open>The first address with the tag is changed.\<close>

fun update_first :: "string \<Rightarrow> (line_addr \<Rightarrow> line_addr) \<Rightarrow> line_addr list \<Rightarrow> line_addr list" where
  "update_first tag f [] = []"
| "update_first tag f (a # as) = (if la_Tag a = tag then f a # as else a # update_first tag f as)"

definition probe_port :: "line_addr \<Rightarrow> int" where
  "probe_port a = (if la_Port a = 0 then 443 else la_Port a)"

text \<open>What a probe of an address that took \<open>latency\<close> and succeeded or not does to the pool.\<close>

definition probeAddr :: "int \<Rightarrow> int \<Rightarrow> bool \<Rightarrow> line_addr \<Rightarrow> line_pool \<Rightarrow> line_pool" where
  "probeAddr now latency ok a p =
     (let st0 = (case pl_stats p (la_Tag a) of None \<Rightarrow> new_stats | Some s \<Rightarrow> s);
          st = st0\<lparr>ls_LastChecked := now, ls_LastLatency := latency\<rparr>
      in if \<not> ok then
           let st1 = st\<lparr>ls_FailureCount := ls_FailureCount st + 1,
                        ls_ConsecutiveFails := ls_ConsecutiveFails st + 1\<rparr>
           in p\<lparr>pl_stats := (pl_stats p)(la_Tag a \<mapsto> st1),
                pl_addresses := (if ls_ConsecutiveFails st1 \<ge> 3
                                 then update_first (la_Tag a) (\<lambda>x. x\<lparr>la_Alive := False\<rparr>) (pl_addresses p)
                                 else pl_addresses p)\<rparr>
         else
           let st1 = st\<lparr>ls_SuccessCount := ls_SuccessCount st + 1, ls_ConsecutiveFails := 0,
                        ls_TotalLatency := ls_TotalLatency st + latency,
                        ls_MinLatency := (if latency < ls_MinLatency st then latency else ls_MinLatency st),
                        ls_MaxLatency := (if latency > ls_MaxLatency st then latency else ls_MaxLatency st)\<rparr>
           in p\<lparr>pl_stats := (pl_stats p)(la_Tag a \<mapsto> st1),
                pl_addresses := update_first (la_Tag a) (\<lambda>x. x\<lparr>la_Alive := True, la_Latency := latency\<rparr>)
                  (pl_addresses p)\<rparr>)"

text \<open>
  The addresses are probed one after the other, from a copy of the pools; \<open>dial\<close> gives the
  outcome of a probe: when it ends, how long it took, and whether it succeeded.
\<close>

definition probe_pool :: "(ip \<Rightarrow> int \<Rightarrow> int \<times> int \<times> bool) \<Rightarrow> line_pool \<Rightarrow> line_pool" where
  "probe_pool dial p =
     fold (\<lambda>a q. case dial (la_IP a) (probe_port a) of (now, latency, ok) \<Rightarrow> probeAddr now latency ok a q)
       (pl_addresses p) p"

definition ProbeAll :: "(ip \<Rightarrow> int \<Rightarrow> int \<times> int \<times> bool) \<Rightarrow> dialer \<Rightarrow> dialer" where
  "ProbeAll dial d = d\<lparr>dl_ipv4 := probe_pool dial (dl_ipv4 d), dl_ipv6 := probe_pool dial (dl_ipv6 d)\<rparr>"

section \<open>Dialling in order\<close>

definition no_addresses :: error where
  "no_addresses = Error ''no addresses available''"

text \<open>The text the dialler makes of an address: the host is not bracketed.\<close>

definition dial_target :: "ip \<Rightarrow> int \<Rightarrow> string" where
  "dial_target a port = IP_String a @ CHR '':'' # Itoa port"

definition net_dial :: "(string \<Rightarrow> string \<Rightarrow> 'c go) \<Rightarrow> string \<Rightarrow> 'c go" where
  "net_dial connect target = go_bind (SplitHostPort target) (\<lambda>(host, port). connect host port)"

fun dial_in_order :: "(ip \<Rightarrow> 'c go) \<Rightarrow> error \<Rightarrow> ip list \<Rightarrow> 'c go" where
  "dial_in_order dial lastErr [] = Fail lastErr"
| "dial_in_order dial lastErr (a # as) =
     (case dial a of Return c \<Rightarrow> Return c | Fail e \<Rightarrow> dial_in_order dial e as | Panic \<Rightarrow> Panic)"

definition dialFirst :: "(string \<Rightarrow> string \<Rightarrow> 'c go) \<Rightarrow> ip list \<Rightarrow> int \<Rightarrow> 'c go" where
  "dialFirst connect ips port = dial_in_order (\<lambda>a. net_dial connect (dial_target a port)) no_addresses ips"

definition dialRandom :: "nat \<Rightarrow> (string \<Rightarrow> string \<Rightarrow> 'c go) \<Rightarrow> ip list \<Rightarrow> int \<Rightarrow> 'c go" where
  "dialRandom r connect ips port =
     (if ips = [] then Fail no_addresses else net_dial connect (dial_target (ips ! (r mod length ips)) port))"

section \<open>Racing\<close>

text \<open>
  The collector of a race sees results arrive on the channel and, once the context is cancelled,
  its end with the context's error; \<open>None\<close> means that it waits for ever. Cancelling makes the end
  visible to every later round; which of the two a round takes is decided by the events.
  \<open>n\<close> is the number of rounds left; connections that come too late are closed. What is returned
  when the context ends without a connection is \<open>on_end\<close> of the first error and the context's.
\<close>

datatype 'c race_event = Arrives "'c go" | Cancelled error

fun collect :: "(error option \<Rightarrow> error \<Rightarrow> error option) \<Rightarrow> nat \<Rightarrow> 'c race_event list \<Rightarrow> 'c option \<Rightarrow>
    error option \<Rightarrow> ('c option \<times> error option \<times> 'c list) option" where
  "collect on_end 0 evs first err = Some (first, (if first = None then err else None), [])"
| "collect on_end (Suc n) [] first err = None"
| "collect on_end (Suc n) (Cancelled e # evs) first err = Some (first, (if first = None then on_end err e else None), [])"
| "collect on_end (Suc n) (Arrives (Return c) # evs) first err =
     (case first of
        None \<Rightarrow> collect on_end n evs (Some c) err
      | Some c0 \<Rightarrow> map_option (\<lambda>(f, e, closed). (f, e, c # closed)) (collect on_end n evs first err))"
| "collect on_end (Suc n) (Arrives (Fail e) # evs) first err =
     collect on_end n evs first (case err of None \<Rightarrow> Some e | Some e0 \<Rightarrow> Some e0)"
| "collect on_end (Suc n) (Arrives Panic # evs) first err = None"

text \<open>The dials a race starts: the resolved addresses, and the living lines of the pools.\<close>

definition living :: "line_pool \<Rightarrow> line_addr list" where
  "living p = filter la_Alive (pl_addresses p)"

definition race_dials :: "ip list \<Rightarrow> ip list \<Rightarrow> int \<Rightarrow> dialer \<Rightarrow> string list" where
  "race_dials v4 v6 port d =
     map (\<lambda>a. dial_target a port) (v4 @ v6) @
     map (\<lambda>a. dial_target (la_IP a) (la_Port a)) (living (dl_ipv4 d) @ living (dl_ipv6 d))"

text \<open>The results it waits for: one for every address, dead lines included.\<close>

definition race_count :: "ip list \<Rightarrow> ip list \<Rightarrow> dialer \<Rightarrow> nat" where
  "race_count v4 v6 d =
     length (pl_addresses (dl_ipv4 d)) + length (pl_addresses (dl_ipv6 d)) + length v4 + length v6"

definition dialParallel ::
  "ip list \<Rightarrow> ip list \<Rightarrow> dialer \<Rightarrow> 'c race_event list \<Rightarrow> ('c option \<times> error option \<times> 'c list) option" where
  "dialParallel v4 v6 d evs =
     (if v4 = [] \<and> pl_addresses (dl_ipv4 d) = [] \<and> v6 = [] \<and> pl_addresses (dl_ipv6 d) = []
      then Some (None, Some no_addresses, [])
      else collect (\<lambda>err _. err) (race_count v4 v6 d) evs None None)"

definition dialByLatency ::
  "ip list \<Rightarrow> 'c race_event list \<Rightarrow> ('c option \<times> error option \<times> 'c list) option" where
  "dialByLatency ips evs =
     (if ips = [] then Some (None, Some no_addresses, []) else collect (\<lambda>_ e. Some e) (length ips) evs None None)"

text \<open>
  What the caller of a race gets: a connection, an error, or \<open>Return None\<close>: a nil connection
  and a nil error. \<open>None\<close>: it never gets anything.
\<close>

definition raced :: "('c option \<times> error option \<times> 'c list) option \<Rightarrow> 'c option go option" where
  "raced r =
     map_option (\<lambda>(first, err, closed).
       case first of Some c \<Rightarrow> Return (Some c) | None \<Rightarrow> (case err of Some e \<Rightarrow> Fail e | None \<Rightarrow> Return None)) r"

definition dialStrategy :: "nat \<Rightarrow> (string \<Rightarrow> string \<Rightarrow> 'c go) \<Rightarrow> 'c race_event list \<Rightarrow> ip list \<Rightarrow> int \<Rightarrow>
    dialer \<Rightarrow> 'c option go option" where
  "dialStrategy r connect evs ips port d =
     (if dc_Strategy (dl_config d) = ''latency'' then raced (dialByLatency ips evs)
      else if dc_Strategy (dl_config d) = ''random'' then Some (go_map Some (dialRandom r connect ips port))
      else Some (go_map Some (dialFirst connect ips port)))"

definition try_first :: "bool \<Rightarrow> (string \<Rightarrow> string \<Rightarrow> 'c go) \<Rightarrow> ip list \<Rightarrow> ip list \<Rightarrow> int \<Rightarrow> 'c go" where
  "try_first failover connect firsts others port =
     (if length firsts > 0 then
        (case dialFirst connect firsts port of
           Fail e \<Rightarrow> if failover then dialFirst connect others port else Fail e
         | r \<Rightarrow> r)
      else dialFirst connect others port)"

definition DialIPContext ::
  "(string \<Rightarrow> string \<Rightarrow> 'c go) \<Rightarrow> 'c race_event list \<Rightarrow> ip list \<Rightarrow> int \<Rightarrow> dialer \<Rightarrow> 'c option go option" where
  "DialIPContext connect evs ips port d =
     (let v4 = filter is_ipv4 ips; v6 = filter (\<lambda>a. \<not> is_ipv4 a) ips; failover = dc_Failover (dl_config d)
      in case dc_Preference (dl_config d) of
           IPv4Only \<Rightarrow> Some (go_map Some (dialFirst connect v4 port))
         | IPv6Only \<Rightarrow> Some (go_map Some (dialFirst connect v6 port))
         | PreferIPv4 \<Rightarrow> Some (go_map Some (try_first failover connect v4 v6 port))
         | PreferIPv6 \<Rightarrow> Some (go_map Some (try_first failover connect v6 v4 port))
         | PreferDual \<Rightarrow> raced (dialParallel v4 v6 d evs))"

text \<open>\<open>lookup\<close> is the library's resolver.\<close>

definition dualstack_DialContext ::
  "(string \<Rightarrow> ip list go) \<Rightarrow> (string \<Rightarrow> string \<Rightarrow> 'c go) \<Rightarrow> 'c race_event list \<Rightarrow> string \<Rightarrow> dialer \<Rightarrow> 'c option go option" where
  "dualstack_DialContext lookup connect evs address d =
     (case SplitHostPort address of
        Return (host, portStr) \<Rightarrow>
          (case lookup host of
             Return ips \<Rightarrow> DialIPContext connect evs ips (scan_int portStr) d
           | Fail e \<Rightarrow> Some (Fail e) | Panic \<Rightarrow> Some Panic)
      | Fail e \<Rightarrow> Some (Fail e) | Panic \<Rightarrow> Some Panic)"

definition ResolveWithPreference :: "ip list go \<Rightarrow> preference \<Rightarrow> ip list go" where
  "ResolveWithPreference resolved p =
     go_map (\<lambda>ips. case p of IPv4Only \<Rightarrow> filter is_ipv4 ips
       | IPv6Only \<Rightarrow> filter (\<lambda>a. \<not> is_ipv4 a) ips | _ \<Rightarrow> ips) resolved"

section \<open>The manager of lines\<close>

record line_manager =
  lm_dialer :: dialer
  lm_lines :: "string \<rightharpoonup> line_addr"
  lm_cancelled :: bool

definition NewMultiLineManager :: "dual_config \<Rightarrow> line_manager" where
  "NewMultiLineManager config =
     \<lparr>lm_dialer = NewDualStackDialer config, lm_lines = Map.empty, lm_cancelled = False\<rparr>"

definition AddLine :: "string \<Rightarrow> ip \<Rightarrow> int \<Rightarrow> int \<Rightarrow> line_manager \<Rightarrow> line_manager" where
  "AddLine tag a port weight m =
     m\<lparr>lm_lines := (lm_lines m)(tag \<mapsto> line_addr_of a port tag weight),
       lm_dialer := AddAddress a port tag weight (lm_dialer m)\<rparr>"

definition RemoveLine :: "string \<Rightarrow> line_manager \<Rightarrow> line_manager" where
  "RemoveLine tag m = m\<lparr>lm_lines := (lm_lines m)(tag := None), lm_dialer := RemoveAddress tag (lm_dialer m)\<rparr>"

definition manager_Stop :: "line_manager \<Rightarrow> line_manager" where
  "manager_Stop m = m\<lparr>lm_cancelled := True, lm_dialer := dialer_Close (lm_dialer m)\<rparr>"

text \<open>The prober: one round at once, and one per tick until the manager is stopped.\<close>

definition StartProbing ::
  "(ip \<Rightarrow> int \<Rightarrow> int \<times> int \<times> bool) \<Rightarrow> (ip \<Rightarrow> int \<Rightarrow> int \<times> int \<times> bool) list \<Rightarrow> line_manager \<Rightarrow> line_manager" where
  "StartProbing round ticks m = m\<lparr>lm_dialer := fold ProbeAll (round # ticks) (lm_dialer m)\<rparr>"

section \<open>Probing: lemmas and property\<close>

text \<open>The outcomes of the probes of one line, latest last, and whether the last three failed.\<close>

definition three_failures :: "bool list \<Rightarrow> bool" where
  "three_failures oks \<longleftrightarrow> (\<exists>before. oks = before @ [False, False, False])"

text \<open>The number of failures at the end of a list of outcomes.\<close>

definition failures :: "bool list \<Rightarrow> nat" where
  "failures oks = length (takeWhile Not (rev oks))"

lemma failures_simps [simp]:
  "failures [] = 0" "failures (oks @ [True]) = 0" "failures (oks @ [False]) = failures oks + 1"
  by (simp_all add: failures_def)

lemma three_failures_iff: "three_failures oks \<longleftrightarrow> 3 \<le> failures oks"
proof (cases oks rule: rev_cases)
  case (snoc xs x)
  show ?thesis
  proof (cases xs rule: rev_cases)
    case snoc2: (snoc ys y)
    show ?thesis
      by (cases ys rule: rev_cases; cases x; cases y)
        (auto simp: snoc snoc2 three_failures_def failures_def)
  qed (cases x; simp add: snoc three_failures_def failures_def)
qed (simp add: three_failures_def)

text \<open>
  A pool as its users can make it, and for every tag the outcomes of the probes since its line was
  added: lines are added and removed and probed in any order. A probe works on a copy of a line,
  which may have been removed since. No line is added under the tag of one that is there.
\<close>

inductive pool_reach :: "line_pool \<Rightarrow> (string \<Rightarrow> bool list) \<Rightarrow> bool" where
  empty: "pool_reach \<lparr>pl_addresses = [], pl_stats = Map.empty\<rparr> h"
| add: "pool_reach p h \<Longrightarrow> tag \<notin> la_Tag ` set (pl_addresses p) \<Longrightarrow>
    pool_reach (pool_add (line_addr_of a port tag weight) p) (h(tag := []))"
| remove: "pool_reach p h \<Longrightarrow> pool_reach (pool_remove tag p) h"
| probe: "pool_reach p h \<Longrightarrow>
    pool_reach (probeAddr now latency ok a p) (h(la_Tag a := h (la_Tag a) @ [ok]))"

definition line_ok :: "bool list \<Rightarrow> line_stats option \<Rightarrow> line_addr \<Rightarrow> bool" where
  "line_ok oks st b \<longleftrightarrow>
     (la_Alive b \<longleftrightarrow> failures oks < 3) \<and>
     (\<exists>s. st = Some s \<and> ls_ConsecutiveFails s = int (failures oks) \<and>
        ls_SuccessCount s = int (length (filter id oks)) \<and> ls_FailureCount s = int (length (filter Not oks)))"

definition pool_ok :: "line_pool \<Rightarrow> (string \<Rightarrow> bool list) \<Rightarrow> bool" where
  "pool_ok p h \<longleftrightarrow>
     distinct (map la_Tag (pl_addresses p)) \<and>
     (\<forall>b \<in> set (pl_addresses p). line_ok (h (la_Tag b)) (pl_stats p (la_Tag b)) b)"

text \<open>With distinct tags, the first line with a tag is the only one.\<close>

lemma update_first_map:
  "distinct (map la_Tag bs) \<Longrightarrow> update_first tag f bs = map (\<lambda>b. if la_Tag b = tag then f b else b) bs"
  by (induction bs) (force simp: image_iff intro!: map_idI [symmetric])+

lemma removeByTag_filter:
  "distinct (map la_Tag bs) \<Longrightarrow> removeByTag tag bs = filter (\<lambda>b. la_Tag b \<noteq> tag) bs"
  by (induction bs) (force simp: image_iff intro!: filter_True [symmetric])+

lemma pool_ok_probe:
  assumes "pool_ok p h"
  shows "pool_ok (probeAddr now latency ok a p) (h(la_Tag a := h (la_Tag a) @ [ok]))"
proof -
  let ?t = "la_Tag a" and ?q = "probeAddr now latency ok a p"
  have d: "distinct (map la_Tag (pl_addresses p))"
    using assms by (simp add: pool_ok_def)
  define f :: "line_addr \<Rightarrow> line_addr" where "f = (\<lambda>b. if la_Tag b \<noteq> ?t then b else
      if ok then b\<lparr>la_Alive := True, la_Latency := latency\<rparr>
      else if ls_ConsecutiveFails (case pl_stats p ?t of None \<Rightarrow> new_stats | Some s \<Rightarrow> s) + 1 \<ge> 3
           then b\<lparr>la_Alive := False\<rparr> else b)"
  have q: "pl_addresses ?q = map f (pl_addresses p)" "\<forall>tag. tag \<noteq> ?t \<longrightarrow> pl_stats ?q tag = pl_stats p tag"
    by (auto simp: probeAddr_def Let_def update_first_map [OF d] f_def intro!: map_idI [symmetric])
  have tag: "la_Tag (f b) = la_Tag b" for b
    by (simp add: f_def)
  have "line_ok ((h(?t := h ?t @ [ok])) (la_Tag b)) (pl_stats ?q (la_Tag b)) (f b)"
    if b: "b \<in> set (pl_addresses p)" for b
  proof (cases "la_Tag b = ?t")
    case True
    then show ?thesis
      using assms b by (cases ok) (auto simp: pool_ok_def line_ok_def probeAddr_def f_def Let_def)
  next
    case False
    then show ?thesis
      using assms b q(2) by (simp add: pool_ok_def f_def)
  qed
  with d show ?thesis
    unfolding pool_ok_def q(1) by (simp add: tag comp_def del: fun_upd_apply)
qed

lemma pool_reach_ok: "pool_reach p h \<Longrightarrow> pool_ok p h"
proof (induction rule: pool_reach.induct)
  case (add p h tag a port weight)
  then show ?case
    by (auto simp: pool_ok_def pool_add_def line_addr_of_def line_ok_def new_stats_def)
next
  case (remove p h tag)
  then show ?case
    by (auto simp: pool_ok_def pool_remove_def removeByTag_filter distinct_map_filter)
next
  case (probe p h now latency ok a)
  show ?case
    by (rule pool_ok_probe [OF probe.IH])
qed (simp add: pool_ok_def)

text \<open>
  C14: in a pool that starts empty, as long as no line is added under the tag of another one, lines being added, removed and
  probed in any order: each line of the pool is alive unless its last three probes failed, and
  its success and failure counts are those of its own probes since it was added.
\<close>

theorem line_alive_iff:
  assumes "pool_reach p h"
  shows "distinct (map la_Tag (pl_addresses p)) \<and>
    (\<forall>b \<in> set (pl_addresses p). (la_Alive b \<longleftrightarrow> \<not> three_failures (h (la_Tag b))) \<and>
       (\<exists>st. pl_stats p (la_Tag b) = Some st \<and>
          ls_SuccessCount st = int (length (filter id (h (la_Tag b)))) \<and>
          ls_FailureCount st = int (length (filter Not (h (la_Tag b))))))"
  using pool_reach_ok [OF assms] unfolding pool_ok_def line_ok_def three_failures_iff not_le by blast

theorem line_alive_iff_witness:
  "\<exists>p. map la_Tag (pl_addresses p) = [''a'', ''b''] \<and> map la_Alive (pl_addresses p) = [False, True] \<and>
     (\<exists>h. pool_reach p h \<and> h ''a'' = [True, False, False, False] \<and> h ''b'' = [False])"
proof -
  let ?a = "line_addr_of [10, 0, 0, 1] 443 ''a'' 1" and ?b = "line_addr_of [10, 0, 0, 2] 443 ''b'' 1"
  let ?p0 = "\<lparr>pl_addresses = [], pl_stats = Map.empty\<rparr>" and ?h0 = "\<lambda>_ :: string. [] :: bool list"
  define p where "p = probeAddr 6 9 False ?a (probeAddr 5 9 False ?b (probeAddr 4 9 False ?a
    (probeAddr 3 9 False ?a (probeAddr 2 5 True ?a (pool_add ?b (pool_add ?a ?p0))))))"
  have "pool_reach (pool_add ?b (pool_add ?a ?p0)) (?h0(''a'' := [], ''b'' := []))"
    by (intro pool_reach.add pool_reach.empty) (simp_all add: pool_add_def line_addr_of_def)
  note r0 = this
  note r1 = pool_reach.probe [OF r0, of 2 5 True ?a]
  note r2 = pool_reach.probe [OF r1, of 3 9 False ?a]
  note r3 = pool_reach.probe [OF r2, of 4 9 False ?a]
  note r4 = pool_reach.probe [OF r3, of 5 9 False ?b]
  note r5 = pool_reach.probe [OF r4, of 6 9 False ?a]
  obtain h where h: "pool_reach p h" "h ''a'' = [True, False, False, False]" "h ''b'' = [False]"
    using r5 [folded p_def] by (rule that) (simp_all add: line_addr_of_def)
  have tags: "map la_Tag (pl_addresses p) = [''a'', ''b'']"
    by (simp add: p_def probeAddr_def pool_add_def line_addr_of_def new_stats_def Let_def)
  then obtain x y where xy: "pl_addresses p = [x, y]" "la_Tag x = ''a''" "la_Tag y = ''b''"
    by (auto simp: map_eq_Cons_conv)
  from line_alive_iff [OF h(1)] have "\<not> la_Alive x \<and> la_Alive y"
    using h(2,3) by (simp add: xy three_failures_iff failures_def)
  with h tags show ?thesis
    by (intro exI [of _ p]) (auto simp: xy)
qed

section \<open>Racing: lemmas and property\<close>

lemma collect_blocks:
  assumes "list_all (\<lambda>ev. \<exists>e. ev = Arrives (Fail e)) evs" "length evs < n"
  shows "collect oe n evs None err = None"
  using assms
proof (induction evs arbitrary: n err)
  case Nil
  then show ?case by (cases n) auto
next
  case (Cons ev evs)
  then show ?case by (cases n) auto
qed

lemma collect_fails:
  assumes "list_all (\<lambda>ev. \<exists>e. ev = Arrives (Fail e)) evs" "length evs = n"
  shows "\<exists>e'. collect oe n evs None err = Some (None, e', []) \<and> (n > 0 \<longrightarrow> e' \<noteq> None)"
proof -
  have "collect oe n evs None (Some e) = Some (None, Some e, [])"
    if "list_all (\<lambda>ev. \<exists>e. ev = Arrives (Fail e)) evs" "length evs = n" for e n and evs :: "'a race_event list"
    using that by (induction evs arbitrary: n) auto
  then show ?thesis
    using assms by (cases evs) (auto split: option.split)
qed

lemma living_le: "length (filter la_Alive xs) \<le> length xs"
  and living_all: "length (filter la_Alive xs) = length xs \<longleftrightarrow> (\<forall>a \<in> set xs. la_Alive a)"
  by (simp_all add: filter_empty_conv) (metis filter_True length_filter_less order_less_irrefl)

text \<open>
  C15: a race in which every dial fails. It ends with an error exactly when all lines in the
  pools are alive; a single dead line makes the dialler wait for a result nobody will send, until
  the caller gives up.
\<close>

theorem race_of_failures:
  assumes "length evs = length (race_dials v4 v6 port d)" "race_dials v4 v6 port d \<noteq> []"
    and "list_all (\<lambda>ev. \<exists>e. ev = Arrives (Fail e)) evs"
  shows "if \<exists>a \<in> set (pl_addresses (dl_ipv4 d)) \<union> set (pl_addresses (dl_ipv6 d)). \<not> la_Alive a
     then dialParallel v4 v6 d evs = None
     else \<exists>e. raced (dialParallel v4 v6 d evs) = Some (Fail e)"
proof -
  let ?l4 = "pl_addresses (dl_ipv4 d)" and ?l6 = "pl_addresses (dl_ipv6 d)"
  let ?n = "race_count v4 v6 d"
  have nonempty: "\<not> (v4 = [] \<and> ?l4 = [] \<and> v6 = [] \<and> ?l6 = [])"
    using assms(2) by (auto simp: race_dials_def living_def)
  have len: "length evs = length v4 + length v6 + length (filter la_Alive ?l4) + length (filter la_Alive ?l6)"
    using assms(1) by (simp add: race_dials_def living_def)
  have run: "dialParallel v4 v6 d evs = collect (\<lambda>err _. err) ?n evs None None" and pos: "0 < ?n"
    using nonempty by (auto simp: dialParallel_def race_count_def)
  have le: "length evs \<le> ?n"
    unfolding race_count_def using len living_le [of ?l4] living_le [of ?l6] by linarith
  show ?thesis
  proof (cases "\<exists>a \<in> set ?l4 \<union> set ?l6. \<not> la_Alive a")
    case True
    then have "length evs < ?n"
    proof (cases "\<exists>a \<in> set ?l4. \<not> la_Alive a")
      case True
      then have "length (filter la_Alive ?l4) < length ?l4"
        using living_le [of ?l4] living_all [of ?l4] by (meson le_neq_implies_less)
      then show ?thesis
        unfolding race_count_def using len living_le [of ?l6] by linarith
    next
      case False
      then have "length (filter la_Alive ?l6) < length ?l6"
        using True living_le [of ?l6] living_all [of ?l6] by (meson Un_iff le_neq_implies_less)
      then show ?thesis
        unfolding race_count_def using len living_le [of ?l4] by linarith
    qed
    with True show ?thesis
      by (simp only: run if_True) (rule collect_blocks [OF assms(3)])
  next
    case False
    then have "length evs = ?n"
      using len living_all [of ?l4] living_all [of ?l6] by (auto simp: race_count_def)
    from collect_fails [OF assms(3) this, of "\<lambda>err _. err" None] pos obtain e
      where "collect (\<lambda>err _. err) ?n evs None None = Some (None, Some e, [])"
      by auto
    then have "raced (dialParallel v4 v6 d evs) = Some (Fail e)"
      by (simp add: run raced_def)
    with False show ?thesis
      by auto
  qed
qed

theorem race_of_failures_witness:
  "dialParallel [[127, 0, 0, 1]] []
     (let d = AddAddress [10, 0, 0, 1] 443 ''a'' 1 (NewDualStackDialer DefaultDualStackConfig)
      in d\<lparr>dl_ipv4 := (dl_ipv4 d)\<lparr>pl_addresses := map (\<lambda>a. a\<lparr>la_Alive := False\<rparr>) (pl_addresses (dl_ipv4 d))\<rparr>\<rparr>)
     [Arrives (Fail (Error ''refused''))] = (None :: (unit option \<times> error option \<times> unit list) option)"
proof -
  let ?d = "let d = AddAddress [10, 0, 0, 1] 443 ''a'' 1 (NewDualStackDialer DefaultDualStackConfig)
      in d\<lparr>dl_ipv4 := (dl_ipv4 d)\<lparr>pl_addresses := map (\<lambda>a. a\<lparr>la_Alive := False\<rparr>) (pl_addresses (dl_ipv4 d))\<rparr>\<rparr>"
  have d: "pl_addresses (dl_ipv4 ?d) = [(line_addr_of [10, 0, 0, 1] 443 ''a'' 1)\<lparr>la_Alive := False\<rparr>]"
      "pl_addresses (dl_ipv6 ?d) = []"
    by (simp_all add: AddAddress_def NewDualStackDialer_def pool_add_def is_ipv4_def To4_def Let_def)
  show ?thesis
    using race_of_failures [of "[Arrives (Fail (Error ''refused''))] :: unit race_event list" "[[127, 0, 0, 1]]" "[]" 443 ?d]
    by (simp only: d) (simp add: race_dials_def living_def d)
qed

section \<open>IPv6 targets\<close>

text \<open>A race that is cancelled before any result gives a nil connection and a nil error.\<close>

lemma cancelled_race_is_nil:
  assumes "race_dials v4 v6 port d \<noteq> []"
  shows "raced (dialParallel v4 v6 d (Cancelled e # evs)) = Some (Return None)"
proof -
  have "race_count v4 v6 d \<noteq> 0"
    using assms by (auto simp: race_dials_def race_count_def living_def)
  then obtain n where "race_count v4 v6 d = Suc n"
    by (cases "race_count v4 v6 d") auto
  then show ?thesis
    by (auto simp: dialParallel_def raced_def race_count_def)
qed

lemma net_dial_ip6:
  assumes "length a = 16" "\<not> is_ipv4 a"
  shows "net_dial connect (dial_target a port) = Fail (Error ''too many colons in address'')"
proof -
  have s: "IP_String a = ip6_String a"
    using assms by (auto simp: IP_String_def is_ipv4_def)
  have "hd (ip6_String a) \<noteq> CHR ''[''"
    using ip6_String_colon [OF assms(1)] ip6_String_no(1) [of a] by (cases "ip6_String a") auto
  moreover have "CHR '':'' \<notin> set (Itoa port)"
    by (simp add: Itoa_def not_in_decimal)
  ultimately show ?thesis
    using ip6_String_colon [OF assms(1)] by (simp add: net_dial_def dial_target_def s SplitHostPort_colons)
qed

lemma dial_in_order_fails:
  "list_all (\<lambda>a. \<exists>e. dial a = Fail e) as \<Longrightarrow> \<exists>e. dial_in_order dial err as = Fail e"
  by (induction as arbitrary: err) auto

text \<open>
  No IPv6 address is ever dialled. The target puts the address in front of the port without
  brackets, which the library refuses before it connects to anything: asked for IPv6 only, the
  dialler always fails, and asked to prefer IPv6 it fails or uses IPv4.
\<close>

lemma ipv6_never_dialled:
  assumes "list_all (\<lambda>a. length a = 4 \<or> length a = 16) ips"
  shows "(dc_Preference (dl_config d) = IPv6Only \<longrightarrow> (\<exists>e. DialIPContext connect evs ips port d = Some (Fail e))) \<and>
    (dc_Preference (dl_config d) = PreferIPv6 \<and> dc_Failover (dl_config d) \<longrightarrow>
       DialIPContext connect evs ips port d = DialIPContext connect evs ips port
         (d\<lparr>dl_config := (dl_config d)\<lparr>dc_Preference := IPv4Only\<rparr>\<rparr>))"
proof -
  let ?v6 = "filter (\<lambda>a. \<not> is_ipv4 a) ips"
  have "list_all (\<lambda>a. \<exists>e. net_dial connect (dial_target a port) = Fail e) ?v6"
    using assms net_dial_ip6 by (fastforce simp: list_all_iff is_ipv4_def To4_def)
  then obtain e where "dialFirst connect ?v6 port = Fail e"
    using dial_in_order_fails [of "\<lambda>a. net_dial connect (dial_target a port)"] unfolding dialFirst_def by blast
  then show ?thesis
    by (auto simp: DialIPContext_def try_first_def Let_def)
qed

end
