(* ===== verification/Tlsgen.thy ===== *)
theory Tlsgen
  imports Go_Float Address
begin

text \<open>
  \<open>app/common/tls/tlsgen.go\<close>: the certificate manager, its cache and its lock. Keys, signatures,
  PEM and DER belong to the library and are the argument \<open>x509lib\<close>; files are a function from
  paths to contents. A result of \<open>None\<close> is a call that waits for ever. Each call reads the clock
  once (\<open>now\<close>, nanoseconds). The lock is kept as the flag \<open>cm_locked\<close>: it is set while a writer
  that never finishes holds it, otherwise every call returns it.
\<close>

section \<open>Configuration\<close>

definition ErrInvalidKeyType :: error where "ErrInvalidKeyType = Error ''invalid key type''"
definition ErrCertNotFound :: error where "ErrCertNotFound = Error ''certificate not found''"
definition ErrCertExpired :: error where "ErrCertExpired = Error ''certificate expired''"

record cert_config =
  tc_CommonName :: string
  tc_Organization :: "string list"
  tc_DNSNames :: "string list"
  tc_IPAddresses :: "string list"
  tc_KeyType :: string
  tc_KeySize :: int
  tc_ValidFrom :: string
  tc_ValidFor :: int
  tc_IsCA :: bool
  tc_CAKeyFile :: string
  tc_CACertFile :: string
  tc_OutputDir :: string
  tc_CertFile :: string
  tc_KeyFile :: string

definition DefaultCertificateConfig :: cert_config where
  "DefaultCertificateConfig =
     \<lparr>tc_CommonName = ''localhost'', tc_Organization = [''Oiwest Core''], tc_DNSNames = [''localhost''],
      tc_IPAddresses = [], tc_KeyType = ''ecdsa'', tc_KeySize = 256, tc_ValidFrom = [], tc_ValidFor = 365,
      tc_IsCA = False, tc_CAKeyFile = [], tc_CACertFile = [], tc_OutputDir = [],
      tc_CertFile = ''certificate.crt'', tc_KeyFile = ''private.key''\<rparr>"

section \<open>Templates and keys\<close>

datatype curve = P224 | P256 | P384 | P521

datatype key_kind = KeyRSA int | KeyECDSA curve | KeyEd25519

definition to_lower :: "string \<Rightarrow> string" where
  "to_lower s = map (\<lambda>c. if 65 \<le> (of_char c :: nat) \<and> (of_char c :: nat) \<le> 90
                         then char_of ((of_char c :: nat) + 32) else c) s"

text \<open>The key asked for, and the configuration with the default size written back.\<close>

definition key_request :: "cert_config \<Rightarrow> cert_config \<times> key_kind go" where
  "key_request config =
     (let kt = to_lower (tc_KeyType config);
          sized = (\<lambda>n. if tc_KeySize config = 0 then config\<lparr>tc_KeySize := n\<rparr> else config)
      in if kt = ''rsa'' then (sized 2048, Return (KeyRSA (tc_KeySize (sized 2048))))
         else if kt = ''ecdsa'' \<or> kt = ''ec'' then
           let size = tc_KeySize (sized 256)
           in (sized 256, Return (KeyECDSA (if size = 224 then P224 else if size = 384 then P384
                                            else if size = 521 then P521 else P256)))
         else if kt = ''ed25519'' then (config, Return KeyEd25519)
         else (config, Fail ErrInvalidKeyType))"

record template =
  tp_SerialNumber :: int
  tp_CommonName :: string
  tp_Organization :: "string list"
  tp_NotBefore :: int
  tp_NotAfter :: int
  tp_DNSNames :: "string list"
  tp_IPAddresses :: "ip list"
  tp_IsCA :: bool

text \<open>What the code reads of a parsed certificate.\<close>

record cert_info =
  ci_NotAfter :: int
  ci_DNSNames :: "string list"
  ci_CommonName :: string
  ci_Raw :: bytes

text \<open>
  The library: a certificate is made from a template, the certificate of its issuer (\<open>None\<close>: the
  template itself), the key whose public half it is for and the key that signs it.
\<close>

record 'k x509lib =
  xl_GenerateKey :: "key_kind \<Rightarrow> 'k go"
  xl_kind :: "'k \<Rightarrow> key_kind"
  xl_Serial :: "int go"
  xl_ParseDate :: "string \<Rightarrow> int option"
  xl_ParseIP6 :: "string \<Rightarrow> ip option"
  xl_CreateCertificate :: "template \<Rightarrow> cert_info option \<Rightarrow> 'k \<Rightarrow> 'k \<Rightarrow> bytes go"
  xl_ParseCertificate :: "bytes \<Rightarrow> cert_info go"
  xl_MarshalKey :: "'k \<Rightarrow> bytes go"
  xl_ParsePKCS8 :: "bytes \<Rightarrow> 'k go"
  xl_ParsePKCS1 :: "bytes \<Rightarrow> 'k go"
  xl_pem_Encode :: "string \<Rightarrow> bytes \<Rightarrow> bytes"
  xl_pem_Decode :: "bytes \<Rightarrow> bytes option"
  xl_X509KeyPair :: "bytes \<Rightarrow> bytes \<Rightarrow> unit go"

text \<open>The validity is computed in 64 bits.\<close>

definition validity :: "int \<Rightarrow> duration" where
  "validity days = word_of_int (if days \<le> 0 then 365 else days) * 24 * Hour"

definition not_before :: "'k x509lib \<Rightarrow> int \<Rightarrow> cert_config \<Rightarrow> int" where
  "not_before lib now config =
     (if tc_ValidFrom config = [] then now
      else case xl_ParseDate lib (tc_ValidFrom config) of Some t \<Rightarrow> t | None \<Rightarrow> now)"

definition cert_template :: "'k x509lib \<Rightarrow> int \<Rightarrow> int \<Rightarrow> cert_config \<Rightarrow> template" where
  "cert_template lib now serial config =
     (let nb = not_before lib now config
      in \<lparr>tp_SerialNumber = serial, tp_CommonName = tc_CommonName config,
          tp_Organization = tc_Organization config, tp_NotBefore = nb,
          tp_NotAfter = nb + sint (validity (tc_ValidFor config)),
          tp_DNSNames = (if tc_DNSNames config = [] then [tc_CommonName config] else tc_DNSNames config),
          tp_IPAddresses = List.map_filter (ParseIP (xl_ParseIP6 lib)) (tc_IPAddresses config),
          tp_IsCA = tc_IsCA config\<rparr>)"

type_synonym files = "string \<Rightarrow> bytes go"

definition loadCA :: "'k x509lib \<Rightarrow> files \<Rightarrow> string \<Rightarrow> string \<Rightarrow> (cert_info \<times> 'k) go" where
  "loadCA lib fs certFile keyFile =
     go_bind (fs certFile) (\<lambda>certPEM.
     go_bind (fs keyFile) (\<lambda>keyPEM.
     case xl_pem_Decode lib certPEM of
       None \<Rightarrow> Fail (Error ''failed to parse CA certificate PEM'')
     | Some der \<Rightarrow>
         go_bind (xl_ParseCertificate lib der) (\<lambda>cert.
         case xl_pem_Decode lib keyPEM of
           None \<Rightarrow> Fail (Error ''failed to parse CA key PEM'')
         | Some kder \<Rightarrow>
             (case xl_ParsePKCS8 lib kder of
                Return key \<Rightarrow> Return (cert, key)
              | Panic \<Rightarrow> Panic
              | Fail e \<Rightarrow>
                  (case xl_ParsePKCS1 lib kder of
                     Return key \<Rightarrow> Return (cert, key)
                   | Panic \<Rightarrow> Panic
                   | Fail e2 \<Rightarrow> Fail (Error ''failed to parse private key''))))))"

text \<open>A certificate authority that cannot be loaded is passed over: the certificate signs itself.\<close>

definition issuer :: "'k x509lib \<Rightarrow> files \<Rightarrow> cert_config \<Rightarrow> 'k \<Rightarrow> (cert_info option \<times> 'k) go" where
  "issuer lib fs config key =
     (if tc_CACertFile config \<noteq> [] \<and> tc_CAKeyFile config \<noteq> [] then
        (case loadCA lib fs (tc_CACertFile config) (tc_CAKeyFile config) of
           Return (cert, ckey) \<Rightarrow> Return (Some cert, ckey)
         | Fail e \<Rightarrow> Return (None, key)
         | Panic \<Rightarrow> Panic)
      else Return (None, key))"

definition marshalPrivateKey :: "'k x509lib \<Rightarrow> 'k \<Rightarrow> bytes go" where
  "marshalPrivateKey lib key =
     go_map (xl_pem_Encode lib
         (case xl_kind lib key of KeyRSA _ \<Rightarrow> ''RSA PRIVATE KEY'' | KeyECDSA _ \<Rightarrow> ''EC PRIVATE KEY''
          | KeyEd25519 \<Rightarrow> ''PRIVATE KEY''))
       (xl_MarshalKey lib key)"

record key_pair =
  kp_CertPEM :: bytes
  kp_KeyPEM :: bytes
  kp_Expiry :: int

definition prefixed :: "string \<Rightarrow> 'a go \<Rightarrow> 'a go" where
  "prefixed s r = (case r of Fail e \<Rightarrow> Fail (Error s) | _ \<Rightarrow> r)"

text \<open>Everything \<open>GenerateCertificate\<close> does before it takes the lock.\<close>

definition make_pair :: "'k x509lib \<Rightarrow> int \<Rightarrow> files \<Rightarrow> cert_config \<Rightarrow> key_pair go" where
  "make_pair lib now fs config =
     (case key_request config of (cfg, kind) \<Rightarrow>
        go_bind kind (\<lambda>kind.
        go_bind (prefixed ''generate key'' (xl_GenerateKey lib kind)) (\<lambda>key.
        go_bind (prefixed ''generate serial number'' (xl_Serial lib)) (\<lambda>serial.
        let tmpl = cert_template lib now serial cfg
        in go_bind (issuer lib fs cfg key) (\<lambda>(parent, parentKey).
           go_bind (prefixed ''create certificate'' (xl_CreateCertificate lib tmpl parent key parentKey)) (\<lambda>der.
           let certPEM = xl_pem_Encode lib ''CERTIFICATE'' der
           in go_bind (marshalPrivateKey lib key) (\<lambda>keyPEM.
              go_bind (prefixed ''create TLS key pair'' (xl_X509KeyPair lib certPEM keyPEM)) (\<lambda>_.
                Return \<lparr>kp_CertPEM = certPEM, kp_KeyPEM = keyPEM, kp_Expiry = tp_NotAfter tmpl\<rparr>)))))))) "

section \<open>The manager\<close>

text \<open>\<open>cm_written\<close>: the files written, with their permissions; \<open>renewBefore\<close> is never read.\<close>

record cert_manager =
  cm_config :: cert_config
  cm_certs :: "string \<rightharpoonup> key_pair"
  cm_cacheDir :: string
  cm_autoRenew :: bool
  cm_renewBefore :: int
  cm_locked :: bool
  cm_written :: "((string \<times> string) \<times> bytes \<times> nat) list"

definition NewCertificateManager :: "cert_config option \<Rightarrow> cert_manager" where
  "NewCertificateManager config =
     (let cfg = (case config of None \<Rightarrow> DefaultCertificateConfig | Some c \<Rightarrow> c)
      in \<lparr>cm_config = cfg, cm_certs = Map.empty, cm_cacheDir = tc_OutputDir cfg, cm_autoRenew = True,
          cm_renewBefore = 30 * 24 * 3600 * 1000000000, cm_locked = False, cm_written = []\<rparr>)"

definition GetCertificateManager :: "cert_manager option \<Rightarrow> cert_manager" where
  "GetCertificateManager present =
     (case present of None \<Rightarrow> NewCertificateManager (Some DefaultCertificateConfig) | Some m \<Rightarrow> m)"

definition SetCacheDir :: "string \<Rightarrow> cert_manager \<Rightarrow> cert_manager" where
  "SetCacheDir dir m = m\<lparr>cm_cacheDir := dir\<rparr>"

definition EnableAutoRenew :: "bool \<Rightarrow> cert_manager \<Rightarrow> cert_manager" where
  "EnableAutoRenew enable m = m\<lparr>cm_autoRenew := enable\<rparr>"

definition SetRenewBefore :: "int \<Rightarrow> cert_manager \<Rightarrow> cert_manager" where
  "SetRenewBefore d m = m\<lparr>cm_renewBefore := d\<rparr>"

definition cert_key :: "cert_config \<Rightarrow> string" where
  "cert_key config = (case tc_DNSNames config of [] \<Rightarrow> tc_CommonName config | n # _ \<Rightarrow> n)"

text \<open>Paths are pairs of directory and file, permissions are \<open>0644\<close> and \<open>0600\<close>; the key is written only when the certificate was.\<close>

definition saveToFile :: "bool \<Rightarrow> cert_config \<Rightarrow> key_pair \<Rightarrow> ((string \<times> string) \<times> bytes \<times> nat) list" where
  "saveToFile cert_written config kp =
     (if tc_OutputDir config = [] then []
      else ((tc_OutputDir config, tc_CertFile config), kp_CertPEM kp, 420) #
        (if cert_written then [((tc_OutputDir config, tc_KeyFile config), kp_KeyPEM kp, 384)] else []))"

text \<open>
  A missing configuration is the manager's own, which then gets the default key size; a caller's
  configuration gets it too. The pair is stored under the first name of the certificate.
\<close>

definition GenerateCertificate ::
  "'k x509lib \<Rightarrow> int \<Rightarrow> files \<Rightarrow> bool \<Rightarrow> cert_config option \<Rightarrow> cert_manager \<Rightarrow> cert_manager \<times> key_pair go option" where
  "GenerateCertificate lib now fs cert_written config m =
     (let cfg = (case config of None \<Rightarrow> cm_config m | Some c \<Rightarrow> c);
          m1 = (if config = None then m\<lparr>cm_config := fst (key_request cfg)\<rparr> else m)
      in case make_pair lib now fs cfg of
           Fail e \<Rightarrow> (m1, Some (Fail e))
         | Panic \<Rightarrow> (m1, Some Panic)
         | Return kp \<Rightarrow>
             if cm_locked m1 then (m1, None)
             else (m1\<lparr>cm_certs := (cm_certs m1)(cert_key cfg \<mapsto> kp),
                      cm_written := cm_written m1 @ saveToFile cert_written cfg kp\<rparr>, Some (Return kp)))"

definition name_config :: "string \<Rightarrow> cert_manager \<Rightarrow> cert_config" where
  "name_config name m = (cm_config m)\<lparr>tc_CommonName := name, tc_DNSNames := [name]\<rparr>"

text \<open>The renewal holds the lock while it generates the new certificate.\<close>

definition renewCertificate ::
  "'k x509lib \<Rightarrow> int \<Rightarrow> files \<Rightarrow> bool \<Rightarrow> string \<Rightarrow> cert_manager \<Rightarrow> cert_manager \<times> key_pair go option" where
  "renewCertificate lib now fs cert_written name m =
     (if cm_locked m then (m, None)
      else case cm_certs m name of
        None \<Rightarrow> (m, Some (Fail ErrCertNotFound))
      | Some kp \<Rightarrow>
          (case GenerateCertificate lib now fs cert_written (Some (name_config name m)) (m\<lparr>cm_locked := True\<rparr>) of
             (m1, None) \<Rightarrow> (m1, None)
           | (m1, Some (Return kp1)) \<Rightarrow>
               (m1\<lparr>cm_certs := (cm_certs m1)(name \<mapsto> kp1), cm_locked := False\<rparr>, Some (Return kp1))
           | (m1, Some r) \<Rightarrow> (m1\<lparr>cm_locked := False\<rparr>, Some r)))"

definition GetCertificate ::
  "'k x509lib \<Rightarrow> int \<Rightarrow> files \<Rightarrow> bool \<Rightarrow> string \<Rightarrow> cert_manager \<Rightarrow> cert_manager \<times> key_pair go option" where
  "GetCertificate lib now fs cert_written name m =
     (if cm_locked m then (m, None)
      else case cm_certs m name of
        Some kp \<Rightarrow>
          if now > kp_Expiry kp then
            if cm_autoRenew m then renewCertificate lib now fs cert_written name m
            else (m, Some (Fail ErrCertExpired))
          else (m, Some (Return kp))
      | None \<Rightarrow> GenerateCertificate lib now fs cert_written (Some (name_config name m)) m)"

definition GetTLSConfig ::
  "'k x509lib \<Rightarrow> int \<Rightarrow> files \<Rightarrow> bool \<Rightarrow> string \<Rightarrow> cert_manager \<Rightarrow>
     cert_manager \<times> (key_pair \<times> string) go option" where
  "GetTLSConfig lib now fs cert_written serverName m =
     (case GetCertificate lib now fs cert_written serverName m of
        (m1, r) \<Rightarrow> (m1, map_option (go_map (\<lambda>cert. (cert, serverName))) r))"

definition loaded_pair :: "'k x509lib \<Rightarrow> files \<Rightarrow> string \<Rightarrow> string \<Rightarrow> (key_pair \<times> string) go" where
  "loaded_pair lib fs certFile keyFile =
     go_bind (fs certFile) (\<lambda>certPEM.
     go_bind (fs keyFile) (\<lambda>keyPEM.
     go_bind (xl_X509KeyPair lib certPEM keyPEM) (\<lambda>_.
     case xl_pem_Decode lib certPEM of
       None \<Rightarrow> Fail (Error ''failed to parse certificate PEM'')
     | Some der \<Rightarrow>
         go_map (\<lambda>cert.
             (\<lparr>kp_CertPEM = certPEM, kp_KeyPEM = keyPEM, kp_Expiry = ci_NotAfter cert\<rparr>,
              case ci_DNSNames cert of n # _ \<Rightarrow> n | [] \<Rightarrow> ci_CommonName cert))
           (xl_ParseCertificate lib der))))"

definition LoadFromFile ::
  "'k x509lib \<Rightarrow> files \<Rightarrow> string \<Rightarrow> string \<Rightarrow> cert_manager \<Rightarrow> cert_manager \<times> key_pair go option" where
  "LoadFromFile lib fs certFile keyFile m =
     (case loaded_pair lib fs certFile keyFile of
        Fail e \<Rightarrow> (m, Some (Fail e))
      | Panic \<Rightarrow> (m, Some Panic)
      | Return (kp, name) \<Rightarrow>
          if name = [] then (m, Some (Return kp))
          else if cm_locked m then (m, None)
          else (m\<lparr>cm_certs := (cm_certs m)(name \<mapsto> kp)\<rparr>, Some (Return kp)))"

text \<open>The names of the cache, in no particular order.\<close>

definition ListCertificates :: "cert_manager \<Rightarrow> string set option" where
  "ListCertificates m = (if cm_locked m then None else Some (dom (cm_certs m)))"

section \<open>Helpers outside the manager\<close>

definition AutoGenerateCert ::
  "'k x509lib \<Rightarrow> int \<Rightarrow> files \<Rightarrow> string \<Rightarrow> string list \<Rightarrow> key_pair go option" where
  "AutoGenerateCert lib now fs commonName dnsNames =
     (let cfg = DefaultCertificateConfig\<lparr>tc_CommonName := commonName, tc_DNSNames := dnsNames, tc_ValidFor := 365\<rparr>
      in snd (GenerateCertificate lib now fs True (Some cfg) (NewCertificateManager (Some cfg))))"

definition GenerateSelfSignedCertKey ::
  "'k x509lib \<Rightarrow> int \<Rightarrow> string \<Rightarrow> string list \<Rightarrow> string list \<Rightarrow> (bytes \<times> bytes) go" where
  "GenerateSelfSignedCertKey lib now commonName organization dnsNames =
     (let cfg = DefaultCertificateConfig\<lparr>tc_CommonName := commonName, tc_Organization := organization,
            tc_DNSNames := dnsNames, tc_ValidFor := 36500\<rparr>
      in go_bind (xl_GenerateKey lib (KeyECDSA P256)) (\<lambda>key.
         go_bind (xl_Serial lib) (\<lambda>serial.
         go_bind (xl_CreateCertificate lib (cert_template lib now serial cfg) None key key) (\<lambda>der.
         go_map (\<lambda>keyDER. (xl_pem_Encode lib ''CERTIFICATE'' der, xl_pem_Encode lib ''EC PRIVATE KEY'' keyDER))
           (xl_MarshalKey lib key)))))"

definition CertificateFingerprint :: "(bytes \<Rightarrow> bytes) \<Rightarrow> cert_info \<Rightarrow> bytes" where
  "CertificateFingerprint sha256 cert = sha256 (ci_Raw cert)"

text \<open>A certificate that is nil, empty or unreadable counts as expired.\<close>

definition leaf_expires_before :: "'k x509lib \<Rightarrow> int \<Rightarrow> bytes list option \<Rightarrow> bool" where
  "leaf_expires_before lib t cert =
     (case cert of Some (der # _) \<Rightarrow>
        (case xl_ParseCertificate lib der of Return c \<Rightarrow> t > ci_NotAfter c | _ \<Rightarrow> True)
      | _ \<Rightarrow> True)"

definition IsCertificateExpired :: "'k x509lib \<Rightarrow> int \<Rightarrow> bytes list option \<Rightarrow> bool" where
  "IsCertificateExpired lib now cert = leaf_expires_before lib now cert"

definition CertificateExpiresIn :: "'k x509lib \<Rightarrow> int \<Rightarrow> duration \<Rightarrow> bytes list option \<Rightarrow> bool" where
  "CertificateExpiresIn lib now d cert = leaf_expires_before lib (now + sint d) cert"

section \<open>Validity\<close>

text \<open>
  The validity of a certificate is its number of days up to 106751 days; from there on the
  product of days and nanoseconds leaves 64 bits and the certificate gets another end, 106752 days
  one that lies centuries before its beginning.
\<close>

lemma validity_days:
  assumes "0 < days"
  shows "(sint (validity days) = days * 86400000000000 \<longleftrightarrow> days \<le> 106751) \<and>
    sint (validity 106752) < - 9000000000000000000"
proof -
  have v: "sint (validity n) = signed_take_bit 63 (n * 86400000000000)" if "0 < n" for n
  proof -
    have "validity n = word_of_int (n * 86400000000000)"
      using that by (simp add: validity_def)
    then show ?thesis
      by (simp add: sint_sbintrunc' del: of_int_mult)
  qed
  have "signed_take_bit 63 (days * 86400000000000) = days * 86400000000000 \<longleftrightarrow> days * 86400000000000 < 2 ^ 63"
    using assms by (subst signed_take_bit_int_eq_self_iff) simp
  also have "\<dots> \<longleftrightarrow> days \<le> 106751"
    by auto
  finally have "signed_take_bit 63 (days * 86400000000000) = days * 86400000000000 \<longleftrightarrow> days \<le> 106751" .
  moreover have "sint (validity 106752) = - 9223371273709551616"
    by (simp add: v)
  ultimately show ?thesis
    using v [OF assms] by simp
qed

section \<open>The cache over time\<close>

text \<open>A server that asks for the configuration of a name at each connection.\<close>

type_synonym request = "int \<times> files \<times> bool \<times> string"

fun serve :: "'k x509lib \<Rightarrow> request list \<Rightarrow> cert_manager \<Rightarrow> (key_pair \<times> string) go option list" where
  "serve lib [] m = []"
| "serve lib ((now, fs, w, name) # reqs) m =
     (case GetTLSConfig lib now fs w name m of (m1, r) \<Rightarrow> r # serve lib reqs m1)"

lemma serve_locked: "cm_locked m \<Longrightarrow> serve lib reqs m = replicate (length reqs) None"
  by (induction reqs) (auto simp: GetTLSConfig_def GetCertificate_def)

lemma GenerateCertificate_Some:
  "GenerateCertificate lib now fs w (Some cfg) m =
     (case make_pair lib now fs cfg of
        Fail e \<Rightarrow> (m, Some (Fail e))
      | Panic \<Rightarrow> (m, Some Panic)
      | Return kp \<Rightarrow>
          if cm_locked m then (m, None)
          else (m\<lparr>cm_certs := (cm_certs m)(cert_key cfg \<mapsto> kp),
                  cm_written := cm_written m @ saveToFile w cfg kp\<rparr>, Some (Return kp)))"
  by (simp add: GenerateCertificate_def)

lemma renew_hangs:
  assumes "\<not> cm_locked m" "cm_certs m name = Some kp" "make_pair lib now fs (name_config name m) = Return kp1"
  shows "renewCertificate lib now fs w name m = (m\<lparr>cm_locked := True\<rparr>, None)"
  using assms by (simp add: renewCertificate_def GenerateCertificate_Some)

text \<open>What a fresh name gets: a certificate for that name only, stored under it with its end.\<close>

lemma first_certificate:
  assumes "GetCertificate lib now fs w name m = (m1, Some (Return kp))" "cm_certs m name = None"
  shows "make_pair lib now fs (name_config name m) = Return kp \<and> \<not> cm_locked m1 \<and> cm_config m1 = cm_config m \<and>
    cm_autoRenew m1 = cm_autoRenew m \<and> cm_certs m1 = (cm_certs m)(name \<mapsto> kp)"
  using assms
  by (auto simp: GetCertificate_def GenerateCertificate_Some name_config_def cert_key_def
      split: if_splits go.splits)

lemma key_request_other [simp]:
  "tc_ValidFor (fst (key_request cfg)) = tc_ValidFor cfg" "tc_ValidFrom (fst (key_request cfg)) = tc_ValidFrom cfg"
  by (simp_all add: key_request_def Let_def)

lemma make_pair_Expiry:
  assumes "make_pair lib now fs cfg = Return kp"
  shows "kp_Expiry kp = not_before lib now cfg + sint (validity (tc_ValidFor cfg))"
proof -
  have "not_before lib now (fst (key_request cfg)) = not_before lib now cfg"
    by (simp add: not_before_def)
  then show ?thesis
    using assms key_request_other(1) [of cfg]
    by (cases "key_request cfg") (auto simp: make_pair_def cert_template_def Let_def go_bind_Return_iff
        split: prod.splits)
qed

text \<open>
  C16: the life of a name that a server asks for, with the manager's default of automatic
  renewal. The first request makes a certificate, and every request until its end gets the same
  one. The first request after its end waits for ever if a new certificate could be made, since the
  renewal holds the lock the generation takes; from then on no request for any name is answered.
\<close>

theorem served_until_expiry:
  assumes "GetCertificate lib t0 fs0 w0 name m = (m1, Some (Return kp))" "cm_certs m name = None" "cm_autoRenew m"
    and "make_pair lib t fs (name_config name m) = Return kp1"
  shows "kp_Expiry kp = not_before lib t0 (cm_config m) + sint (validity (tc_ValidFor (cm_config m))) \<and>
    (if t \<le> kp_Expiry kp
     then GetCertificate lib t fs w name m1 = (m1, Some (Return kp))
     else serve lib ((t, fs, w, name) # later) m1 = replicate (Suc (length later)) None)"
proof -
  from first_certificate [OF assms(1,2)] have m1: "\<not> cm_locked m1" "cm_certs m1 name = Some kp"
      "cm_autoRenew m1" "name_config name m1 = name_config name m"
      and kp: "make_pair lib t0 fs0 (name_config name m) = Return kp"
    using assms(3) by (simp_all add: name_config_def)
  have "GetCertificate lib t fs w name m1 = (m1\<lparr>cm_locked := True\<rparr>, None)" if "kp_Expiry kp < t"
    using that m1 assms(4) by (simp add: GetCertificate_def renew_hangs)
  then have "serve lib ((t, fs, w, name) # later) m1 = replicate (Suc (length later)) None" if "kp_Expiry kp < t"
    using that by (simp add: GetTLSConfig_def serve_locked)
  then show ?thesis
    using m1 make_pair_Expiry [OF kp] by (auto simp: GetCertificate_def name_config_def not_before_def)
qed

text \<open>An instance of the library: constant keys, certificates and encodings.\<close>

definition plain_lib :: "unit x509lib" where
  "plain_lib =
     \<lparr>xl_GenerateKey = (\<lambda>_. Return ()), xl_kind = (\<lambda>_. KeyEd25519), xl_Serial = Return 7, xl_ParseDate = (\<lambda>_. None),
      xl_ParseIP6 = (\<lambda>_. None), xl_CreateCertificate = (\<lambda>_ _ _ _. Return [1]),
      xl_ParseCertificate = (\<lambda>_. Fail EOF), xl_MarshalKey = (\<lambda>_. Return [2]), xl_ParsePKCS8 = (\<lambda>_. Fail EOF),
      xl_ParsePKCS1 = (\<lambda>_. Fail EOF), xl_pem_Encode = (\<lambda>_ bs. bs), xl_pem_Decode = (\<lambda>_. None),
      xl_X509KeyPair = (\<lambda>_ _. Return ())\<rparr>"

lemma plain_pair:
  "make_pair plain_lib now fs (name_config name (NewCertificateManager None)) =
     Return \<lparr>kp_CertPEM = [1], kp_KeyPEM = [2], kp_Expiry = now + sint (validity 365)\<rparr>"
  by (simp add: make_pair_def plain_lib_def name_config_def NewCertificateManager_def DefaultCertificateConfig_def
      key_request_def to_lower_def prefixed_def issuer_def marshalPrivateKey_def cert_template_def not_before_def Let_def)

theorem served_until_expiry_witness:
  "\<exists>m1 kp. GetCertificate plain_lib 0 (\<lambda>_. Fail EOF) True ''a'' (NewCertificateManager None) = (m1, Some (Return kp)) \<and>
     serve plain_lib [(2 ^ 60, \<lambda>_. Fail EOF, True, ''a''), (2 ^ 60, \<lambda>_. Fail EOF, True, ''b'')] m1 = [None, None]"
proof -
  let ?m = "NewCertificateManager None" and ?kp = "\<lparr>kp_CertPEM = [1], kp_KeyPEM = [2], kp_Expiry = sint (validity 365)\<rparr>"
  have fresh: "\<not> cm_locked ?m" "cm_certs ?m ''a'' = None" "cm_autoRenew ?m"
    by (simp_all add: NewCertificateManager_def)
  then obtain m1 where get: "GetCertificate plain_lib 0 (\<lambda>_. Fail EOF) True ''a'' ?m = (m1, Some (Return ?kp))"
    by (simp add: GetCertificate_def GenerateCertificate_Some plain_pair)
  have "sint (validity 365) = 31536000000000000"
    by (simp add: validity_def)
  then have "\<not> (2 ^ 60 :: int) \<le> kp_Expiry ?kp"
    by simp
  then show ?thesis
    using served_until_expiry [OF get fresh(2,3) plain_pair [of "2 ^ 60" "\<lambda>_. Fail EOF" "''a''"], of True
        "[(2 ^ 60, \<lambda>_. Fail EOF, True, ''b'')]"] get
    by (auto simp: numeral_2_eq_2)
qed

end
