(* ===== verification/Features.thy ===== *)
theory Features
  imports Core Bbr Dualstack Tlsgen
begin

text \<open>
  \<open>app/core/core.go\<close>: the optional features a core is built with (congestion controller,
  dual-stack dialer, certificate manager), the background tasks it starts, and start, reload and
  stop of the whole; \<open>app/config/config.go\<close>: the default configuration. The background task that
  copies the counters of the worker pool into the statistics is only noted as started.
\<close>

section \<open>Configuration\<close>

record bbr_global =
  bg_Enabled :: bool
  bg_Algorithm :: algorithm
  bg_Settings :: "bbr_config option"

record dual_global =
  dg_Enabled :: bool
  dg_Preference :: string
  dg_MultiLine :: bool
  dg_Failover :: bool
  dg_Strategy :: string
  dg_Config :: "dual_config option"

record cert_global =
  cg_Enabled :: bool
  cg_AutoGenerate :: bool
  cg_Config :: "cert_config option"

record full_config =
  fc_core :: core_config
  fc_WorkerPool :: "worker_pool_config option"
  fc_BBR :: "bbr_global option"
  fc_DualStack :: "dual_global option"
  fc_Certificate :: "cert_global option"

text \<open>The decoder of JSON fills the fields of a configuration; this is what it starts from.\<close>

definition DefaultConfig :: full_config where
  "DefaultConfig =
     \<lparr>fc_core = \<lparr>cf_Inbounds = [\<lparr>ib_Tag = ''dccp-in'', ib_Port = 33445, ib_Listen = ''0.0.0.0'',
                    ib_Protocol = ''dccp'', ib_Settings = None,
                    ib_Stream = Some \<lparr>ssn_Network = ''dccp'', ssn_hasDCCP = True\<rparr>\<rparr>],
                 cf_Outbounds = [\<lparr>ob_Tag = ''direct'', ob_Protocol = ''freedom'', ob_Settings = None,
                    ob_Stream = None\<rparr>],
                 cf_Routing = None\<rparr>,
      fc_WorkerPool = Some \<lparr>wc_NumWorkers = 8, wc_QueueSize = 1000\<rparr>,
      fc_BBR = Some \<lparr>bg_Enabled = False, bg_Algorithm = BBROriginal,
                      bg_Settings = Some (DefaultBBRConfig BBROriginal)\<rparr>,
      fc_DualStack = Some \<lparr>dg_Enabled = True, dg_Preference = ''dual'', dg_MultiLine = False,
                            dg_Failover = True, dg_Strategy = ''latency'', dg_Config = None\<rparr>,
      fc_Certificate = Some \<lparr>cg_Enabled = False, cg_AutoGenerate = True,
                              cg_Config = Some DefaultCertificateConfig\<rparr>\<rparr>"

text \<open>
  A configuration written and read again. The library writes a raw message that is missing as
  \<open>null\<close>, and reads \<open>null\<close> back as a raw message of these four bytes, so settings are never missing
  in what is read back; everything else comes back as it was.
\<close>

definition raw_back :: "bytes option \<Rightarrow> bytes option" where
  "raw_back s = Some (case s of None \<Rightarrow> map of_char ''null'' | Some bs \<Rightarrow> bs)"

definition read_back :: "full_config \<Rightarrow> full_config" where
  "read_back cfg =
     cfg\<lparr>fc_core := (fc_core cfg)\<lparr>
       cf_Inbounds := map (\<lambda>ib. ib\<lparr>ib_Settings := raw_back (ib_Settings ib)\<rparr>) (cf_Inbounds (fc_core cfg)),
       cf_Outbounds := map (\<lambda>ob. ob\<lparr>ob_Settings := raw_back (ob_Settings ob)\<rparr>) (cf_Outbounds (fc_core cfg))\<rparr>\<rparr>"

abbreviation default_configs :: "full_config set" where
  "default_configs \<equiv> {DefaultConfig, read_back DefaultConfig}"

section \<open>Construction of the features\<close>

definition core_bbr :: "int \<Rightarrow> bbr_global option \<Rightarrow> bbr option go" where
  "core_bbr now g =
     (case g of
        Some b \<Rightarrow>
          if bg_Enabled b then
            go_map Some (factory_Create GetBBRFactory now (bg_Algorithm b)
              (Some (case bg_Settings b of None \<Rightarrow> DefaultBBRConfig (bg_Algorithm b) | Some c \<Rightarrow> c)))
          else Return None
      | None \<Rightarrow> Return None)"

text \<open>A preference with another name leaves the one of the configuration.\<close>

definition named_preference :: "string \<Rightarrow> preference \<Rightarrow> preference" where
  "named_preference name p =
     (if name = ''ipv4'' then IPv4Only
      else if name = ''ipv6'' then IPv6Only
      else if name = ''dual'' then PreferDual
      else if name = ''prefer_ipv4'' then PreferIPv4
      else if name = ''prefer_ipv6'' then PreferIPv6
      else p)"

text \<open>The flags of the section always replace those of its \<open>config\<close>, which is changed in place.\<close>

definition dual_settings :: "dual_global \<Rightarrow> dual_config" where
  "dual_settings g =
     (let d = (case dg_Config g of None \<Rightarrow> DefaultDualStackConfig | Some c \<Rightarrow> c)
      in d\<lparr>dc_Preference := named_preference (dg_Preference g) (dc_Preference d),
           dc_Failover := dg_Failover g, dc_Strategy := dg_Strategy g\<rparr>)"

definition core_dual :: "dual_global option \<Rightarrow> (dialer \<times> line_manager) option" where
  "core_dual g =
     (case g of
        Some d \<Rightarrow>
          if dg_Enabled d
          then Some (NewDualStackDialer (dual_settings d), NewMultiLineManager (dual_settings d))
          else None
      | None \<Rightarrow> None)"

definition core_dual_config :: "dual_global option \<Rightarrow> dual_global option" where
  "core_dual_config g =
     (case g of
        Some d \<Rightarrow>
          Some (if dg_Enabled d \<and> dg_Config d \<noteq> None then d\<lparr>dg_Config := Some (dual_settings d)\<rparr> else d)
      | None \<Rightarrow> None)"

definition core_certs :: "cert_global option \<Rightarrow> cert_manager option" where
  "core_certs g =
     (case g of
        Some c \<Rightarrow>
          if cg_Enabled c
          then Some (NewCertificateManager
                 (Some (case cg_Config c of None \<Rightarrow> DefaultCertificateConfig | Some cfg \<Rightarrow> cfg)))
          else None
      | None \<Rightarrow> None)"

text \<open>The name whose certificate is made in the background.\<close>

definition autoGenerateCertificates :: "cert_global \<Rightarrow> string" where
  "autoGenerateCertificates c =
     (case cg_Config c of
        Some cfg \<Rightarrow> if tc_CommonName cfg \<noteq> [] then tc_CommonName cfg else ''localhost''
      | None \<Rightarrow> ''localhost'')"

record engine =
  en_core :: core
  en_BBR :: "bbr_global option"
  en_DualStack :: "dual_global option"
  en_bbrCtrl :: "bbr option"
  en_dualStack :: "dialer option"
  en_multiLine :: "line_manager option"
  en_certMgr :: "cert_manager option"
  en_auto :: "string option"

definition engine_New :: "jsonlib \<Rightarrow> nat \<Rightarrow> int \<Rightarrow> full_config \<Rightarrow> registry \<Rightarrow> (engine \<times> registry) go" where
  "engine_New js ncpu now cfg rg =
     go_bind (NewCore js ncpu (fc_core cfg) (fc_WorkerPool cfg) rg) (\<lambda>(c, rg1).
     go_map (\<lambda>b.
       (\<lparr>en_core = c, en_BBR = fc_BBR cfg, en_DualStack = core_dual_config (fc_DualStack cfg), en_bbrCtrl = b,
         en_dualStack = map_option fst (core_dual (fc_DualStack cfg)),
         en_multiLine = map_option snd (core_dual (fc_DualStack cfg)),
         en_certMgr = core_certs (fc_Certificate cfg),
         en_auto = (case fc_Certificate cfg of
                      Some g \<Rightarrow> if cg_Enabled g \<and> cg_AutoGenerate g then Some (autoGenerateCertificates g) else None
                    | None \<Rightarrow> None)\<rparr>, rg1))
       (core_bbr now (fc_BBR cfg)))"

section \<open>Background tasks\<close>

text \<open>The tasks that were started; they run until the context of the core is cancelled.\<close>

record background =
  bt_stats :: bool
  bt_probing :: bool
  bt_bbr :: bool

definition startBackgroundTasks :: "engine \<Rightarrow> background go" where
  "startBackgroundTasks e =
     (case (en_multiLine e, en_DualStack e) of
        (Some _, None) \<Rightarrow> Panic
      | (m, g) \<Rightarrow>
          Return \<lparr>bt_stats = co_pool (en_core e) \<noteq> None,
                  bt_probing = (m \<noteq> None \<and> (case g of Some d \<Rightarrow> dg_MultiLine d | None \<Rightarrow> False)),
                  bt_bbr = en_bbrCtrl e \<noteq> None\<rparr>)"

text \<open>A turn of the controller's task: one second is reported as the round trip.\<close>

definition bbr_tick :: "int \<Rightarrow> int \<times> bbr_call" where
  "bbr_tick now = (now, RTTUpdate Second)"

text \<open>Rounds of the prober, at the start and at every tick.\<close>

definition run_probing ::
  "(ip \<Rightarrow> int \<Rightarrow> int \<times> int \<times> bool) \<Rightarrow> (ip \<Rightarrow> int \<Rightarrow> int \<times> int \<times> bool) list \<Rightarrow> engine \<Rightarrow> engine" where
  "run_probing first ticks e = e\<lparr>en_multiLine := map_option (StartProbing first ticks) (en_multiLine e)\<rparr>"

section \<open>Start, stop and reload\<close>

text \<open>The tasks are started after the proxies and before the core counts as running.\<close>

definition engine_Start ::
  "netlib \<Rightarrow> registry \<Rightarrow> engine \<Rightarrow> engine \<times> inbound_handler list \<times> background go" where
  "engine_Start lib rg e =
     (case core_Start lib rg (en_core e) of
        (c, hs, Return _) \<Rightarrow>
          (case startBackgroundTasks (e\<lparr>en_core := c\<rparr>) of
             Return bt \<Rightarrow> (e\<lparr>en_core := c\<rparr>, hs, Return bt)
           | _ \<Rightarrow> (e\<lparr>en_core := c\<lparr>co_running := False\<rparr>\<rparr>, hs, Panic))
      | (c, hs, Fail err) \<Rightarrow> (e\<lparr>en_core := c\<rparr>, hs, Fail err)
      | (c, hs, Panic) \<Rightarrow> (e\<lparr>en_core := c\<rparr>, hs, Panic))"

definition engine_Stop :: "engine \<Rightarrow> engine" where
  "engine_Stop e =
     (if \<not> co_running (en_core e) then e
      else e\<lparr>en_core := core_Stop (en_core e), en_multiLine := map_option manager_Stop (en_multiLine e),
             en_dualStack := map_option dialer_Close (en_dualStack e)\<rparr>)"

text \<open>A reload replaces the configuration; the features built from the old one stay.\<close>

definition engine_LoadConfig :: "netlib \<Rightarrow> (bytes \<Rightarrow> full_config go) \<Rightarrow> bytes \<Rightarrow> engine \<Rightarrow> engine \<times> unit go" where
  "engine_LoadConfig lib parse data e =
     (case LoadConfig lib (\<lambda>d. go_map fc_core (parse d)) data (en_core e) of
        (c, r) \<Rightarrow>
          (case parse data of
             Return cfg \<Rightarrow> (e\<lparr>en_core := c, en_BBR := fc_BBR cfg, en_DualStack := fc_DualStack cfg\<rparr>, r)
           | _ \<Rightarrow> (e\<lparr>en_core := c\<rparr>, r)))"

section \<open>Properties\<close>

lemma core_bbr_default:
  assumes "bg_Enabled g" "bg_Settings g = None"
  shows "core_bbr now (Some g) =
    go_map Some (factory_Create GetBBRFactory now (bg_Algorithm g) (Some (DefaultBBRConfig (bg_Algorithm g))))"
  using assms by (simp add: core_bbr_def)

text \<open>The prober's manager is private to the core and has no lines: its rounds change nothing.\<close>

lemma ProbeAll_no_lines [simp]: "ProbeAll dial (NewDualStackDialer config) = NewDualStackDialer config"
  by (simp add: ProbeAll_def probe_pool_def NewDualStackDialer_def)

lemma fold_ProbeAll_no_lines [simp]: "fold ProbeAll dials (NewDualStackDialer config) = NewDualStackDialer config"
  by (induction dials) simp_all

lemma engine_New_lines:
  assumes "engine_New js ncpu now cfg rg = Return (e, rg1)"
  shows "en_multiLine e = map_option snd (core_dual (fc_DualStack cfg))"
  using assms by (auto simp: engine_New_def go_bind_Return_iff go_map_Return_iff)

lemma probing_probes_nothing:
  assumes "engine_New js ncpu now cfg rg = Return (e, rg1)"
  shows "run_probing first ticks e = e"
proof -
  have "StartProbing first ticks (NewMultiLineManager config) = NewMultiLineManager config" for config
    by (simp add: StartProbing_def NewMultiLineManager_def)
  then have "map_option (StartProbing first ticks) (en_multiLine e) = en_multiLine e"
    by (simp add: engine_New_lines [OF assms] core_dual_def split: option.split)
  then show ?thesis
    by (simp add: run_probing_def)
qed

text \<open>Out of the box nothing is forwarded: accepted connections are left for a new DCCP transport, and the rest is discarded.\<close>

lemma default_config_forwards_nothing:
  "cfg \<in> default_configs \<Longrightarrow> config_dispatch js (fc_core cfg) = Some Discards \<and>
   inbound_Process (DCCPInbound t p l (ib_Stream (hd (cf_Inbounds (fc_core cfg))))) = Return NewDCCP"
  by (auto simp: DefaultConfig_def read_back_def config_dispatch_def all_outbounds_def configured_def
      preferred_tags_def dccp_or_conn_def Let_def)

text \<open>
  The congestion controller a core creates for any algorithm with its own default settings is
  put into round-trip probing by the first tick of the core's background task, which reports one
  second, and stays there with the window of 10 packets, however long the core runs and whatever
  is sent, acknowledged or lost.
\<close>

lemma core_bbr_stuck:
  assumes "bg_Enabled g" "bg_Settings g = None" "list_all (\<lambda>(now, call). call \<noteq> BbrReset) calls"
  shows "\<exists>s s'. core_bbr now (Some g) = Return (Some s) \<and> bbr_run (bbr_tick t # calls) s = Return s' \<and>
    bb_mode s' = ModeProbeRTT \<and> bb_cwnd s' = Fin 10"
proof -
  obtain s where s: "factory_Create GetBBRFactory now (bg_Algorithm g) (Some (DefaultBBRConfig (bg_Algorithm g))) = Return s"
      "bbr_inv s" "fresh s"
    using Create_default by blast
  obtain s1 where s1: "bbr_OnRTTUpdate t Second s = Return s1" "bbr_inv s1" "bb_mode s1 = ModeProbeRTT" "bb_cwnd s1 = Fin 10"
    using first_tick [OF s(2,3)] by blast
  from probe_rtt_run [OF s1(2,3) assms(3)] s(1) s1(1,4) show ?thesis
    by (auto simp: core_bbr_default [OF assms(1,2)] bbr_tick_def)
qed

text \<open>
  C17: a core whose configuration is replaced before it is started. If its proxies start, the start
  panics exactly when the core was built with the dual-stack dialer and the new configuration
  has no section for it. The inbounds are then open, yet the core does not count as running,
  so that \<open>Stop\<close> does nothing.
\<close>

theorem start_after_reload_panics:
  assumes "engine_New js ncpu now cfg rg0 = Return (e, rg)"
    and "parse data = Return cfg1" "engine_LoadConfig lib parse data e = (e1, r)"
    and "core_Start lib rg (en_core e1) = (c, hs, Return ())"
  shows "(case engine_Start lib rg e1 of
      (e2, hs2, r2) \<Rightarrow> hs2 = hs \<and>
        (r2 = Panic \<longleftrightarrow> (\<exists>g. fc_DualStack cfg = Some g \<and> dg_Enabled g) \<and> fc_DualStack cfg1 = None) \<and>
        (r2 = Panic \<longrightarrow> engine_Stop e2 = e2) \<and> (r2 \<noteq> Panic \<longrightarrow> co_running (en_core e2)))"
proof -
  have e1: "en_multiLine e1 = map_option snd (core_dual (fc_DualStack cfg))" "en_DualStack e1 = fc_DualStack cfg1"
    using assms(2,3) engine_New_lines [OF assms(1)] by (auto simp: engine_LoadConfig_def split: prod.splits)
  have "co_running c"
    using assms(4) by (auto simp: core_Start_def Let_def split: if_splits go.splits prod.splits)
  then show ?thesis
    by (cases "fc_DualStack cfg"; cases "fc_DualStack cfg1")
      (auto simp: engine_Start_def assms(4) startBackgroundTasks_def e1 core_dual_def engine_Stop_def)
qed

theorem start_after_reload_panics_witness:
  "\<exists>e rg e1 e2. engine_New \<lparr>js_dokodemo = \<lambda>_ d. d, js_dns = \<lambda>_ d. d\<rparr> 4 0 (DefaultConfig\<lparr>fc_WorkerPool := None\<rparr>)
       \<lparr>rg_in = Map.empty, rg_out = Map.empty\<rparr> = Return (e, rg) \<and>
     engine_LoadConfig \<lparr>lib_regexp = \<lambda>_. None, lib_ParseIP = \<lambda>_. None, lib_ParseCIDR = \<lambda>_. None\<rparr>
       (\<lambda>_. Return (DefaultConfig\<lparr>fc_core := \<lparr>cf_Inbounds = [], cf_Outbounds = [], cf_Routing = None\<rparr>, fc_DualStack := None\<rparr>))
       [] e = (e1, Return ()) \<and>
     engine_Start \<lparr>lib_regexp = \<lambda>_. None, lib_ParseIP = \<lambda>_. None, lib_ParseCIDR = \<lambda>_. None\<rparr> rg e1 = (e2, [], Panic)"
  (is "\<exists>e rg e1 e2. engine_New ?js 4 0 ?cfg ?rg = Return (e, rg) \<and>
     engine_LoadConfig ?lib ?parse [] e = (e1, Return ()) \<and> engine_Start ?lib rg e1 = (e2, [], Panic)")
proof -
  obtain e rg where new: "engine_New ?js 4 0 ?cfg ?rg = Return (e, rg)"
    and e: "rg = registerAllProtocols ?js ?rg" "\<not> co_running (en_core e)"
    by (simp add: engine_New_def NewCore_def core_pool_def core_bbr_def DefaultConfig_def)
  obtain e1 where load: "engine_LoadConfig ?lib ?parse [] e = (e1, Return ())"
    and e1: "\<not> co_running (en_core e1)" "co_config (en_core e1) = \<lparr>cf_Inbounds = [], cf_Outbounds = [], cf_Routing = None\<rparr>"
    using e(2) by (simp add: engine_LoadConfig_def LoadConfig_def Let_def)
  obtain c where start: "core_Start ?lib rg (en_core e1) = (c, [], Return ())"
    using e1 by (simp add: e(1) core_Start_def default_outbounds manager_Start_def NewProxyManager_def Let_def)
  show ?thesis
    using start_after_reload_panics [OF new HOL.refl load start] new load
    by (auto simp: DefaultConfig_def split: prod.splits)
qed

end
