(* ===== verification/Platform.thy ===== *)
theory Platform
  imports Go_Strings "HOL-Library.Sublist"
begin

text \<open>
  \<open>app/common/platform/\<close>: \<open>platform.go\<close>, \<open>detect_*.go\<close>, \<open>paths_*.go\<close>, \<open>signal_*.go\<close>: what the program knows about
  the system it runs on, the directories it uses and the signals it waits for. The build tags choose
  the files of one system: the target is \<open>runtime.GOOS\<close>, which is \<open>android\<close> exactly in the builds
  with the tag \<open>android\<close>. Environment variables, the user's home, files and \<open>filepath.Join\<close> are
  arguments. The socket options of \<open>net_*.go\<close> are system calls and are left out.
\<close>

section \<open>Systems\<close>

datatype os_type = Windows | Linux | Darwin | Android | UnknownOS

datatype distro = DistroUnknown | DistroUbuntu | DistroDebian | DistroFedora | DistroOpenWrt | DistroAndroid
  | DistroAlpine | DistroArch | DistroCentOS

text \<open>\<open>ev_file\<close> gives the content of a file that can be read, \<open>ev_stat\<close> whether \<open>os.Stat\<close> finds the path.\<close>

record environment =
  ev_GOOS :: string
  ev_GOARCH :: string
  ev_var :: "string \<Rightarrow> string"
  ev_home :: "string go"
  ev_executable :: string
  ev_file :: "string \<Rightarrow> string option"
  ev_stat :: "string \<Rightarrow> bool"
  ev_join :: "string list \<Rightarrow> string"
  ev_dir :: "string \<Rightarrow> string"

text \<open>\<open>detect_android.go\<close> is the file of \<open>isAndroid\<close> in Android builds, and the others of the other systems.\<close>

definition isAndroid :: "environment \<Rightarrow> bool" where
  "isAndroid ev \<longleftrightarrow> ev_GOOS ev = ''android''"

definition detectOS :: "environment \<Rightarrow> os_type" where
  "detectOS ev =
     (if ev_GOOS ev = ''windows'' then Windows
      else if ev_GOOS ev = ''linux'' then (if isAndroid ev then Android else Linux)
      else if ev_GOOS ev = ''darwin'' then Darwin
      else UnknownOS)"

text \<open>An architecture is its name; the four known ones keep theirs.\<close>

definition detectArch :: "environment \<Rightarrow> string" where
  "detectArch ev =
     (if ev_GOARCH ev = ''amd64'' then ''amd64''
      else if ev_GOARCH ev = ''arm64'' then ''arm64''
      else if ev_GOARCH ev = ''arm'' then ''arm''
      else if ev_GOARCH ev = ''386'' then ''386''
      else ev_GOARCH ev)"

definition hasGUI_linux :: "environment \<Rightarrow> bool" where
  "hasGUI_linux ev \<longleftrightarrow>
     ev_var ev ''DISPLAY'' \<noteq> [] \<or> ev_var ev ''WAYLAND_DISPLAY'' \<noteq> [] \<or>
     ev_var ev ''XDG_SESSION_TYPE'' = ''wayland'' \<or> ev_var ev ''XDG_SESSION_TYPE'' = ''x11''"

definition hasGUI :: "environment \<Rightarrow> bool" where
  "hasGUI ev \<longleftrightarrow> (if ev_GOOS ev = ''android'' then False else if ev_GOOS ev = ''linux'' then hasGUI_linux ev else True)"

definition Contains :: "string \<Rightarrow> string \<Rightarrow> bool" where
  "Contains s t \<longleftrightarrow> sublist t s"

text \<open>\<open>strings.ToLower\<close>, of ASCII letters; what it does to other text does not matter to the search below.\<close>

definition lower_char :: "char \<Rightarrow> char" where
  "lower_char c = (let n = of_char c :: nat in if 65 \<le> n \<and> n \<le> 90 then char_of (n + 32) else c)"

definition ToLower :: "string \<Rightarrow> string" where
  "ToLower s = map lower_char s"

text \<open>The names that are searched, in this order.\<close>

definition distro_names :: "(string \<times> distro) list" where
  "distro_names =
     [(''openwrt'', DistroOpenWrt), (''ubuntu'', DistroUbuntu), (''debian'', DistroDebian), (''fedora'', DistroFedora),
      (''alpine'', DistroAlpine), (''arch'', DistroArch), (''centos'', DistroCentOS)]"

definition distro_of :: "string \<Rightarrow> distro" where
  "distro_of content =
     (case find (\<lambda>(name, d). Contains content name) distro_names of
        Some (name, d) \<Rightarrow> d | None \<Rightarrow> DistroUnknown)"

definition detectDistro_linux :: "environment \<Rightarrow> distro" where
  "detectDistro_linux ev =
     (case ev_file ev ''/etc/os-release'' of
        Some data \<Rightarrow> distro_of (ToLower data)
      | None \<Rightarrow>
          (case ev_file ev ''/usr/lib/os-release'' of
             Some data \<Rightarrow> distro_of (ToLower data)
           | None \<Rightarrow> DistroUnknown))"

definition detectDistro :: "environment \<Rightarrow> distro" where
  "detectDistro ev =
     (if ev_GOOS ev = ''android'' then DistroAndroid
      else if ev_GOOS ev = ''linux'' then detectDistro_linux ev else DistroUnknown)"

definition detectContainer_linux :: "environment \<Rightarrow> bool" where
  "detectContainer_linux ev \<longleftrightarrow>
     ev_stat ev ''/.dockerenv'' \<or> ev_stat ev ''/run/.containerenv'' \<or>
     (case ev_file ev ''/proc/1/cgroup'' of
        Some data \<Rightarrow> Contains data ''docker'' \<or> Contains data ''lxc'' \<or> Contains data ''kubepods''
      | None \<Rightarrow> False)"

text \<open>The Windows path is written with two pairs of backslashes in the source, so it has two.\<close>

definition docker_windows :: string where
  "docker_windows = ''C:'' @ [CHR 0x5C, CHR 0x5C] @ ''.dockerenv''"

definition detectContainer :: "environment \<Rightarrow> bool" where
  "detectContainer ev \<longleftrightarrow>
     (if ev_GOOS ev = ''windows'' then ev_stat ev docker_windows
      else if ev_GOOS ev = ''linux'' then detectContainer_linux ev else False)"

section \<open>Directories\<close>

record platform =
  pf_OS :: os_type
  pf_Arch :: string
  pf_Distro :: distro
  pf_IsHeadless :: bool
  pf_IsContainer :: bool
  pf_AppDir :: string
  pf_ConfigDir :: string
  pf_CacheDir :: string
  pf_LogDir :: string

text \<open>\<open>os.UserHomeDir\<close> with its two tests: no error and not empty.\<close>

definition home_of :: "environment \<Rightarrow> string option" where
  "home_of ev = (case ev_home ev of Return h \<Rightarrow> if h \<noteq> [] then Some h else None | _ \<Rightarrow> None)"

definition or_env :: "environment \<Rightarrow> string \<Rightarrow> string \<Rightarrow> string" where
  "or_env ev name d = (if ev_var ev name \<noteq> [] then ev_var ev name else d)"

definition appDataDir_linux :: "environment \<Rightarrow> distro \<Rightarrow> string" where
  "appDataDir_linux ev d =
     or_env ev ''OIWEST_DATA_DIR''
       (case home_of ev of
          Some home \<Rightarrow>
            if d = DistroOpenWrt then ev_join ev [''/etc'', ''oiwest-core'']
            else ev_join ev [home, ''.local'', ''share'', ''oiwest-core'']
        | None \<Rightarrow> ''/var/lib/oiwest-core'')"

definition configDir_linux :: "environment \<Rightarrow> distro \<Rightarrow> string" where
  "configDir_linux ev d =
     or_env ev ''OIWEST_CONFIG_DIR''
       (if ev_var ev ''XDG_CONFIG_HOME'' \<noteq> [] then ev_join ev [ev_var ev ''XDG_CONFIG_HOME'', ''oiwest-core'']
        else if d = DistroOpenWrt then ev_join ev [''/etc'', ''oiwest-core'']
        else case home_of ev of
               Some home \<Rightarrow> ev_join ev [home, ''.config'', ''oiwest-core'']
             | None \<Rightarrow> ''/etc/oiwest-core'')"

definition cacheDir_linux :: "environment \<Rightarrow> distro \<Rightarrow> string" where
  "cacheDir_linux ev d =
     (if ev_var ev ''XDG_CACHE_HOME'' \<noteq> [] then ev_join ev [ev_var ev ''XDG_CACHE_HOME'', ''oiwest-core'']
      else case home_of ev of
             Some home \<Rightarrow>
               if d = DistroOpenWrt then ev_join ev [appDataDir_linux ev d, ''cache'']
               else ev_join ev [home, ''.cache'', ''oiwest-core'']
           | None \<Rightarrow> ev_join ev [appDataDir_linux ev d, ''cache''])"

definition logDir_linux :: "environment \<Rightarrow> distro \<Rightarrow> string" where
  "logDir_linux ev d = (if d = DistroOpenWrt then ''/var/log'' else ev_join ev [appDataDir_linux ev d, ''logs''])"

definition appDataDir_darwin :: "environment \<Rightarrow> string" where
  "appDataDir_darwin ev =
     or_env ev ''OIWEST_DATA_DIR''
       (case home_of ev of
          Some home \<Rightarrow> ev_join ev [home, ''Library'', ''Application Support'', ''oiwest-core'']
        | None \<Rightarrow> ''/var/lib/oiwest-core'')"

definition configDir_darwin :: "environment \<Rightarrow> string" where
  "configDir_darwin ev =
     or_env ev ''OIWEST_CONFIG_DIR''
       (case home_of ev of
          Some home \<Rightarrow> ev_join ev [home, ''Library'', ''Preferences'', ''oiwest-core'']
        | None \<Rightarrow> ''/etc/oiwest-core'')"

definition cacheDir_darwin :: "environment \<Rightarrow> string" where
  "cacheDir_darwin ev =
     (case home_of ev of
        Some home \<Rightarrow> ev_join ev [home, ''Library'', ''Caches'', ''oiwest-core'']
      | None \<Rightarrow> ev_join ev [appDataDir_darwin ev, ''cache''])"

definition logDir_darwin :: "environment \<Rightarrow> string" where
  "logDir_darwin ev =
     (case home_of ev of
        Some home \<Rightarrow> ev_join ev [home, ''Library'', ''Logs'', ''oiwest-core'']
      | None \<Rightarrow> ev_join ev [appDataDir_darwin ev, ''logs''])"

text \<open>On Windows the error of \<open>os.UserHomeDir\<close> is dropped; the home is empty then.\<close>

definition appDataDir_windows :: "environment \<Rightarrow> string" where
  "appDataDir_windows ev =
     or_env ev ''OIWEST_DATA_DIR''
       (case home_of ev of
          Some home \<Rightarrow> ev_join ev [home, ''.oiwest'']
        | None \<Rightarrow> ev_join ev [ev_dir ev (ev_executable ev), ''data''])"

definition configDir_windows :: "environment \<Rightarrow> string" where
  "configDir_windows ev =
     or_env ev ''OIWEST_CONFIG_DIR''
       (if ev_var ev ''APPDATA'' \<noteq> [] then ev_join ev [ev_var ev ''APPDATA'', ''oiwest-core'']
        else ev_join ev [appDataDir_windows ev, ''config''])"

definition cacheDir_windows :: "environment \<Rightarrow> string" where
  "cacheDir_windows ev =
     (if ev_var ev ''LOCALAPPDATA'' \<noteq> [] then ev_join ev [ev_var ev ''LOCALAPPDATA'', ''oiwest-core'', ''cache'']
      else ev_join ev [appDataDir_windows ev, ''cache''])"

definition logDir_windows :: "environment \<Rightarrow> string" where
  "logDir_windows ev = ev_join ev [appDataDir_windows ev, ''logs'']"

definition appDataDir_android :: "environment \<Rightarrow> string" where
  "appDataDir_android ev =
     or_env ev ''OIWEST_DATA_DIR''
       (if ev_var ev ''ANDROID_DATA'' \<noteq> [] then ev_join ev [ev_var ev ''ANDROID_DATA'', ''oiwest-core'']
        else ''/data/local/tmp/oiwest-core'')"

definition configDir_android :: "environment \<Rightarrow> string" where
  "configDir_android ev = or_env ev ''OIWEST_CONFIG_DIR'' (ev_join ev [appDataDir_android ev, ''config''])"

definition cacheDir_android :: "environment \<Rightarrow> string" where
  "cacheDir_android ev = ev_join ev [appDataDir_android ev, ''cache'']"

definition logDir_android :: "environment \<Rightarrow> string" where
  "logDir_android ev = ev_join ev [appDataDir_android ev, ''logs'']"

text \<open>The four functions of the build's own file.\<close>

definition dirs :: "environment \<Rightarrow> distro \<Rightarrow> string \<times> string \<times> string \<times> string" where
  "dirs ev d =
     (if ev_GOOS ev = ''windows''
      then (appDataDir_windows ev, configDir_windows ev, cacheDir_windows ev, logDir_windows ev)
      else if ev_GOOS ev = ''darwin''
      then (appDataDir_darwin ev, configDir_darwin ev, cacheDir_darwin ev, logDir_darwin ev)
      else if ev_GOOS ev = ''android''
      then (appDataDir_android ev, configDir_android ev, cacheDir_android ev, logDir_android ev)
      else (appDataDir_linux ev d, configDir_linux ev d, cacheDir_linux ev d, logDir_linux ev d))"

definition detectPlatform :: "environment \<Rightarrow> platform" where
  "detectPlatform ev =
     (let d = detectDistro ev
      in case dirs ev d of (app, config, cache, logs) \<Rightarrow>
           \<lparr>pf_OS = detectOS ev, pf_Arch = detectArch ev, pf_Distro = d, pf_IsHeadless = \<not> hasGUI ev,
            pf_IsContainer = detectContainer ev, pf_AppDir = app, pf_ConfigDir = config, pf_CacheDir = cache,
            pf_LogDir = logs\<rparr>)"

definition ExeName :: "platform \<Rightarrow> string" where
  "ExeName p = (if pf_OS p = Windows then ''oiwest-core.exe'' else ''oiwest-core'')"

definition IsSupported :: "platform \<Rightarrow> bool" where
  "IsSupported p \<longleftrightarrow>
     pf_OS p \<in> {Windows, Linux, Android, Darwin} \<and> pf_Arch p \<in> {''amd64'', ''arm64'', ''arm'', ''386''}"

section \<open>Signals\<close>

datatype signal = SIGINT | SIGTERM | SIGHUP | OtherSignal nat

text \<open>What is asked for; on Windows \<open>os.Interrupt\<close> is the only one.\<close>

definition notified :: "environment \<Rightarrow> signal list" where
  "notified ev =
     (if ev_GOOS ev = ''windows'' then [SIGINT]
      else if ev_GOOS ev = ''android'' then [SIGINT, SIGTERM] else [SIGINT, SIGTERM, SIGHUP])"

text \<open>The first of those that arrive; \<open>None\<close>: it waits. A signal that was not asked for is the system's.\<close>

definition WaitForSignal :: "environment \<Rightarrow> signal list \<Rightarrow> signal option" where
  "WaitForSignal ev arriving = find (\<lambda>s. s \<in> set (notified ev)) arriving"

text \<open>\<open>NotifySignal\<close>: its goroutine takes one signal and ends, so the callback runs at most once.\<close>

definition NotifySignal :: "environment \<Rightarrow> signal list \<Rightarrow> signal list" where
  "NotifySignal ev arriving = (case WaitForSignal ev arriving of None \<Rightarrow> [] | Some s \<Rightarrow> [s])"

definition GracefulShutdown :: "environment \<Rightarrow> signal" where
  "GracefulShutdown ev = (if ev_GOOS ev = ''windows'' then SIGINT else SIGTERM)"

text \<open>The signal the package names for a graceful end is one the program waits for.\<close>

lemma graceful_is_awaited: "WaitForSignal ev [GracefulShutdown ev] = Some (GracefulShutdown ev)"
  by (simp add: WaitForSignal_def GracefulShutdown_def notified_def)

section \<open>What is detected\<close>

text \<open>A release file that names Fedora, as that of CentOS does, is one of Fedora, whatever else it names later.\<close>

lemma distro_first:
  assumes "distro_names = as @ (name, d) # bs" "Contains content name"
    and "\<forall>(n, d') \<in> set as. \<not> Contains content n"
  shows "distro_of content = d"
proof -
  have "find (\<lambda>(name, d). Contains content name) (as @ (name, d) # bs) = Some (name, d)"
    using assms(2,3) by (induction as) auto
  then show ?thesis
    by (simp add: distro_of_def assms(1))
qed

lemma centos_like_fedora:
  assumes "Contains content ''fedora''" "\<not> Contains content ''openwrt''" "\<not> Contains content ''ubuntu''"
    "\<not> Contains content ''debian''"
  shows "distro_of content = DistroFedora"
  using assms by (intro distro_first [of "take 3 distro_names"]) (simp_all add: distro_names_def)

text \<open>Every directory is set from the environment, the home, or a fixed place.\<close>

lemma dirs_nonempty:
  assumes join: "\<And>xs. list_ex (\<lambda>x. x \<noteq> []) xs \<Longrightarrow> ev_join ev xs \<noteq> []"
  shows "pf_AppDir (detectPlatform ev) \<noteq> [] \<and> pf_ConfigDir (detectPlatform ev) \<noteq> [] \<and>
    pf_CacheDir (detectPlatform ev) \<noteq> [] \<and> pf_LogDir (detectPlatform ev) \<noteq> []"
proof -
  have appDataDir_linux: "appDataDir_linux ev d \<noteq> []" for d
    by (simp add: appDataDir_linux_def or_env_def join split: option.split)
  have configDir_linux: "configDir_linux ev d \<noteq> []" for d
    by (simp add: configDir_linux_def or_env_def join split: option.split)
  have cacheDir_linux: "cacheDir_linux ev d \<noteq> []" for d
    by (simp add: cacheDir_linux_def or_env_def join split: option.split)
  have logDir_linux: "logDir_linux ev d \<noteq> []" for d
    by (simp add: logDir_linux_def or_env_def join split: option.split)
  have appDataDir_darwin: "appDataDir_darwin ev \<noteq> []"
    by (simp add: appDataDir_darwin_def or_env_def join split: option.split)
  have configDir_darwin: "configDir_darwin ev \<noteq> []"
    by (simp add: configDir_darwin_def or_env_def join split: option.split)
  have cacheDir_darwin: "cacheDir_darwin ev \<noteq> []"
    by (simp add: cacheDir_darwin_def or_env_def join split: option.split)
  have logDir_darwin: "logDir_darwin ev \<noteq> []"
    by (simp add: logDir_darwin_def or_env_def join split: option.split)
  have appDataDir_windows: "appDataDir_windows ev \<noteq> []"
    by (simp add: appDataDir_windows_def or_env_def join split: option.split)
  have configDir_windows: "configDir_windows ev \<noteq> []"
    by (simp add: configDir_windows_def or_env_def join split: option.split)
  have cacheDir_windows: "cacheDir_windows ev \<noteq> []"
    by (simp add: cacheDir_windows_def or_env_def join split: option.split)
  have logDir_windows: "logDir_windows ev \<noteq> []"
    by (simp add: logDir_windows_def or_env_def join split: option.split)
  have appDataDir_android: "appDataDir_android ev \<noteq> []"
    by (simp add: appDataDir_android_def or_env_def join split: option.split)
  have configDir_android: "configDir_android ev \<noteq> []"
    by (simp add: configDir_android_def or_env_def join split: option.split)
  have cacheDir_android: "cacheDir_android ev \<noteq> []"
    by (simp add: cacheDir_android_def or_env_def join split: option.split)
  have logDir_android: "logDir_android ev \<noteq> []"
    by (simp add: logDir_android_def or_env_def join split: option.split)
  show ?thesis
    by (simp add: detectPlatform_def Let_def dirs_def
      appDataDir_linux configDir_linux cacheDir_linux logDir_linux
      appDataDir_darwin configDir_darwin cacheDir_darwin logDir_darwin
      appDataDir_windows configDir_windows cacheDir_windows logDir_windows
      appDataDir_android configDir_android cacheDir_android logDir_android)
qed

text \<open>
  Android is never detected. A build for Android has the target \<open>android\<close>, which \<open>detectOS\<close> does not
  know: it asks \<open>isAndroid\<close> only for the target \<open>linux\<close>, where the answer is no. So on Android the
  system is unknown and the platform unsupported, on every architecture, although the distribution and
  the directories are those of Android; every other target the program has files for is detected
  and is supported exactly on the four architectures.
\<close>

lemma android_never_supported:
  "detectOS ev \<noteq> Android \<and>
   (isAndroid ev \<longrightarrow> pf_OS (detectPlatform ev) = UnknownOS \<and> \<not> IsSupported (detectPlatform ev) \<and>
      pf_Distro (detectPlatform ev) = DistroAndroid \<and> pf_ConfigDir (detectPlatform ev) = configDir_android ev) \<and>
   (ev_GOOS ev \<in> {''windows'', ''linux'', ''darwin''} \<longrightarrow>
      (IsSupported (detectPlatform ev) \<longleftrightarrow> ev_GOARCH ev \<in> {''amd64'', ''arm64'', ''arm'', ''386''}))"
  by (auto simp: detectOS_def isAndroid_def detectPlatform_def IsSupported_def detectDistro_def dirs_def
      detectArch_def Let_def split: prod.splits)

end
