(* ===== verification/Command.thy ===== *)
theory Command
  imports Features Platform
begin

text \<open>
  The two programs, \<open>cmd/cli/main.go\<close> and \<open>cmd/daemon/daemon_unix.go\<close> (\<open>daemon_windows.go\<close> has the same
  functions and prints less; the copies in the directories below are the same files), and
  \<open>config.ParseConfig\<close>: where the configuration comes from, what is written, what runs, and how it
  ends. The JSON decoder and encoder are the arguments \<open>parse\<close> and \<open>to_json\<close>. Output is left out.
\<close>

section \<open>Files\<close>

text \<open>
  The files by their cleaned paths. Writing a file, with its directories created before, succeeds
  or changes nothing; removing needs the same right.
\<close>

record files =
  fs_content :: "string \<rightharpoonup> bytes"
  fs_readable :: "string \<Rightarrow> bool"
  fs_writable :: "string \<Rightarrow> bool"

definition ErrNotExist :: error where "ErrNotExist = Error ''file does not exist''"
definition ErrPermission :: error where "ErrPermission = Error ''permission denied''"

definition os_ReadFile :: "string \<Rightarrow> files \<Rightarrow> bytes go" where
  "os_ReadFile path fs =
     (case fs_content fs path of
        None \<Rightarrow> Fail ErrNotExist
      | Some data \<Rightarrow> if fs_readable fs path then Return data else Fail ErrPermission)"

definition os_WriteFile :: "string \<Rightarrow> bytes \<Rightarrow> files \<Rightarrow> files" where
  "os_WriteFile path data fs =
     (if fs_writable fs path then fs\<lparr>fs_content := (fs_content fs)(path \<mapsto> data)\<rparr> else fs)"

definition os_Remove :: "string \<Rightarrow> files \<Rightarrow> files" where
  "os_Remove path fs = (if fs_writable fs path then fs\<lparr>fs_content := (fs_content fs)(path := None)\<rparr> else fs)"

lemma written_file [simp]:
  "fs_writable fs path \<Longrightarrow> fs_content (os_WriteFile path data fs) = (fs_content fs)(path \<mapsto> data)"
  "fs_readable (os_WriteFile path data fs) = fs_readable fs" "fs_writable (os_WriteFile path data fs) = fs_writable fs"
  by (simp_all add: os_WriteFile_def)

lemma removed_file [simp]:
  "fs_writable fs path \<Longrightarrow> fs_content (os_Remove path fs) = (fs_content fs)(path := None)"
  by (simp add: os_Remove_def)

section \<open>Running a core\<close>

text \<open>How a program ends, or the core that runs until a signal.\<close>

datatype run = Exits int | Crashes | Runs engine "inbound_handler list"

definition run_core :: "jsonlib \<Rightarrow> nat \<Rightarrow> int \<Rightarrow> netlib \<Rightarrow> registry \<Rightarrow> full_config \<Rightarrow> run" where
  "run_core js ncpu now lib rg cfg =
     (case engine_New js ncpu now cfg rg of
        Return (e, rg1) \<Rightarrow>
          (case engine_Start lib rg1 e of
             (e1, hs, Return _) \<Rightarrow> Runs e1 hs
           | (_, _, Fail _) \<Rightarrow> Exits 1
           | (_, _, Panic) \<Rightarrow> Crashes)
      | _ \<Rightarrow> Crashes)"

text \<open>\<open>Core.WaitForSignal\<close>; \<open>None\<close>: it waits.\<close>

definition core_WaitForSignal :: "environment \<Rightarrow> signal list \<Rightarrow> engine \<Rightarrow> engine option" where
  "core_WaitForSignal ev arriving e = map_option (\<lambda>_. engine_Stop e) (WaitForSignal ev arriving)"

section \<open>The command line\<close>

record flags =
  fg_config :: string
  fg_version :: bool
  fg_test :: bool

text \<open>Every error of reading counts as a missing file.\<close>

definition cli_config ::
  "(bytes \<Rightarrow> full_config go) \<Rightarrow> (full_config \<Rightarrow> bytes) \<Rightarrow> flags \<Rightarrow> files \<Rightarrow> files \<times> full_config go" where
  "cli_config parse to_json fg fs =
     (if fg_test fg then (fs, Return DefaultConfig)
      else case os_ReadFile (fg_config fg) fs of
             Return data \<Rightarrow> (fs, parse data)
           | _ \<Rightarrow> (os_WriteFile (fg_config fg) (to_json DefaultConfig) fs, Return DefaultConfig))"

definition cli_main ::
  "environment \<Rightarrow> jsonlib \<Rightarrow> (bytes \<Rightarrow> full_config go) \<Rightarrow> (full_config \<Rightarrow> bytes) \<Rightarrow> nat \<Rightarrow> int \<Rightarrow> netlib \<Rightarrow> registry
   \<Rightarrow> flags \<Rightarrow> signal list \<Rightarrow> files \<Rightarrow> files \<times> run" where
  "cli_main ev js parse to_json ncpu now lib rg fg arriving fs =
     (if fg_version fg then (fs, Exits 0)
      else case cli_config parse to_json fg fs of
             (fs1, Return cfg) \<Rightarrow>
               (case run_core js ncpu now lib rg cfg of
                  Runs e hs \<Rightarrow> (fs1, if core_WaitForSignal ev arriving e = None then Runs e hs else Exits 0)
                | r \<Rightarrow> (fs1, r))
           | (fs1, Fail _) \<Rightarrow> (fs1, Exits 1)
           | (fs1, Panic) \<Rightarrow> (fs1, Crashes))"

section \<open>The daemon\<close>

definition config_path :: "environment \<Rightarrow> string" where
  "config_path ev = ev_join ev [pf_ConfigDir (detectPlatform ev), ''config.json'']"

definition pid_path :: "environment \<Rightarrow> string" where
  "pid_path ev = ev_join ev [pf_AppDir (detectPlatform ev), ''oiwest-core.pid'']"

definition daemon_loadConfig ::
  "environment \<Rightarrow> (bytes \<Rightarrow> full_config go) \<Rightarrow> (full_config \<Rightarrow> bytes) \<Rightarrow> files \<Rightarrow> files \<times> full_config go" where
  "daemon_loadConfig ev parse to_json fs =
     (if fs_content fs (config_path ev) = None
      then (os_WriteFile (config_path ev) (to_json DefaultConfig) fs, Return DefaultConfig)
      else (fs, go_bind (os_ReadFile (config_path ev) fs) parse))"

definition pid_text :: "int \<Rightarrow> bytes" where
  "pid_text pid = map of_char (Itoa pid)"

definition writePIDFile :: "environment \<Rightarrow> int \<Rightarrow> files \<Rightarrow> files" where
  "writePIDFile ev pid fs = os_WriteFile (pid_path ev) (pid_text pid) fs"

definition removePIDFile :: "environment \<Rightarrow> files \<Rightarrow> files" where
  "removePIDFile ev fs = os_Remove (pid_path ev) fs"

definition daemon_main ::
  "environment \<Rightarrow> jsonlib \<Rightarrow> (bytes \<Rightarrow> full_config go) \<Rightarrow> (full_config \<Rightarrow> bytes) \<Rightarrow> nat \<Rightarrow> int \<Rightarrow> netlib \<Rightarrow> registry
   \<Rightarrow> int \<Rightarrow> signal list \<Rightarrow> files \<Rightarrow> files \<times> run" where
  "daemon_main ev js parse to_json ncpu now lib rg pid arriving fs =
     (case daemon_loadConfig ev parse to_json fs of
        (fs1, Return cfg) \<Rightarrow>
          (case run_core js ncpu now lib rg cfg of
             Runs e hs \<Rightarrow>
               let fs2 = writePIDFile ev pid fs1
               in if core_WaitForSignal ev arriving e = None then (fs2, Runs e hs)
                  else (removePIDFile ev fs2, Exits 0)
           | r \<Rightarrow> (fs1, r))
      | (fs1, Fail _) \<Rightarrow> (fs1, Exits 1)
      | (fs1, Panic) \<Rightarrow> (fs1, Crashes))"

section \<open>Lemmas\<close>

text \<open>The command line takes a configuration it may not read for a missing one, and the daemon does not.\<close>

lemma unreadable_config:
  assumes "fs_content fs path = Some data" "\<not> fs_readable fs path" "\<not> fg_test fg"
  shows "fg_config fg = path \<Longrightarrow>
      cli_config parse to_json fg fs = (os_WriteFile path (to_json DefaultConfig) fs, Return DefaultConfig)"
    and "config_path ev = path \<Longrightarrow> daemon_loadConfig ev parse to_json fs = (fs, Fail ErrPermission)"
  using assms by (simp_all add: cli_config_def daemon_loadConfig_def os_ReadFile_def)

lemma daemon_config_kept:
  assumes "fs_content fs (config_path ev) = None" "fs_writable fs (config_path ev)" "fs_readable fs (config_path ev)"
    and "parse (to_json DefaultConfig) = Return (read_back DefaultConfig)"
    and "daemon_loadConfig ev parse to_json fs = (fs1, r)"
  shows "r = Return DefaultConfig \<and> fs_content fs1 (config_path ev) = Some (to_json DefaultConfig) \<and>
    daemon_loadConfig ev parse to_json fs1 = (fs1, Return (read_back DefaultConfig))"
  using assms by (auto simp: daemon_loadConfig_def os_ReadFile_def)

text \<open>A second daemon takes the file over, and the first to end removes it.\<close>

lemma pid_file_shared:
  assumes "fs_writable fs (pid_path ev)"
  shows "fs_content (removePIDFile ev (writePIDFile ev pid2 (writePIDFile ev pid1 fs))) (pid_path ev) = None"
  using assms by (simp add: removePIDFile_def writePIDFile_def)

text \<open>A core built from the default configuration, or from what it is read back as, starts: its one inbound, its one outbound.\<close>

abbreviation default_inbounds :: "inbound_handler list" where
  "default_inbounds \<equiv> [DCCPInbound ''dccp-in'' 33445 ''0.0.0.0'' (Some \<lparr>ssn_Network = ''dccp'', ssn_hasDCCP = True\<rparr>)]"

lemmas default_config_defs = DefaultConfig_def read_back_def

lemma default_core_starts:
  assumes "cfg \<in> default_configs" "rg_out rg = Map.empty" "co_config c = fc_core cfg" "\<not> co_running c"
  shows "\<exists>c1 pm. core_Start lib (registerAllProtocols js rg) c =
      (c1, default_inbounds, Return ()) \<and>
    co_manager c1 = Some pm \<and> dispatchRequest pm = Some Discards \<and> co_running c1"
proof -
  let ?pm = "fold RegisterOutbound (all_outbounds js (fc_core cfg)) (NewProxyManager (fc_core cfg))"
  have hs: "start_inbounds (registerAllProtocols js rg) (cf_Inbounds (fc_core cfg)) =
      (default_inbounds, Return ())"
    using assms(1) by (auto simp: default_config_defs createInboundHandler_def registerAllProtocols_def GetInboundFactory_def
        RegisterInboundProtocol_def RegisterOutboundProtocol_def Let_def)
  have cfg: "pm_config ?pm = fc_core cfg"
    by (simp add: fold_register_config NewProxyManager_def)
  then have "dispatchRequest ?pm = config_dispatch js (fc_core cfg)"
    by (simp add: dispatchRequest_def config_dispatch_def dispatch_tag_preferred fold_register NewProxyManager_def split: option.split)
  then have "dispatchRequest ?pm = Some Discards"
    using default_config_forwards_nothing [OF assms(1)] by simp
  with hs cfg assms(2-4) show ?thesis
    by (simp add: core_Start_def default_outbounds manager_Start_def Let_def)
qed

lemma default_core_runs:
  assumes "cfg \<in> default_configs" "rg_out rg = Map.empty"
  shows "\<exists>e pm. run_core js ncpu now lib rg cfg =
      Runs e default_inbounds \<and>
    co_manager (en_core e) = Some pm \<and> dispatchRequest pm = Some Discards"
proof -
  obtain c p where "NewCore js ncpu (fc_core cfg) (fc_WorkerPool cfg) rg =
      Return (c, registerAllProtocols js rg)" and c: "co_config c = fc_core cfg" "\<not> co_running c"
    using assms(1) by (auto simp: NewCore_def core_pool_def default_config_defs NewWorkerPool_def DefaultWorkerPoolConfig_def Let_def)
  then obtain e where e: "engine_New js ncpu now cfg rg = Return (e, registerAllProtocols js rg)"
      "en_core e = c" "en_DualStack e \<noteq> None"
    using assms(1) by (auto simp: engine_New_def core_bbr_def default_config_defs core_dual_config_def)
  obtain c1 pm where "core_Start lib (registerAllProtocols js rg) c =
      (c1, default_inbounds, Return ())"
      "co_manager c1 = Some pm" "dispatchRequest pm = Some Discards"
    using default_core_starts [OF assms c] by blast
  then show ?thesis
    using e by (auto simp: run_core_def engine_Start_def startBackgroundTasks_def split: option.split)
qed

lemma default_daemon_runs:
  assumes "cfg \<in> default_configs" "rg_out rg = Map.empty"
    and "daemon_loadConfig ev parse to_json fs = (fs0, Return cfg)" "fs_writable fs0 (pid_path ev)"
  shows "\<exists>e pm fs1. daemon_main ev js parse to_json ncpu now lib rg pid arriving fs =
      (fs1, if WaitForSignal ev arriving = None then Runs e default_inbounds else Exits 0) \<and>
    co_manager (en_core e) = Some pm \<and> dispatchRequest pm = Some Discards \<and>
    fs_content fs1 = (fs_content fs0)
      (pid_path ev := (if WaitForSignal ev arriving = None then Some (pid_text pid) else None)) \<and>
    fs_readable fs1 = fs_readable fs0 \<and> fs_writable fs1 = fs_writable fs0"
proof -
  obtain e pm where run: "run_core js ncpu now lib rg cfg = Runs e default_inbounds"
      "co_manager (en_core e) = Some pm" "dispatchRequest pm = Some Discards"
    using default_core_runs [OF assms(1,2)] by blast
  let ?fs1 = "if WaitForSignal ev arriving = None then writePIDFile ev pid fs0
    else removePIDFile ev (writePIDFile ev pid fs0)"
  have "daemon_main ev js parse to_json ncpu now lib rg pid arriving fs =
      (?fs1, if WaitForSignal ev arriving = None then Runs e default_inbounds else Exits 0)"
    by (simp add: daemon_main_def assms(3) run(1) core_WaitForSignal_def Let_def)
  moreover have "fs_content ?fs1 = (fs_content fs0)
      (pid_path ev := (if WaitForSignal ev arriving = None then Some (pid_text pid) else None))"
      "fs_readable ?fs1 = fs_readable fs0" "fs_writable ?fs1 = fs_writable fs0"
    using assms(4) by (simp_all add: writePIDFile_def removePIDFile_def os_Remove_def)
  ultimately show ?thesis
    using run(2,3) by blast
qed

section \<open>Properties\<close>

text \<open>
  C18: a daemon that finds no configuration writes the default one and runs with it; the next start
  reads it back, with the bytes \<open>null\<close> for the settings that were missing, and runs the same. While
  a daemon runs its process number is in the PID file; a signal it waits for ends it and removes that
  file only. What runs forwards nothing: its only inbound is the DCCP one, and every connection
  dispatched is discarded. Both files can be written, and the configuration read.
\<close>

theorem fresh_daemon_forwards_nothing:
  assumes "rg_out rg = Map.empty" "parse (to_json DefaultConfig) = Return (read_back DefaultConfig)"
    and "fs_content fs (config_path ev) = None" "fs_writable fs (config_path ev)" "fs_readable fs (config_path ev)"
    and "fs_writable fs (pid_path ev)" "config_path ev \<noteq> pid_path ev"
  shows "\<exists>e pm fs1. daemon_main ev js parse to_json ncpu now lib rg pid arriving fs =
      (fs1, if WaitForSignal ev arriving = None
            then Runs e [DCCPInbound ''dccp-in'' 33445 ''0.0.0.0'' (Some \<lparr>ssn_Network = ''dccp'', ssn_hasDCCP = True\<rparr>)]
            else Exits 0) \<and>
    co_manager (en_core e) = Some pm \<and> dispatchRequest pm = Some Discards \<and>
    fs_content fs1 (pid_path ev) = (if WaitForSignal ev arriving = None then Some (pid_text pid) else None) \<and>
    (\<forall>path. path \<notin> {pid_path ev, config_path ev} \<longrightarrow> fs_content fs1 path = fs_content fs path) \<and>
    daemon_loadConfig ev parse to_json fs1 = (fs1, Return (read_back DefaultConfig)) \<and>
    (\<exists>e2 pm2 fs2. daemon_main ev js parse to_json ncpu now2 lib rg pid2 arriving2 fs1 =
        (fs2, if WaitForSignal ev arriving2 = None
              then Runs e2 [DCCPInbound ''dccp-in'' 33445 ''0.0.0.0'' (Some \<lparr>ssn_Network = ''dccp'', ssn_hasDCCP = True\<rparr>)]
              else Exits 0) \<and>
      co_manager (en_core e2) = Some pm2 \<and> dispatchRequest pm2 = Some Discards)"
proof -
  define fs0 where "fs0 = os_WriteFile (config_path ev) (to_json DefaultConfig) fs"
  have load: "daemon_loadConfig ev parse to_json fs = (fs0, Return DefaultConfig)"
    using assms(3) by (simp add: daemon_loadConfig_def fs0_def)
  have fs0: "fs_content fs0 = (fs_content fs)(config_path ev \<mapsto> to_json DefaultConfig)"
      "fs_writable fs0 (pid_path ev)" "fs_readable fs0 (config_path ev)"
    using assms(4-6) by (simp_all add: fs0_def)
  obtain e pm fs1 where first: "daemon_main ev js parse to_json ncpu now lib rg pid arriving fs =
      (fs1, if WaitForSignal ev arriving = None then Runs e default_inbounds else Exits 0)"
      "co_manager (en_core e) = Some pm" "dispatchRequest pm = Some Discards"
    and fs1: "fs_content fs1 = (fs_content fs0)
        (pid_path ev := (if WaitForSignal ev arriving = None then Some (pid_text pid) else None))"
      "fs_readable fs1 = fs_readable fs0" "fs_writable fs1 = fs_writable fs0"
    using default_daemon_runs [OF _ assms(1) load fs0(2), of js ncpu now lib pid arriving] by blast
  have load1: "daemon_loadConfig ev parse to_json fs1 = (fs1, Return (read_back DefaultConfig))"
    using assms(2,7) fs0 fs1 by (simp add: daemon_loadConfig_def os_ReadFile_def)
  have "fs_writable fs1 (pid_path ev)"
    using fs0(2) fs1(3) by simp
  then obtain e2 pm2 fs2 where "daemon_main ev js parse to_json ncpu now2 lib rg pid2 arriving2 fs1 =
      (fs2, if WaitForSignal ev arriving2 = None then Runs e2 default_inbounds else Exits 0)"
      "co_manager (en_core e2) = Some pm2" "dispatchRequest pm2 = Some Discards"
    using default_daemon_runs [OF _ assms(1) load1, of js ncpu now2 lib pid2 arriving2] by blast
  with first load1 show ?thesis
    by (intro exI [of _ e] exI [of _ pm] exI [of _ fs1]) (auto simp: fs0(1) fs1(1))
qed

theorem fresh_daemon_forwards_nothing_witness:
  "\<exists>ev js parse to_json lib e hs pm fs1. daemon_main ev js parse to_json 4 0 lib \<lparr>rg_in = Map.empty, rg_out = Map.empty\<rparr>
      77 [] \<lparr>fs_content = Map.empty, fs_readable = \<lambda>_. True, fs_writable = \<lambda>_. True\<rparr> = (fs1, Runs e hs) \<and>
    co_manager (en_core e) = Some pm \<and> dispatchRequest pm = Some Discards \<and>
    fs_content fs1 (pid_path ev) = Some (pid_text 77)"
proof -
  define ev where "ev = \<lparr>ev_GOOS = ''linux'', ev_GOARCH = ''amd64'', ev_var = \<lambda>_. [], ev_home = Fail EOF,
    ev_executable = [], ev_file = \<lambda>_. None, ev_stat = \<lambda>_. False, ev_join = concat, ev_dir = \<lambda>s. s\<rparr>"
  fix js lib
  define fs where "fs = \<lparr>fs_content = Map.empty, fs_readable = \<lambda>_. True, fs_writable = \<lambda>_. True\<rparr>"
  have paths: "config_path ev \<noteq> pid_path ev"
    by (simp add: config_path_def pid_path_def detectPlatform_def dirs_def ev_def appDataDir_linux_def
        configDir_linux_def or_env_def home_of_def Let_def)
  have none: "WaitForSignal ev [] = None"
    by (simp add: WaitForSignal_def)
  define parse where "parse = (\<lambda>bs :: bytes. if bs = [1] then Return (read_back DefaultConfig) else Fail EOF)"
  have parse: "parse [1] = Return (read_back DefaultConfig)"
    by (simp add: parse_def)
  have "\<exists>e pm fs1. daemon_main ev js parse (\<lambda>_. [1]) 4 0 lib
      \<lparr>rg_in = Map.empty, rg_out = Map.empty\<rparr> 77 [] fs =
      (fs1, Runs e [DCCPInbound ''dccp-in'' 33445 ''0.0.0.0'' (Some \<lparr>ssn_Network = ''dccp'', ssn_hasDCCP = True\<rparr>)]) \<and>
    co_manager (en_core e) = Some pm \<and> dispatchRequest pm = Some Discards \<and>
    fs_content fs1 (pid_path ev) = Some (pid_text 77)"
    using fresh_daemon_forwards_nothing [of "\<lparr>rg_in = Map.empty, rg_out = Map.empty\<rparr>" parse "\<lambda>_. [1]" fs ev
        js 4 0 lib 77 "[]"] paths parse unfolding none by (simp add: fs_def) blast
  then show ?thesis
    unfolding fs_def by blast
qed

end
