(* ===== verification/Spec2Isabelle.thy ===== *)
theory Spec2Isabelle
  imports Mux Listeners Grpc Dccp_Transport Disguise Protocol Obfuscator Reality Xtls
    Shadowsocks Outbound Batch Command
begin

text \<open>
  A model of a proxy program written in Go (everything named below is under \<open>src/app\<close>). A core
  is built from a configuration: it registers the proxy protocols, creates the outbounds and
  starts the inbounds. A connection that reaches an inbound is sniffed, its request is read by a
  proxy protocol (Shadowsocks, Trojan, VLESS, VMess), the router picks an outbound, and the bytes
  are carried by a transport (DCCP packets, mKCP, XHTTP, gRPC, WebSocket, QUIC) or by a stream of a
  multiplexed session, optionally obfuscated, disguised or wrapped by one of the stealth
  connections. Jobs run on a worker pool; congestion controllers, a dual-stack dialer and a
  certificate manager are optional features of the core.

  Conventions. A function that can fail or panic has a result of type \<open>go\<close>: \<open>Return\<close>, \<open>Fail\<close> with
  the error, or \<open>Panic\<close> (an index or slice out of range, a nil pointer or map, a negative
  allocation, a nonce of the wrong size). Where a call can wait for ever, for a lock or a channel,
  its result is an option and \<open>None\<close> means that it does. Fixed-width integers are words; slices are
  lists of bytes; \<open>int\<close> is unbounded where the code only computes lengths with it. \<open>float64\<close> is a
  rounded rational with infinities and NaN. A reader is the list of chunks that will arrive; a
  writer is a connection record that collects what was written and may refuse. Randomness, the
  clock, hash functions, AEAD ciphers, the certificate library, the JSON decoder, the regular
  expressions and address parsers of the library are parameters with their documented laws as
  hypotheses; every property with such a hypothesis has a witness with concrete instances. The
  section of code under one lock is one step. Log lines are left out.

  Foundations:

  \<^item> \<open>Go_Prelude\<close>: results, errors, slices, big-endian numbers, readers and writers of the Go
    library as the code uses them, and the locales \<open>framing\<close> (an encoder and a stream decoder of
    messages; what a sequence of frames decodes to is proved once there) and \<open>framed_reader\<close> (a
    connection that reads frames and hands out their bytes in portions: what it delivers is a
    prefix of what was framed). \<open>Go_Strings\<close>: the packages \<open>strings\<close> and \<open>strconv\<close>. \<open>Go_Float\<close>:
    \<open>float64\<close>, its rounding and interval lemmas.
  \<^item> \<open>Net\<close>, \<open>Address\<close>: \<open>common/net/addr.go\<close>, \<open>conn.go\<close>: addresses, their text and the host and port
    encoding that Trojan and VLESS share, counters of a connection.
  \<^item> \<open>Buf\<close>: \<open>common/buf/buffer.go\<close>, the pooled buffers with their read and write positions. The
    invariant \<open>buf_inv\<close> is kept by every operation, and a buffer refines a bounded FIFO queue of
    bytes (locale \<open>byte_queue\<close>).

  Transports:

  \<^item> \<open>Dccp_Packet\<close>, \<open>Dccp_Options\<close>, \<open>Dccp_Handshake\<close>: \<open>transport/dccp/\<close> \<open>dccp.go\<close>, \<open>packet.go\<close>,
    \<open>options.go\<close>, \<open>handshake.go\<close>. The encoder, the decoder, the checksum, option parsing (recursion
    over the option bytes, which shrink), the builders, and the client and server handshakes as
    functions of the bytes received; outcomes of every branch, panics included.
  \<^item> \<open>Dccp_Congestion\<close>: \<open>transport/dccp/congestion.go\<close>: CCID 2, 3 and 4, each an interpretation of the
    locale \<open>congestion_control\<close>, whose invariant bounds the window under every history of calls.
  \<^item> \<open>Dccp_Transport\<close>: the connection over both (\<open>transport/dccp/transport.go\<close>, and the older copy in
    \<open>transport/transport.go\<close>): dialling, accepting, reading, writing and closing.
  \<^item> \<open>Disguise\<close>: \<open>transport/dccp/disguise/\<close>: what the dialers and listeners of the disguises send and
    expect around the DCCP handshake; the library TLS, HTTP/2 and WebSocket are parameters.
  \<^item> \<open>Session\<close>, \<open>Mux\<close>, \<open>Xhttp\<close>: \<open>features/multiplex/mux.go\<close> and \<open>transport/xhttp.go\<close>. A session with
    its stream table as a record, its frames (interpretations of \<open>framing\<close>), reading, writing,
    opening, accepting, resetting and closing as operations, composed by the step relations
    \<open>session_step\<close> (what a session does by itself) and \<open>mux_step\<close> (which adds the frames users
    write) and by sequences of frames and reads.
  \<^item> \<open>Mkcp\<close>: \<open>transport/mkcp.go\<close>: the state of a KCP session, segments, input, receive, and flush,
    which encodes every segment at the same place of a buffer and sends nothing.
  \<^item> \<open>Grpc\<close>, \<open>Websocket\<close>: \<open>transport/grpc.go\<close>, \<open>websocket.go\<close>, \<open>quic.go\<close>: connections that put bytes
    into frames or messages, proved to be transparent byte streams.
  \<^item> \<open>Listeners\<close>: how the connections of \<open>mkcp.go\<close>, \<open>xhttp.go\<close>, \<open>websocket.go\<close> and \<open>quic.go\<close> are dialled
    and accepted, and a KCP connection with its two goroutines as the labelled step relation
    \<open>ks_step\<close>, with the runs \<open>ks_run\<close> in which its \<open>Close\<close> returns or waits.
  \<^item> \<open>Bbr\<close>: \<open>transport/bbr/bbr.go\<close>: the BBR controller with its seven variants and an invariant over
    every history of calls.

  Stealth:

  \<^item> \<open>Obfuscator\<close>: \<open>features/stealth/obfuscator.go\<close>: the five methods and the stream wrapper; the
    locale \<open>obfuscation\<close> is the contract of the \<open>Obfuscator\<close> interface and is interpreted on the
    methods where they fulfil it. \<open>Xtls\<close>: \<open>xtls.go\<close>, \<open>vision.go\<close>: sealed and padded connections and
    the flow controller. \<open>Reality\<close>: \<open>reality.go\<close>: the verification message and who is let in.
  \<^item> \<open>Crypto\<close>: \<open>common/crypto/crypto.go\<close>: ciphers over an AEAD parameter, counters, keys.

  Proxies and routing:

  \<^item> \<open>Router\<close>: \<open>route/router.go\<close> and the routing part of \<open>config/config.go\<close>: compilation of rules
    and their evaluation, against a direct reading of the configuration. A small matcher gives
    meaning to the patterns the router itself builds (literals and \<open>.*\<close>).
  \<^item> \<open>Protocol\<close>: \<open>common/protocol/protocol.go\<close>: the sniffers for HTTP, TLS (with the server name)
    and DNS, and the request header.
  \<^item> \<open>Shadowsocks\<close>, \<open>Trojan\<close>, \<open>Vless\<close>, \<open>Vmess\<close>: \<open>proxy/shadowsocks/ss.go\<close>, \<open>proxy/trojan/trojan.go\<close>,
    \<open>proxy/vless/vless.go\<close>, \<open>proxy/vmess/vmess.go\<close>: key derivation, encrypted streams and datagrams,
    authentication, request parsing, fallback, and the requests the clients build.
  \<^item> \<open>Relay\<close>, \<open>Outbound\<close>: \<open>Process\<close> of the outbounds of these packages, of \<open>registry.go\<close> and \<open>proxy.go\<close>:
    which transport is dialled and what is written first, and the two copies as a step
    relation with the deadline, the end of the context and every interleaving. A VLESS client and a
    server of one connection are composed there.
  \<^item> \<open>Proxy\<close>: \<open>proxy/proxy.go\<close>, \<open>registry.go\<close>, \<open>constructors.go\<close>: registries, handlers, the manager and
    its dispatch.

  The core:

  \<^item> \<open>Worker\<close>: \<open>core/worker.go\<close>: the worker pool with one step per atomic action, the task
    scheduler and the parallel executor. \<open>Batch\<close>: a whole batch on the executor, from the call to
    its return.
  \<^item> \<open>Dualstack\<close>: \<open>common/net/dualstack.go\<close>: pools of lines, their probing, the order and the race of
    dials, where the events a race receives are an argument. \<open>Tlsgen\<close>: \<open>common/tls/tlsgen.go\<close>: the
    certificate manager with its cache and its lock.
  \<^item> \<open>Core\<close>: \<open>core/core.go\<close>: construction, start, stop and reload over the manager, the router and
    the pool. \<open>Features\<close>: the same with the controller, the dialer, the certificates and the
    background tasks, and the default configuration.
  \<^item> \<open>Platform\<close>: \<open>common/platform/\<close>: what is detected of the system, the directories, the signals.
    \<open>Command\<close>: \<open>cmd/cli/main.go\<close> and \<open>cmd/daemon/daemon_unix.go\<close>: the two programs as functions of the
    environment, the files and the signals that arrive.

  Loops that the code runs over its input are structural recursions or have a measure. The only
  fuel is the number of handshake attempts, which is the code's own bound. Two loops whose body
  does not change what they test are partial functions, and are shown to return below. The number
  of steps in a step relation, and the length of a history of calls, are unbounded.

  Not modelled: sockets, their options, and what the library does on them (TLS, HTTP/2, QUIC, DTLS:
  the code calls it and keeps no state of its own), deadlines other than as failing reads and
  writes, the adapters between handler interfaces and the conversion of transport settings
  (\<open>proxy/adapters\<close>, most of \<open>transport/config.go\<close>: types and assignments of fields), flag parsing and
  output, and the JSON decoding of the configuration, which the library does. Strings are taken as
  valid UTF-8, the MTU of a KCP session as a natural number and its interval as positive.
\<close>

section \<open>Key derivations\<close>

text \<open>
  Both key derivations with a loop that tests a length its body never changes return for
  every input, since the loop is never entered: the key is the digest of the secret, cut to the
  length asked for or followed by zeros, so a longer key adds nothing to the digest.
\<close>

lemma key_derivations_return:
  "KDFPassword md5 password keyLen =
     Some (take keyLen (md5 password) @ replicate (keyLen - length (md5 password)) 0) \<and>
   DeriveKey sha n e =
     Some (case kx_sharedSecret e of
       None \<Rightarrow> Fail (Error ''no shared secret'')
     | Some secret \<Rightarrow>
         if n < 0 then Panic
         else Return (take (nat n) (sha secret) @ replicate (nat n - length (sha secret)) 0))"
proof (intro conjI KDFPassword_eq)
  show "DeriveKey sha n e = Some (case kx_sharedSecret e of None \<Rightarrow> Fail (Error ''no shared secret'')
     | Some secret \<Rightarrow> if n < 0 then Panic
         else Return (take (nat n) (sha secret) @ replicate (nat n - length (sha secret)) 0))"
  proof (cases "kx_sharedSecret e")
    case (Some secret)
    then show ?thesis
      using DeriveKey_eq [OF Some, of sha "nat n"] by (cases "n < 0") (simp_all add: DeriveKey_def)
  qed (simp add: DeriveKey_def)
qed

end
